(* ===== verification/Quic_Prelude.thy ===== *)
theory Quic_Prelude
  imports Complex_Main "HOL-Library.Word" "HOL-Library.Multiset" "HOL-Library.Monad_Syntax"
    "HOL-Library.State_Monad"
begin

text \<open>
  Shared vocabulary of the development: C strings and the bounded formatting of the C
  library, the \<open>errbuf\<close> and result conventions of \<open>src/src/quic_util.c\<close>, PHP values as far
  as the extension looks into them, and the generic lemmas on lists and multisets that
  several components use.
\<close>

named_theorems own_rules \<comment> \<open>introduction rules of the ownership triples\<close>
named_theorems own_specs \<comment> \<open>ownership triples of the modelled functions\<close>
named_theorems ledger_simps \<comment> \<open>what a library call uses, releases and acquires\<close>

subsection \<open>C strings\<close>

text \<open>
  A \<open>zend_string\<close> is a byte string with a length; HOL's \<open>char\<close> is a byte.  As a C string
  it ends at its first NUL (Zend stores one after the last byte).
\<close>

definition NUL :: char where
  "NUL = CHR 0x00"

definition c_str :: "string \<Rightarrow> string" where
  "c_str s = takeWhile (\<lambda>c. c \<noteq> NUL) s"

definition strlen :: "string \<Rightarrow> nat" where
  "strlen s = length (c_str s)"

text \<open>\<open>snprintf (buf, n, \<dots>)\<close>: what the buffer holds as a C string afterwards.\<close>

definition snprintf :: "nat \<Rightarrow> string \<Rightarrow> string" where
  "snprintf n s = take (n - 1) s"

text \<open>\<open>'%s'\<close> in a message.\<close>

definition quoted :: "string \<Rightarrow> string" where
  "quoted s = CHR 0x27 # s @ [CHR 0x27]"

lemma length_c_str_le: "length (c_str s) \<le> length s"
  by (simp add: c_str_def length_takeWhile_le)

lemma NUL_notin_c_str [simp]: "NUL \<notin> set (c_str s)"
  by (auto simp: c_str_def dest: set_takeWhileD)

lemma c_str_id: "NUL \<notin> set s \<Longrightarrow> c_str s = s"
  by (induction s) (auto simp: c_str_def)

lemma strlen_eq_iff: "strlen s = length s \<longleftrightarrow> NUL \<notin> set s"
proof
  assume "strlen s = length s"
  then have "takeWhile (\<lambda>c. c \<noteq> NUL) s = s"
    by (metis append_eq_conv_conj append_take_drop_id c_str_def strlen_def
        take_all_iff order_refl takeWhile_eq_take)
  then show "NUL \<notin> set s" by (metis (mono_tags, lifting) set_takeWhileD)
qed (simp add: strlen_def c_str_id)

lemma length_snprintf: "length (snprintf n s) \<le> n - 1"
  by (simp add: snprintf_def)

subsection \<open>Decimal formatting\<close>

fun show_nat :: "nat \<Rightarrow> string" where
  "show_nat n =
     (if n < 10 then [char_of (48 + n)] else show_nat (n div 10) @ [char_of (48 + n mod 10)])"

declare show_nat.simps [simp del]

text \<open>\<open>ZEND_LONG_FMT\<close> on a 64-bit \<open>zend_long\<close>.\<close>

definition show_long :: "64 word \<Rightarrow> string" where
  "show_long x = (if sint x < 0 then ''-'' @ show_nat (nat (- sint x)) else show_nat (nat (sint x)))"

subsection \<open>C integers\<close>

text \<open>The conversion \<open>(int)x\<close> of a 64-bit value, and the quotient of C, which truncates.\<close>

definition c_int :: "64 word \<Rightarrow> 32 word" where
  "c_int x = ucast x"

definition c_quot :: "int \<Rightarrow> int \<Rightarrow> int" where
  "c_quot a b = sgn a * sgn b * (\<bar>a\<bar> div \<bar>b\<bar>)"

definition INT_MAX :: int where
  "INT_MAX = 2147483647"

lemma sint_c_int_wrap: "sint (c_int x) = signed_take_bit 31 (sint x)"
  unfolding c_int_def by transfer (simp add: signed_take_bit_take_bit)

lemma sint_c_int:
  "- (2 ^ 31) \<le> sint x \<Longrightarrow> sint x < 2 ^ 31 \<Longrightarrow> sint (c_int x) = sint x"
  by (simp add: sint_c_int_wrap signed_take_bit_int_eq_self)

lemma sint_word_of_int_64:
  "- (2 ^ 63) \<le> k \<Longrightarrow> k < 2 ^ 63 \<Longrightarrow> sint (word_of_int k :: 64 word) = k"
  by (simp only: sint_sbintrunc' len_num1 len_bit0 diff_Suc_1)
    (simp add: signed_take_bit_int_eq_self)

lemma uint_nonneg_64:
  assumes "0 \<le> sint (x :: 64 word)"
  shows "uint x = sint x"
proof -
  have "take_bit 64 (sint x) = uint x"
    by transfer (simp add: take_bit_signed_take_bit)
  moreover have "take_bit 64 (sint x) = sint x"
    using assms sint_lt [of x] by (simp add: take_bit_int_eq_self)
  ultimately show ?thesis by simp
qed

lemma unat_nonneg_64: "0 \<le> sint (x :: 64 word) \<Longrightarrow> unat x = nat (sint x)"
  by (simp add: unat_eq_nat_uint uint_nonneg_64)

lemma c_quot_nonneg: "0 \<le> a \<Longrightarrow> 0 < b \<Longrightarrow> c_quot a b = a div b"
  by (cases "a = 0") (auto simp: c_quot_def)

subsection \<open>Results\<close>

text \<open>
  \<open>zend_result\<close> with a populated \<open>errbuf\<close>: \<open>Inl\<close> the message (FAILURE), or \<open>Inr\<close> the
  output (SUCCESS).  A PHP method either throws \<open>Quic\Exception\<close> with a message or returns.
\<close>

type_synonym 'a zend_result = "string + 'a"

datatype exn = Quic_Exception string

type_synonym 'a outcome = "exn + 'a"

abbreviation FAILURE :: "string \<Rightarrow> 'a zend_result" where
  "FAILURE e \<equiv> Inl e"

abbreviation SUCCESS :: "'a \<Rightarrow> 'a zend_result" where
  "SUCCESS a \<equiv> Inr a"

text \<open>Every \<open>errbuf\<close> of the extension is \<open>char errbuf[256]\<close>.\<close>

definition errbuf :: "string \<Rightarrow> string" where
  "errbuf msg = snprintf 256 msg"

lemma length_errbuf: "length (errbuf m) \<le> 255"
  by (simp add: errbuf_def snprintf_def)

subsection \<open>PHP values\<close>

text \<open>Doubles, by their exact value; comparisons with a NaN are false, as in C.\<close>

datatype double = NaN | Infinity bool \<comment> \<open>\<open>True\<close>: negative\<close> | Fin rat

instantiation double :: ord
begin

fun less_double :: "double \<Rightarrow> double \<Rightarrow> bool" where
  "less_double (Fin a) (Fin b) = (a < b)"
| "less_double (Fin a) (Infinity neg) = (\<not> neg)"
| "less_double (Infinity neg) (Fin b) = neg"
| "less_double (Infinity m) (Infinity n) = (m \<and> \<not> n)"
| "less_double _ _ = False"

definition less_eq_double :: "double \<Rightarrow> double \<Rightarrow> bool" where
  "less_eq_double x y \<longleftrightarrow> x < y \<or> (x = y \<and> x \<noteq> NaN)"

instance ..

end

text \<open>
  The zvals the extension inspects.  An array is an ordered hash table; an object is named
  by an abstract identity, which the object store resolves to its class and its fields; a
  resource by its number.
\<close>

datatype zkey = KIdx "64 word" | KStr string

datatype zval =
    ZNull
  | ZBool bool
  | ZLong "64 word"
  | ZDouble double
  | ZString string
  | ZArray "(zkey \<times> zval) list"
  | ZObject nat
  | ZResource nat
  | ZRef zval
  | ZOther

type_synonym hashtable = "(zkey \<times> zval) list"

definition zend_hash_str_find :: "hashtable \<Rightarrow> string \<Rightarrow> zval option" where
  "zend_hash_str_find ht k = map_of ht (KStr k)"

definition zend_hash_index_find :: "hashtable \<Rightarrow> 64 word \<Rightarrow> zval option" where
  "zend_hash_index_find ht i = map_of ht (KIdx i)"

subsection \<open>Generic lemmas\<close>

lemma takeWhile_all: "(\<And>x. x \<in> set xs \<Longrightarrow> P x) \<Longrightarrow> takeWhile P xs = xs"
  by (induction xs) auto

lemma diff_single_add_mset [simp]: "add_mset x M - {#x#} = M"
  by simp

lemma Let_run_state: "run_state (let x = a in f x) w = (let x = a in run_state (f x) w)"
  by simp

end
