(* ===== verification/Quic_Calls.thy ===== *)
theory Quic_Calls
  imports Quic_Prelude
begin

text \<open>
  The calls the extension makes to code outside the repository: OpenSSL, the socket and
  clock interface, and the allocators and stream layer of PHP.  What such a call answers is
  not defined here: it is the parameter \<open>extern\<close> of an environment.  This theory only names
  the calls with their arguments and the ownership contract their documentation states:
  which objects a call uses, which reference it consumes and which it hands to the caller.
\<close>

subsection \<open>Owned resources\<close>

text \<open>
  A resource is a reference the extension must give back: an \<open>SSL\<close> object (connection,
  listener or stream), an \<open>SSL_CTX\<close>, a \<open>BIO\<close>, a \<open>BIO_ADDR\<close>, a resolver result, a UDP
  socket, a \<open>zend_string\<close>, an \<open>emalloc\<close>ed block, an \<open>X509\<close>, an
  \<open>ex_data\<close> index.
\<close>

datatype res =
    RSsl nat
  | RCtx nat
  | RBio nat
  | RAddr nat
  | RAddrInfo nat
  | RFd int
  | RStr nat
  | RMem nat
  | RX509 nat
  | RIndex int

subsection \<open>Calls\<close>

datatype err_call =
    ERR_get_error
  | ERR_error_string_n "64 word"
  | ERR_clear_error

datatype net_call =
    BIO_lookup_ex "string option" string bool \<comment> \<open>host, port, server lookup\<close>
  | BIO_ADDRINFO_free nat
  | BIO_socket int
  | BIO_connect int nat
  | BIO_bind int nat
  | BIO_socket_nbio int
  | setsockopt_reuseport int
  | BIO_closesocket int
  | BIO_ADDR_dup nat
  | BIO_ADDR_free nat
  | BIO_new_dgram int
  | poll_fd int "32 word" "32 word"
  | monotonic_clock

datatype ctx_call =
    SSL_CTX_new bool \<comment> \<open>\<open>True\<close>: \<open>OSSL_QUIC_server_method\<close>\<close>
  | SSL_CTX_free nat
  | SSL_CTX_set_default_passwd_cb_userdata nat "string option"
  | SSL_CTX_set_default_passwd_cb nat bool \<comment> \<open>\<open>False\<close>: NULL\<close>
  | SSL_CTX_use_certificate_chain_file nat string
  | SSL_CTX_use_PrivateKey_file nat string
  | SSL_CTX_check_private_key nat
  | SSL_CTX_set_ex_data nat bool
  | SSL_CTX_set_verify nat "32 word" bool \<comment> \<open>mode, with the verification callback\<close>
  | SSL_CTX_load_verify_locations nat "string option" "string option"
  | SSL_CTX_set_default_verify_paths nat
  | SSL_CTX_set_verify_depth nat "32 word"
  | SSL_CTX_set_ciphersuites nat string
  | SSL_CTX_set1_groups_list nat string
  | SSL_CTX_set1_sigalgs_list nat string
  | SSL_CTX_set_security_level nat "32 word"
  | SSL_CTX_set_alpn_select_cb nat nat

datatype ssl_call =
    SSL_new nat
  | SSL_new_listener nat
  | SSL_free nat
  | SSL_set_bio nat nat
  | SSL_set_alpn_protos nat string
  | SSL_set1_initial_peer_addr nat nat
  | SSL_set1_host nat string
  | SSL_set_tlsext_host_name nat string
  | SSL_set_feature_request_uint nat "64 word"
  | SSL_set_default_stream_mode_none nat
  | SSL_set_incoming_stream_policy_accept nat
  | SSL_connect nat
  | SSL_listen nat
  | SSL_accept_connection nat
  | SSL_get_error nat int
  | SSL_set_blocking_mode nat bool
  | SSL_get_blocking_mode nat
  | SSL_net_read_desired nat
  | SSL_net_write_desired nat
  | SSL_get_event_timeout nat
  | SSL_handle_events nat
  | SSL_poll "(nat \<times> 64 word) list" "(64 word \<times> 64 word) option"

datatype info_call =
    SSL_shutdown_ex nat "64 word" "string option"
  | SSL_get_conn_close_info nat
  | SSL_get_version nat
  | SSL_get_current_cipher nat
  | SSL_CIPHER_info nat
  | SSL_get0_alpn_selected nat
  | SSL_get1_peer_certificate nat
  | SSL_get_peer_cert_chain nat
  | SSL_get_verify_result nat
  | X509_verify_cert_error_string "64 word"
  | X509_free nat
  | BIO_new_mem
  | PEM_write_bio_X509 nat nat
  | BIO_get_mem_data nat
  | BIO_free nat

datatype stream_call =
    SSL_new_stream nat "64 word" \<comment> \<open>flags\<close>
  | SSL_accept_stream nat
  | SSL_write_ex2 nat string "64 word" \<comment> \<open>data, flags\<close>
  | SSL_read_ex nat nat \<comment> \<open>room in the buffer\<close>
  | SSL_stream_conclude nat
  | SSL_stream_reset nat "64 word"
  | SSL_get_stream_read_state nat
  | SSL_get_stream_read_error_code nat
  | SSL_get_stream_write_error_code nat
  | SSL_get_stream_id nat
  | SSL_get_stream_type nat
  | php_stream_alloc

text \<open>
  \<open>zend_string_realloc\<close> and \<open>zend_string_truncate\<close> may move the string; \<open>RETURN_STR\<close> hands it to the
  PHP value returned, which owns it from then on.
\<close>

datatype mem_call =
    smart_str_extract string
  | zend_string_release nat
  | zend_string_alloc nat
  | zend_string_realloc nat nat
  | zend_string_truncate nat nat
  | zend_string_efree nat
  | RETURN_STR nat
  | emalloc nat
  | efree nat
  | SSL_CTX_get_ex_new_index
  | CRYPTO_free_ex_index int

datatype call =
    Err err_call
  | Net net_call
  | Ctx ctx_call
  | Ssl ssl_call
  | Info info_call
  | Strm stream_call
  | Mem mem_call

subsection \<open>Answers\<close>

text \<open>
  One record holds everything a call can hand back: its C return value, a returned pointer
  that may be NULL, one that never is, and the values it stores through its out-parameters.
  Each caller reads the fields the call is documented to set.
\<close>

record reply =
  rc :: int
  ptr :: "nat option"
  hnd :: nat
  bytes :: string
  cstr :: "string option"
  u64 :: "64 word"
  u64b :: "64 word"
  u32 :: "32 word"
  tv_sec :: "64 word"
  tv_usec :: "64 word"
  tv_nsec :: "64 word"
  flag :: bool
  flag2 :: bool
  handles :: "nat list"
  revents :: "64 word list"
  addrs :: "(int \<times> nat) list"

definition no_reply :: reply where
  "no_reply = \<lparr>rc = 0, ptr = None, hnd = 0, bytes = [], cstr = None, u64 = 0, u64b = 0, u32 = 0,
     tv_sec = 0, tv_usec = 0, tv_nsec = 0, flag = False, flag2 = False, handles = [], revents = [],
     addrs = []\<rparr>"

lemma no_reply_simps [simp]:
  "rc no_reply = 0" "ptr no_reply = None" "hnd no_reply = 0" "bytes no_reply = []"
  "cstr no_reply = None" "u64 no_reply = 0" "u64b no_reply = 0" "u32 no_reply = 0" "tv_sec no_reply = 0"
  "tv_usec no_reply = 0" "tv_nsec no_reply = 0" "flag no_reply = False" "flag2 no_reply = False"
  "handles no_reply = []" "revents no_reply = []" "addrs no_reply = []"
  by (simp_all add: no_reply_def)

subsection \<open>The ownership contract\<close>

definition opt_res :: "('a \<Rightarrow> res) \<Rightarrow> 'a option \<Rightarrow> res multiset" where
  "opt_res f x = (case x of None \<Rightarrow> {#} | Some a \<Rightarrow> {#f a#})"

lemma opt_res_simps [simp]:
  "opt_res f None = {#}" "opt_res f (Some a) = {#f a#}"
  by (simp_all add: opt_res_def)

text \<open>A socket: \<open>-1\<close> stands for none.\<close>

definition fd_res :: "int \<Rightarrow> res multiset" where
  "fd_res fd = (if fd = -1 then {#} else {#RFd fd#})"

lemma fd_res_simps [simp]: "fd_res (-1) = {#}" "fd \<noteq> -1 \<Longrightarrow> fd_res fd = {#RFd fd#}"
  by (simp_all add: fd_res_def)

fun net_uses :: "net_call \<Rightarrow> res list" where
  "net_uses (BIO_ADDRINFO_free a) = [RAddrInfo a]"
| "net_uses (BIO_connect fd _) = [RFd fd]"
| "net_uses (BIO_bind fd _) = [RFd fd]"
| "net_uses (BIO_socket_nbio fd) = [RFd fd]"
| "net_uses (setsockopt_reuseport fd) = [RFd fd]"
| "net_uses (BIO_closesocket fd) = [RFd fd]"
| "net_uses (BIO_ADDR_free a) = [RAddr a]"
| "net_uses (BIO_new_dgram fd) = [RFd fd]"
| "net_uses (poll_fd fd _ _) = [RFd fd]"
| "net_uses _ = []"

fun net_rels :: "net_call \<Rightarrow> res multiset" where
  "net_rels (BIO_ADDRINFO_free a) = {#RAddrInfo a#}"
| "net_rels (BIO_closesocket fd) = {#RFd fd#}"
| "net_rels (BIO_ADDR_free a) = {#RAddr a#}"
| "net_rels _ = {#}"

fun net_acqs :: "net_call \<Rightarrow> reply \<Rightarrow> res multiset" where
  "net_acqs (BIO_lookup_ex _ _ _) r = (if rc r = 0 then {#} else {#RAddrInfo (hnd r)#})"
| "net_acqs (BIO_socket _) r = fd_res (rc r)"
| "net_acqs (BIO_ADDR_dup _) r = opt_res RAddr (ptr r)"
| "net_acqs (BIO_new_dgram _) r = opt_res RBio (ptr r)"
| "net_acqs _ r = {#}"

fun ctx_handle :: "ctx_call \<Rightarrow> nat list" where
  "ctx_handle (SSL_CTX_new _) = []"
| "ctx_handle (SSL_CTX_free c) = [c]"
| "ctx_handle (SSL_CTX_set_default_passwd_cb_userdata c _) = [c]"
| "ctx_handle (SSL_CTX_set_default_passwd_cb c _) = [c]"
| "ctx_handle (SSL_CTX_use_certificate_chain_file c _) = [c]"
| "ctx_handle (SSL_CTX_use_PrivateKey_file c _) = [c]"
| "ctx_handle (SSL_CTX_check_private_key c) = [c]"
| "ctx_handle (SSL_CTX_set_ex_data c _) = [c]"
| "ctx_handle (SSL_CTX_set_verify c _ _) = [c]"
| "ctx_handle (SSL_CTX_load_verify_locations c _ _) = [c]"
| "ctx_handle (SSL_CTX_set_default_verify_paths c) = [c]"
| "ctx_handle (SSL_CTX_set_verify_depth c _) = [c]"
| "ctx_handle (SSL_CTX_set_ciphersuites c _) = [c]"
| "ctx_handle (SSL_CTX_set1_groups_list c _) = [c]"
| "ctx_handle (SSL_CTX_set1_sigalgs_list c _) = [c]"
| "ctx_handle (SSL_CTX_set_security_level c _) = [c]"
| "ctx_handle (SSL_CTX_set_alpn_select_cb c _) = [c]"

text \<open>
  \<open>SSL_CTX_free\<close> drops one reference; \<open>SSL_new\<close> and \<open>SSL_new_listener\<close> take their own.
\<close>

fun ctx_uses :: "ctx_call \<Rightarrow> res list" where
  "ctx_uses (SSL_CTX_set_alpn_select_cb c arg) = [RCtx c, RMem arg]"
| "ctx_uses call = map RCtx (ctx_handle call)"

fun ctx_rels :: "ctx_call \<Rightarrow> res multiset" where
  "ctx_rels (SSL_CTX_free c) = {#RCtx c#}"
| "ctx_rels _ = {#}"

fun ctx_acqs :: "ctx_call \<Rightarrow> reply \<Rightarrow> res multiset" where
  "ctx_acqs (SSL_CTX_new _) r = opt_res RCtx (ptr r)"
| "ctx_acqs _ r = {#}"

fun ssl_uses :: "ssl_call \<Rightarrow> res list" where
  "ssl_uses (SSL_new c) = [RCtx c]"
| "ssl_uses (SSL_new_listener c) = [RCtx c]"
| "ssl_uses (SSL_free s) = [RSsl s]"
| "ssl_uses (SSL_set_bio s b) = [RSsl s, RBio b]"
| "ssl_uses (SSL_set_alpn_protos s _) = [RSsl s]"
| "ssl_uses (SSL_set1_initial_peer_addr s a) = [RSsl s, RAddr a]"
| "ssl_uses (SSL_set1_host s _) = [RSsl s]"
| "ssl_uses (SSL_set_tlsext_host_name s _) = [RSsl s]"
| "ssl_uses (SSL_set_feature_request_uint s _) = [RSsl s]"
| "ssl_uses (SSL_set_default_stream_mode_none s) = [RSsl s]"
| "ssl_uses (SSL_set_incoming_stream_policy_accept s) = [RSsl s]"
| "ssl_uses (SSL_connect s) = [RSsl s]"
| "ssl_uses (SSL_listen s) = [RSsl s]"
| "ssl_uses (SSL_accept_connection s) = [RSsl s]"
| "ssl_uses (SSL_get_error s _) = [RSsl s]"
| "ssl_uses (SSL_set_blocking_mode s _) = [RSsl s]"
| "ssl_uses (SSL_get_blocking_mode s) = [RSsl s]"
| "ssl_uses (SSL_net_read_desired s) = [RSsl s]"
| "ssl_uses (SSL_net_write_desired s) = [RSsl s]"
| "ssl_uses (SSL_get_event_timeout s) = [RSsl s]"
| "ssl_uses (SSL_handle_events s) = [RSsl s]"
| "ssl_uses (SSL_poll items _) = map (\<lambda>i. RSsl (fst i)) items"

text \<open>\<open>SSL_set_bio (s, b, b)\<close> takes over the caller's one reference to \<open>b\<close>.\<close>

fun ssl_rels :: "ssl_call \<Rightarrow> res multiset" where
  "ssl_rels (SSL_free s) = {#RSsl s#}"
| "ssl_rels (SSL_set_bio _ b) = {#RBio b#}"
| "ssl_rels _ = {#}"

fun ssl_acqs :: "ssl_call \<Rightarrow> reply \<Rightarrow> res multiset" where
  "ssl_acqs (SSL_new _) r = opt_res RSsl (ptr r)"
| "ssl_acqs (SSL_new_listener _) r = opt_res RSsl (ptr r)"
| "ssl_acqs (SSL_accept_connection _) r = opt_res RSsl (ptr r)"
| "ssl_acqs _ r = {#}"

text \<open>
  The certificates of \<open>SSL_get_peer_cert_chain\<close> and a cipher are borrowed from the \<open>SSL\<close>
  object, so a certificate argument of \<open>PEM_write_bio_X509\<close> need not be owned.
\<close>

fun info_uses :: "info_call \<Rightarrow> res list" where
  "info_uses (SSL_shutdown_ex s _ _) = [RSsl s]"
| "info_uses (SSL_get_conn_close_info s) = [RSsl s]"
| "info_uses (SSL_get_version s) = [RSsl s]"
| "info_uses (SSL_get_current_cipher s) = [RSsl s]"
| "info_uses (SSL_CIPHER_info _) = []"
| "info_uses (SSL_get0_alpn_selected s) = [RSsl s]"
| "info_uses (SSL_get1_peer_certificate s) = [RSsl s]"
| "info_uses (SSL_get_peer_cert_chain s) = [RSsl s]"
| "info_uses (SSL_get_verify_result s) = [RSsl s]"
| "info_uses (X509_verify_cert_error_string _) = []"
| "info_uses (X509_free x) = [RX509 x]"
| "info_uses BIO_new_mem = []"
| "info_uses (PEM_write_bio_X509 b _) = [RBio b]"
| "info_uses (BIO_get_mem_data b) = [RBio b]"
| "info_uses (BIO_free b) = [RBio b]"

fun info_rels :: "info_call \<Rightarrow> res multiset" where
  "info_rels (X509_free x) = {#RX509 x#}"
| "info_rels (BIO_free b) = {#RBio b#}"
| "info_rels _ = {#}"

fun info_acqs :: "info_call \<Rightarrow> reply \<Rightarrow> res multiset" where
  "info_acqs (SSL_get1_peer_certificate _) r = opt_res RX509 (ptr r)"
| "info_acqs BIO_new_mem r = opt_res RBio (ptr r)"
| "info_acqs _ r = {#}"

fun stream_uses :: "stream_call \<Rightarrow> res list" where
  "stream_uses (SSL_new_stream s _) = [RSsl s]"
| "stream_uses (SSL_accept_stream s) = [RSsl s]"
| "stream_uses (SSL_write_ex2 s _ _) = [RSsl s]"
| "stream_uses (SSL_read_ex s _) = [RSsl s]"
| "stream_uses (SSL_stream_conclude s) = [RSsl s]"
| "stream_uses (SSL_stream_reset s _) = [RSsl s]"
| "stream_uses (SSL_get_stream_read_state s) = [RSsl s]"
| "stream_uses (SSL_get_stream_read_error_code s) = [RSsl s]"
| "stream_uses (SSL_get_stream_write_error_code s) = [RSsl s]"
| "stream_uses (SSL_get_stream_id s) = [RSsl s]"
| "stream_uses (SSL_get_stream_type s) = [RSsl s]"
| "stream_uses php_stream_alloc = []"

fun stream_acqs :: "stream_call \<Rightarrow> reply \<Rightarrow> res multiset" where
  "stream_acqs (SSL_new_stream _ _) r = opt_res RSsl (ptr r)"
| "stream_acqs (SSL_accept_stream _) r = opt_res RSsl (ptr r)"
| "stream_acqs _ r = {#}"

fun mem_uses :: "mem_call \<Rightarrow> res list" where
  "mem_uses (zend_string_release p) = [RStr p]"
| "mem_uses (zend_string_alloc _) = []"
| "mem_uses (zend_string_realloc p _) = [RStr p]"
| "mem_uses (zend_string_truncate p _) = [RStr p]"
| "mem_uses (zend_string_efree p) = [RStr p]"
| "mem_uses (RETURN_STR p) = [RStr p]"
| "mem_uses (efree p) = [RMem p]"
| "mem_uses (emalloc _) = []"
| "mem_uses (smart_str_extract _) = []"
| "mem_uses SSL_CTX_get_ex_new_index = []"
| "mem_uses (CRYPTO_free_ex_index i) = [RIndex i]"

fun mem_rels :: "mem_call \<Rightarrow> res multiset" where
  "mem_rels (zend_string_release p) = {#RStr p#}"
| "mem_rels (zend_string_realloc p _) = {#RStr p#}"
| "mem_rels (zend_string_truncate p _) = {#RStr p#}"
| "mem_rels (zend_string_efree p) = {#RStr p#}"
| "mem_rels (RETURN_STR p) = {#RStr p#}"
| "mem_rels (efree p) = {#RMem p#}"
| "mem_rels (CRYPTO_free_ex_index i) = {#RIndex i#}"
| "mem_rels _ = {#}"

fun mem_acqs :: "mem_call \<Rightarrow> reply \<Rightarrow> res multiset" where
  "mem_acqs (smart_str_extract _) r = {#RStr (hnd r)#}"
| "mem_acqs (zend_string_alloc _) r = {#RStr (hnd r)#}"
| "mem_acqs (zend_string_realloc _ _) r = {#RStr (hnd r)#}"
| "mem_acqs (zend_string_truncate _ _) r = {#RStr (hnd r)#}"
| "mem_acqs (emalloc _) r = {#RMem (hnd r)#}"
| "mem_acqs SSL_CTX_get_ex_new_index r = (if rc r = -1 then {#} else {#RIndex (rc r)#})"
| "mem_acqs _ r = {#}"

fun uses :: "call \<Rightarrow> res list" where
  "uses (Err _) = []"
| "uses (Net c) = net_uses c"
| "uses (Ctx c) = ctx_uses c"
| "uses (Ssl c) = ssl_uses c"
| "uses (Info c) = info_uses c"
| "uses (Strm c) = stream_uses c"
| "uses (Mem c) = mem_uses c"

fun rels :: "call \<Rightarrow> res multiset" where
  "rels (Err _) = {#}"
| "rels (Net c) = net_rels c"
| "rels (Ctx c) = ctx_rels c"
| "rels (Ssl c) = ssl_rels c"
| "rels (Info c) = info_rels c"
| "rels (Strm _) = {#}"
| "rels (Mem c) = mem_rels c"

fun acqs :: "call \<Rightarrow> reply \<Rightarrow> res multiset" where
  "acqs (Err _) r = {#}"
| "acqs (Net c) r = net_acqs c r"
| "acqs (Ctx c) r = ctx_acqs c r"
| "acqs (Ssl c) r = ssl_acqs c r"
| "acqs (Info c) r = info_acqs c r"
| "acqs (Strm c) r = stream_acqs c r"
| "acqs (Mem c) r = mem_acqs c r"

subsection \<open>The ledger\<close>

text \<open>
  The ledger of a trace (newest call first) is the multiset of references owned after it,
  or \<open>None\<close> when the trace used something it did not own (a use after free) or released
  something it did not own (a double free).
\<close>

definition ledger_step :: "call \<Rightarrow> reply \<Rightarrow> res multiset \<Rightarrow> res multiset option" where
  "ledger_step c r M =
     (if list_all (\<lambda>x. x \<in># M) (uses c) \<and> rels c \<subseteq># M then Some (M - rels c + acqs c r)
      else None)"

fun ledger :: "(call \<times> reply) list \<Rightarrow> res multiset option" where
  "ledger [] = Some {#}"
| "ledger ((c, r) # tr) = Option.bind (ledger tr) (ledger_step c r)"

lemma ledger_step_frame:
  assumes "list_all (\<lambda>x. x \<in># P) (uses c)" and "rels c \<subseteq># P"
  shows "ledger_step c r (F + P) = Some (F + (P - rels c + acqs c r))"
proof -
  have "list_all (\<lambda>x. x \<in># F + P) (uses c)"
    using assms(1) by (auto simp: list_all_iff)
  moreover have "rels c \<subseteq># F + P"
    using assms(2) by (simp add: subset_mset.add_increasing)
  moreover have "F + P - rels c = F + (P - rels c)"
    using assms(2) by simp
  ultimately show ?thesis by (simp add: ledger_step_def add.assoc)
qed

lemma ledger_suffix: "ledger (xs @ ys) = Some M \<Longrightarrow> \<exists>N. ledger ys = Some N"
proof (induction xs arbitrary: M)
  case (Cons x xs)
  then show ?case by (cases x) (auto split: Option.bind_splits)
qed auto

end
