(* ===== verification/Quic_Effects.thy ===== *)
theory Quic_Effects
  imports Quic_Calls
begin

text \<open>
  The effect monad of the model: computations over the state of the outside world and the
  trace of calls made, the environment that answers the calls, and ownership triples
  \<open>owns P m Q\<close> with their rules.  A triple says that \<open>m\<close>, run while at least \<open>P\<close> is owned,
  makes no use after free and no double free and leaves \<open>Q\<close> of its result in place of \<open>P\<close>;
  everything else owned is untouched.
\<close>

subsection \<open>Environment and world\<close>

text \<open>
  \<open>extern\<close> answers each call from a state \<open>'w\<close> of the outside world it may change.  The
  other fields are functions of Zend and OpenSSL the code calls for their value only, the
  rounding \<open>fl\<close> of a result to a double, and the two feature macros the sources test.
\<close>

record 'w env =
  extern :: "'w \<Rightarrow> call \<Rightarrow> reply \<times> 'w"
  zend_is_true :: "zval \<Rightarrow> bool"
  zval_get_long :: "zval \<Rightarrow> 64 word"
  zval_get_string :: "zval \<Rightarrow> string"
  EVP_sha256 :: nat
  EVP_sha384 :: nat
  EVP_sha512 :: nat
  EVP_get_digestbyname :: "string \<Rightarrow> nat option"
  EVP_MD_get_size :: "nat \<Rightarrow> int"
  X509_digest :: "nat \<Rightarrow> nat \<Rightarrow> string option"
  SSL_select_next_proto :: "string \<Rightarrow> string \<Rightarrow> int \<times> string"
  fl :: "rat \<Rightarrow> rat"
  HAVE_SO_REUSEPORT :: bool
  HAVE_QUIC_IDLE_TIMEOUT :: bool

record 'w world =
  engine :: 'w
  trace :: "(call \<times> reply) list"

type_synonym ('w, 'a) quic = "('w world, 'a) state"

abbreviation ret :: "'a \<Rightarrow> ('s, 'a) state" where
  "ret \<equiv> State_Monad.return"

definition ext :: "'w env \<Rightarrow> call \<Rightarrow> ('w, reply) quic" where
  "ext E c = State (\<lambda>w. case extern E (engine w) c of
     (r, s) \<Rightarrow> (r, w\<lparr>engine := s, trace := (c, r) # trace w\<rparr>))"

definition whenM :: "bool \<Rightarrow> ('s, unit) state \<Rightarrow> ('s, unit) state" where
  "whenM b m = (if b then m else ret ())"

text \<open>A call whose answer is not looked at.\<close>

definition emit :: "'w env \<Rightarrow> call \<Rightarrow> ('w, unit) quic" where
  "emit E c = do { _ \<leftarrow> ext E c; ret () }"

lemma run_ext [simp]:
  "run_state (ext E c) w =
     (fst (extern E (engine w) c),
      w\<lparr>engine := snd (extern E (engine w) c),
        trace := (c, fst (extern E (engine w) c)) # trace w\<rparr>)"
  by (simp add: ext_def split: prod.splits)

lemma run_ext_ [simp]:
  "run_state (emit E c) w =
     ((), w\<lparr>engine := snd (extern E (engine w) c),
            trace := (c, fst (extern E (engine w) c)) # trace w\<rparr>)"
  by (simp add: emit_def)

lemma run_whenM [simp]:
  "run_state (whenM b m) w = (if b then run_state m w else ((), w))"
  by (simp add: whenM_def)

subsection \<open>Ownership triples\<close>

definition owns :: "res multiset \<Rightarrow> ('w, 'a) quic \<Rightarrow> ('a \<Rightarrow> res multiset) \<Rightarrow> bool" where
  "owns P m Q \<longleftrightarrow>
     (\<forall>w F. ledger (trace w) = Some (F + P) \<longrightarrow>
        ledger (trace (snd (run_state m w))) = Some (F + Q (fst (run_state m w))))"

lemma ownsI:
  assumes "\<And>w F a w'. ledger (trace w) = Some (F + P) \<Longrightarrow> run_state m w = (a, w') \<Longrightarrow>
    ledger (trace w') = Some (F + Q a)"
  shows "owns P m Q"
  unfolding owns_def by (metis assms prod.collapse)

lemma ownsD:
  "owns P m Q \<Longrightarrow> ledger (trace w) = Some (F + P) \<Longrightarrow> run_state m w = (a, w') \<Longrightarrow>
     ledger (trace w') = Some (F + Q a)"
  unfolding owns_def by (metis fst_conv snd_conv)

lemma owns_ret: "P = Q a \<Longrightarrow> owns P (ret a) Q"
  by (simp add: owns_def)

lemma owns_bind:
  assumes "owns P m R" and "\<And>a. owns (R a) (f a) Q"
  shows "owns P (m \<bind> f) Q"
proof (rule ownsI)
  fix w F b w''
  assume "ledger (trace w) = Some (F + P)" and "run_state (m \<bind> f) w = (b, w'')"
  then obtain a w' where "run_state m w = (a, w')" and "run_state (f a) w' = (b, w'')"
    by (auto split: prod.splits)
  with \<open>ledger (trace w) = Some (F + P)\<close> assms show "ledger (trace w'') = Some (F + Q b)"
    by (meson ownsD)
qed

lemma owns_frame:
  assumes "owns P m Q"
  shows "owns (F + P) m (\<lambda>a. F + Q a)"
proof (rule ownsI)
  fix w G a w'
  assume "ledger (trace w) = Some (G + (F + P))" and "run_state m w = (a, w')"
  then show "ledger (trace w') = Some (G + (F + Q a))"
    using ownsD [OF assms, of w "G + F"] by (simp add: add.assoc)
qed

lemma owns_cong: "owns P m Q \<Longrightarrow> P = P' \<Longrightarrow> (\<And>a. Q a = Q' a) \<Longrightarrow> owns P' m Q'"
  by (metis ext)

lemma owns_ext:
  assumes "list_all (\<lambda>x. x \<in># P) (uses c)" and "rels c \<subseteq># P"
  shows "owns P (ext E c) (\<lambda>r. P - rels c + acqs c r)"
  by (rule ownsI) (auto simp: ledger_step_frame [OF assms])

text \<open>The rules a proof applies: one per construct, each call against what it needs.\<close>

lemma owns_bind_ext [own_rules]:
  assumes "list_all (\<lambda>x. x \<in># P) (uses c)" and "rels c \<subseteq># P"
    and "\<And>r. owns (P - rels c + acqs c r) (f r) Q"
  shows "owns P (ext E c \<bind> f) Q"
  by (rule owns_bind [OF owns_ext]) (rule assms)+

lemma owns_bind_ext_ [own_rules]:
  assumes "list_all (\<lambda>x. x \<in># P) (uses c)" and "rels c \<subseteq># P"
    and "\<And>r. owns (P - rels c + acqs c r) (f ()) Q"
  shows "owns P (emit E c \<bind> f) Q"
  unfolding emit_def State_Monad.bind_assoc State_Monad.bind_left_identity
  by (rule owns_bind_ext) (rule assms)+

lemma owns_ext_last [own_rules]:
  assumes "list_all (\<lambda>x. x \<in># P) (uses c)" and "rels c \<subseteq># P"
    and "\<And>r. P - rels c + acqs c r = Q ()"
  shows "owns P (emit E c) Q"
  unfolding emit_def
  by (rule owns_bind_ext [OF assms(1,2)]) (simp add: owns_ret assms(3))

lemma owns_call:
  assumes "owns P0 m R" and "P0 \<subseteq># P" and "\<And>a. owns (P - P0 + R a) (f a) Q"
  shows "owns P (m \<bind> f) Q"
proof (rule owns_bind [where R = "\<lambda>a. P - P0 + R a"])
  have "P = P - P0 + P0" using assms(2) by simp
  then show "owns P m (\<lambda>a. P - P0 + R a)" by (metis owns_frame assms(1))
qed (rule assms(3))

lemma owns_call_last:
  assumes "owns P0 m R" and "P0 \<subseteq># P" and "\<And>a. P - P0 + R a = Q a"
  shows "owns P m Q"
  using owns_frame [OF assms(1), of "P - P0"] assms(2,3) by (auto elim!: owns_cong)

lemma owns_if [own_rules]:
  "(b \<Longrightarrow> owns P m Q) \<Longrightarrow> (\<not> b \<Longrightarrow> owns P n Q) \<Longrightarrow> owns P (if b then m else n) Q"
  by simp

lemma owns_option [own_rules]:
  "(x = None \<Longrightarrow> owns P m Q) \<Longrightarrow> (\<And>a. x = Some a \<Longrightarrow> owns P (f a) Q) \<Longrightarrow>
     owns P (case x of None \<Rightarrow> m | Some a \<Rightarrow> f a) Q"
  by (cases x) auto

lemma owns_sum [own_rules]:
  "(\<And>a. x = Inl a \<Longrightarrow> owns P (f a) Q) \<Longrightarrow> (\<And>b. x = Inr b \<Longrightarrow> owns P (g b) Q) \<Longrightarrow>
     owns P (case x of Inl a \<Rightarrow> f a | Inr b \<Rightarrow> g b) Q"
  by (cases x) auto

lemma owns_prod [own_rules]:
  "(\<And>a b. x = (a, b) \<Longrightarrow> owns P (f a b) Q) \<Longrightarrow> owns P (case x of (a, b) \<Rightarrow> f a b) Q"
  by (cases x) auto

lemma owns_let [own_rules]: "owns P (f a) Q \<Longrightarrow> owns P (let x = a in f x) Q"
  by simp

lemma owns_bind_when [own_rules]:
  assumes "b \<Longrightarrow> owns P (m \<bind> f) Q" and "\<not> b \<Longrightarrow> owns P (f ()) Q"
  shows "owns P (whenM b m \<bind> f) Q"
  using assms by (cases b) (auto simp: whenM_def)

lemma owns_bind_if [own_rules]:
  assumes "b \<Longrightarrow> owns P (m \<bind> f) Q" and "\<not> b \<Longrightarrow> owns P (n \<bind> f) Q"
  shows "owns P ((if b then m else n) \<bind> f) Q"
  using assms by simp

lemma owns_bind_option [own_rules]:
  assumes "x = None \<Longrightarrow> owns P (m \<bind> f) Q" and "\<And>a. x = Some a \<Longrightarrow> owns P (g a \<bind> f) Q"
  shows "owns P ((case x of None \<Rightarrow> m | Some a \<Rightarrow> g a) \<bind> f) Q"
  using assms by (cases x) auto

text \<open>
  A computation that owns nothing of its own keeps whatever its caller owns: what the
  error helpers and the pure queries satisfy.
\<close>

abbreviation keeps :: "res multiset \<Rightarrow> ('w, 'a) quic \<Rightarrow> bool" where
  "keeps P m \<equiv> owns P m (\<lambda>_. P)"

lemma owns_keeps_call:
  assumes "keeps P0 m" and "P0 \<subseteq># P" and "\<And>a. owns P (f a) Q"
  shows "owns P (m \<bind> f) Q"
  by (rule owns_call [OF assms(1,2)]) (simp add: assms)

subsection \<open>Results\<close>

text \<open>\<open>yields V m\<close>: whatever the environment answers, the result of \<open>m\<close> satisfies \<open>V\<close>.\<close>

named_theorems yields_rules

definition yields :: "('a \<Rightarrow> bool) \<Rightarrow> ('s, 'a) state \<Rightarrow> bool" where
  "yields V m \<longleftrightarrow> (\<forall>w. V (fst (run_state m w)))"

lemma yieldsD: "yields V m \<Longrightarrow> run_state m w = (a, w') \<Longrightarrow> V a"
  unfolding yields_def by (metis fst_conv)

lemma yields_ret [yields_rules]: "V a \<Longrightarrow> yields V (ret a)"
  by (simp add: yields_def)

lemma yields_bind [yields_rules]: "(\<And>a. yields V (f a)) \<Longrightarrow> yields V (m \<bind> f)"
  by (auto simp: yields_def split: prod.splits)

lemma yields_if [yields_rules]:
  "(b \<Longrightarrow> yields V m) \<Longrightarrow> (\<not> b \<Longrightarrow> yields V n) \<Longrightarrow> yields V (if b then m else n)"
  by simp

lemma yields_option [yields_rules]:
  "(x = None \<Longrightarrow> yields V m) \<Longrightarrow> (\<And>a. x = Some a \<Longrightarrow> yields V (f a)) \<Longrightarrow>
     yields V (case x of None \<Rightarrow> m | Some a \<Rightarrow> f a)"
  by (cases x) auto

lemma yields_sum [yields_rules]:
  "(\<And>a. x = Inl a \<Longrightarrow> yields V (f a)) \<Longrightarrow> (\<And>b. x = Inr b \<Longrightarrow> yields V (g b)) \<Longrightarrow>
     yields V (case x of Inl a \<Rightarrow> f a | Inr b \<Rightarrow> g b)"
  by (cases x) auto

lemma yields_prod [yields_rules]:
  "(\<And>a b. x = (a, b) \<Longrightarrow> yields V (f a b)) \<Longrightarrow> yields V (case x of (a, b) \<Rightarrow> f a b)"
  by (cases x) auto

lemma yields_call:
  assumes "yields V m" and "\<And>a. V a \<Longrightarrow> yields U (f a)"
  shows "yields U (m \<bind> f)"
  using assms by (auto simp: yields_def split: prod.splits) (metis fst_conv)

lemma owns_yields_call:
  assumes "owns P0 m R" and "yields V m" and "P0 \<subseteq># P"
    and "\<And>a. V a \<Longrightarrow> owns (P - P0 + R a) (f a) Q"
  shows "owns P (m \<bind> f) Q"
proof (rule ownsI)
  fix w F b w''
  assume l: "ledger (trace w) = Some (F + P)" and "run_state (m \<bind> f) w = (b, w'')"
  then obtain a w' where m: "run_state m w = (a, w')" and f: "run_state (f a) w' = (b, w'')"
    by (auto split: prod.splits)
  have "owns (P - P0 + P0) m (\<lambda>a. P - P0 + R a)" by (rule owns_frame [OF assms(1)])
  with assms(3) l m have "ledger (trace w') = Some (F + (P - P0 + R a))"
    by (metis ownsD subset_mset.diff_add)
  then show "ledger (trace w'') = Some (F + Q b)"
    using ownsD [OF assms(4) _ f] yieldsD [OF assms(2) m] by blast
qed

subsection \<open>Sequencing fallible steps\<close>

text \<open>\<open>if (step (...) == FAILURE) return FAILURE;\<close>.\<close>

definition and_then ::
  "('s, 'e + 'a) state \<Rightarrow> ('a \<Rightarrow> ('s, 'e + 'b) state) \<Rightarrow> ('s, 'e + 'b) state" where
  "and_then m f = do { r \<leftarrow> m; case r of Inl e \<Rightarrow> ret (Inl e) | Inr a \<Rightarrow> f a }"

lemma run_and_then:
  "run_state (and_then m f) w =
     (case run_state m w of (Inl e, w') \<Rightarrow> (Inl e, w') | (Inr a, w') \<Rightarrow> run_state (f a) w')"
  by (auto simp: and_then_def split: prod.splits sum.splits)

lemma and_then_Inr:
  assumes "run_state (and_then m f) w = (Inr b, w')"
  obtains a v where "run_state m w = (Inr a, v)" and "run_state (f a) v = (Inr b, w')"
  using assms by (auto simp: run_and_then split: prod.splits sum.splits)

lemma owns_and_then:
  assumes "keeps P m" and "\<And>a. owns P (f a) Q" and "\<And>e. Q (Inl e) = P"
  shows "owns P (and_then m f) Q"
  unfolding and_then_def
  by (rule owns_bind [OF assms(1)]) (auto intro!: own_rules owns_ret assms(2) simp: assms(3))

lemma yields_mono: "yields V m \<Longrightarrow> (\<And>a. V a \<Longrightarrow> U a) \<Longrightarrow> yields U m"
  by (simp add: yields_def)

lemma yields_and_then:
  assumes "yields V m" and "\<And>a. V (Inr a) \<Longrightarrow> yields U (f a)" and "\<And>e. V (Inl e) \<Longrightarrow> U (Inl e)"
  shows "yields U (and_then m f)"
  unfolding and_then_def
  by (rule yields_call [OF assms(1)]) (auto intro!: yields_rules assms(2,3))

subsection \<open>Which calls a run makes\<close>

text \<open>
  \<open>makes p m\<close>: a run of \<open>m\<close> only adds calls to the trace, and each satisfies \<open>p\<close>.
\<close>

named_theorems makes_rules

definition makes :: "(call \<Rightarrow> bool) \<Rightarrow> ('w, 'a) quic \<Rightarrow> bool" where
  "makes p m \<longleftrightarrow>
     (\<forall>w. \<exists>t. trace (snd (run_state m w)) = t @ trace w \<and> list_all (\<lambda>e. p (fst e)) t)"

lemma makesD:
  assumes "makes p m" and "run_state m w = (a, w')"
  obtains t where "trace w' = t @ trace w" and "list_all (\<lambda>e. p (fst e)) t"
  using assms unfolding makes_def by (metis snd_conv)

lemma makes_ret [makes_rules]: "makes p (ret a)"
  by (simp add: makes_def)

lemma makes_ext [makes_rules]: "p c \<Longrightarrow> makes p (ext E c)"
  by (auto simp: makes_def)

lemma makes_bind [makes_rules]:
  assumes "makes p m" and "\<And>a. makes p (f a)"
  shows "makes p (m \<bind> f)"
  unfolding makes_def
proof
  fix w
  obtain a w' where r: "run_state m w = (a, w')" by (cases "run_state m w")
  with assms(1) obtain t where "trace w' = t @ trace w" "list_all (\<lambda>e. p (fst e)) t"
    by (rule makesD)
  moreover obtain b w'' where r': "run_state (f a) w' = (b, w'')" by (cases "run_state (f a) w'")
  with assms(2) obtain u where "trace w'' = u @ trace w'" "list_all (\<lambda>e. p (fst e)) u"
    by (rule makesD)
  ultimately show "\<exists>t. trace (snd (run_state (m \<bind> f) w)) = t @ trace w \<and>
      list_all (\<lambda>e. p (fst e)) t"
    using r r' by (intro exI [of _ "u @ t"]) simp
qed

lemma makes_bind_ext:
  assumes "p c" and "\<And>w. makes p (f (fst (extern E w c)))"
  shows "makes p (ext E c \<bind> f)"
  unfolding makes_def
proof
  fix w
  define v where "v = snd (run_state (ext E c) w)"
  obtain t where "trace (snd (run_state (f (fst (extern E (engine w) c))) v)) = t @ trace v"
    and "list_all (\<lambda>e. p (fst e)) t"
    using assms(2) unfolding makes_def by blast
  then show "\<exists>t. trace (snd (run_state (ext E c \<bind> f) w)) = t @ trace w \<and>
      list_all (\<lambda>e. p (fst e)) t"
    using assms(1) by (intro exI [of _ "t @ [(c, fst (extern E (engine w) c))]"]) (simp add: v_def)
qed

lemma makes_emit [makes_rules]: "p c \<Longrightarrow> makes p (emit E c)"
  unfolding emit_def by (intro makes_rules)

lemma makes_if [makes_rules]:
  "(b \<Longrightarrow> makes p m) \<Longrightarrow> (\<not> b \<Longrightarrow> makes p n) \<Longrightarrow> makes p (if b then m else n)"
  by simp

lemma makes_when [makes_rules]: "(b \<Longrightarrow> makes p m) \<Longrightarrow> makes p (whenM b m)"
  by (simp add: whenM_def makes_ret)

lemma makes_option [makes_rules]:
  "(x = None \<Longrightarrow> makes p m) \<Longrightarrow> (\<And>a. x = Some a \<Longrightarrow> makes p (f a)) \<Longrightarrow>
     makes p (case x of None \<Rightarrow> m | Some a \<Rightarrow> f a)"
  by (cases x) auto

lemma makes_sum [makes_rules]:
  "(\<And>a. x = Inl a \<Longrightarrow> makes p (f a)) \<Longrightarrow> (\<And>b. x = Inr b \<Longrightarrow> makes p (g b)) \<Longrightarrow>
     makes p (case x of Inl a \<Rightarrow> f a | Inr b \<Rightarrow> g b)"
  by (cases x) auto

lemma makes_prod [makes_rules]:
  "(\<And>a b. x = (a, b) \<Longrightarrow> makes p (f a b)) \<Longrightarrow> makes p (case x of (a, b) \<Rightarrow> f a b)"
  by (cases x) auto

lemma makes_and_then [makes_rules]:
  "makes p m \<Longrightarrow> (\<And>a. makes p (f a)) \<Longrightarrow> makes p (and_then m f)"
  unfolding and_then_def by (intro makes_rules)

text \<open>
  The last setting made by calls that \<open>sel\<close> picks out of a trace, and its stability under
  calls that are not picked.
\<close>

fun last_setting :: "(call \<Rightarrow> 'a option) \<Rightarrow> (call \<times> reply) list \<Rightarrow> 'a option" where
  "last_setting sel [] = None"
| "last_setting sel ((c, r) # tr) =
     (case sel c of Some a \<Rightarrow> Some a | None \<Rightarrow> last_setting sel tr)"

lemma last_setting_append:
  "list_all (\<lambda>e. sel (fst e) = None) t \<Longrightarrow> last_setting sel (t @ tr) = last_setting sel tr"
  by (induction t) auto

lemma last_setting_unchanged:
  assumes "makes (\<lambda>c. sel c = None) m" and "run_state m w = (a, w')"
  shows "last_setting sel (trace w') = last_setting sel (trace w)"
  using assms by (auto elim!: makesD simp: last_setting_append)

text \<open>All the calls that \<open>sel\<close> picks, with their answers, the last one first.\<close>

definition history :: "(call \<Rightarrow> 'a option) \<Rightarrow> (call \<times> reply) list \<Rightarrow> ('a \<times> reply) list" where
  "history sel tr = List.map_filter (\<lambda>(c, r). map_option (\<lambda>a. (a, r)) (sel c)) tr"

lemma history_simps [simp]:
  "history sel [] = []"
  "history sel ((c, r) # tr) = (case sel c of None \<Rightarrow> [] | Some a \<Rightarrow> [(a, r)]) @ history sel tr"
  by (simp_all add: history_def List.map_filter_simps split: option.split)

lemma history_append: "history sel (t @ tr) = history sel t @ history sel tr"
  by (simp add: history_def map_filter_def)

lemma history_none: "list_all (\<lambda>e. sel (fst e) = None) t \<Longrightarrow> history sel t = []"
  by (induction t) auto

lemma history_kept:
  assumes "makes p m" and "\<And>c. p c \<Longrightarrow> sel c = None" and "run_state m w = (a, w')"
  shows "history sel (trace w') = history sel (trace w)"
proof -
  obtain t where t: "trace w' = t @ trace w" "list_all (\<lambda>e. p (fst e)) t"
    using assms(1,3) by (rule makesD)
  then have "list_all (\<lambda>e. sel (fst e) = None) t" using assms(2) by (auto simp: list_all_iff)
  then show ?thesis using t(1) by (simp add: history_append history_none)
qed

subsection \<open>A concrete environment\<close>

text \<open>
  For the witnesses: environments with a small crypto library and a given way to answer
  calls, and one that answers every call from a list of prepared replies, in order (the
  last one for ever).
\<close>

fun next_reply :: "reply list \<Rightarrow> reply \<times> reply list" where
  "next_reply [] = (no_reply, [])"
| "next_reply [r] = (r, [r])"
| "next_reply (r # rs) = (r, rs)"

definition answering :: "('w \<Rightarrow> call \<Rightarrow> reply \<times> 'w) \<Rightarrow> 'w env" where
  "answering f = \<lparr>extern = f,
     zend_is_true = (\<lambda>v. v = ZBool True),
     zval_get_long = (\<lambda>v. case v of ZLong x \<Rightarrow> x | _ \<Rightarrow> 0),
     zval_get_string = (\<lambda>v. case v of ZString s \<Rightarrow> s | _ \<Rightarrow> []),
     EVP_sha256 = 1, EVP_sha384 = 2, EVP_sha512 = 3,
     EVP_get_digestbyname = (\<lambda>s. if s = ''sha256'' then Some 1 else if s = ''md5'' then Some 9 else None),
     EVP_MD_get_size = (\<lambda>m. if m = 1 then 32 else if m = 2 then 48 else if m = 3 then 64 else 16),
     X509_digest = (\<lambda>cert m. if m = 1 then Some (replicate 32 CHR 0xAB) else None),
     SSL_select_next_proto = (\<lambda>server client. (1, tl client)),
     fl = (\<lambda>x. x), HAVE_SO_REUSEPORT = True, HAVE_QUIC_IDLE_TIMEOUT = True\<rparr>"

definition scripted :: "reply list env" where
  "scripted = answering (\<lambda>rs c. next_reply rs)"

lemma answering_simps [simp]:
  "extern (answering f) = f"
  "zend_is_true (answering f) v = (v = ZBool True)"
  "zval_get_long (answering f) v = (case v of ZLong x \<Rightarrow> x | _ \<Rightarrow> 0)"
  "zval_get_string (answering f) v = (case v of ZString s \<Rightarrow> s | _ \<Rightarrow> [])"
  "EVP_sha256 (answering f) = 1" "EVP_sha384 (answering f) = 2" "EVP_sha512 (answering f) = 3"
  "EVP_get_digestbyname (answering f) s =
     (if s = ''sha256'' then Some 1 else if s = ''md5'' then Some 9 else None)"
  "EVP_MD_get_size (answering f) m =
     (if m = 1 then 32 else if m = 2 then 48 else if m = 3 then 64 else 16)"
  "X509_digest (answering f) cert m = (if m = 1 then Some (replicate 32 CHR 0xAB) else None)"
  "SSL_select_next_proto (answering f) server client = (1, tl client)"
  "fl (answering f) = (\<lambda>x. x)"
  "HAVE_SO_REUSEPORT (answering f)" "HAVE_QUIC_IDLE_TIMEOUT (answering f)"
  by (simp_all add: answering_def)

lemma scripted_simps [simp]:
  "extern scripted rs c = next_reply rs"
  "zend_is_true scripted v = (v = ZBool True)"
  "zval_get_long scripted v = (case v of ZLong x \<Rightarrow> x | _ \<Rightarrow> 0)"
  "zval_get_string scripted v = (case v of ZString s \<Rightarrow> s | _ \<Rightarrow> [])"
  "EVP_sha256 scripted = 1" "EVP_sha384 scripted = 2" "EVP_sha512 scripted = 3"
  "EVP_get_digestbyname scripted s =
     (if s = ''sha256'' then Some 1 else if s = ''md5'' then Some 9 else None)"
  "EVP_MD_get_size scripted m = (if m = 1 then 32 else if m = 2 then 48 else if m = 3 then 64 else 16)"
  "X509_digest scripted cert m = (if m = 1 then Some (replicate 32 CHR 0xAB) else None)"
  "SSL_select_next_proto scripted server client = (1, tl client)"
  "HAVE_SO_REUSEPORT scripted" "HAVE_QUIC_IDLE_TIMEOUT scripted"
  by (simp_all add: scripted_def)

definition script_world :: "reply list \<Rightarrow> reply list world" where
  "script_world rs = \<lparr>engine = rs, trace = []\<rparr>"

lemma script_world_simps [simp]: "engine (script_world rs) = rs" "trace (script_world rs) = []"
  by (simp_all add: script_world_def)

end
