(* ===== verification/Quic_Exception.thy ===== *)
theory Quic_Exception
  imports Quic_Effects
begin

text \<open>
  \<open>src/src/quic_exception.c\<close>: building a \<open>Quic\Exception\<close> from a formatted message held in
  \<open>char message[1024]\<close>, with or without the head of OpenSSL's error queue.  The formatted
  text is the caller's; the bound, the appended error and the draining of the queue are here.
\<close>

definition MESSAGE_SIZE :: nat where
  "MESSAGE_SIZE = 1024"

definition php_quic_throw :: "string \<Rightarrow> exn" where
  "php_quic_throw text = Quic_Exception (c_str (snprintf MESSAGE_SIZE text))"

definition php_quic_throw_ssl :: "'w env \<Rightarrow> string \<Rightarrow> ('w, exn) quic" where
  "php_quic_throw_ssl E text = do {
     let message = c_str (snprintf MESSAGE_SIZE text);
     r \<leftarrow> ext E (Err ERR_get_error);
     if u64 r \<noteq> 0 then do {
       s \<leftarrow> ext E (Err (ERR_error_string_n (u64 r)));
       let len = strlen message;
       let message = message @ snprintf (MESSAGE_SIZE - len) ('': '' @ c_str (snprintf 256 (bytes s)));
       emit E (Err ERR_clear_error);
       ret (Quic_Exception message)
     } else ret (Quic_Exception message)
   }"

lemma owns_throw_ssl [own_specs]: "keeps {#} (php_quic_throw_ssl E text)"
  unfolding php_quic_throw_ssl_def Let_def
  by (auto intro!: own_rules owns_ret)

lemma makes_throw_ssl [makes_rules]:
  "(\<And>c. p (Err c)) \<Longrightarrow> makes p (php_quic_throw_ssl E text)"
  unfolding php_quic_throw_ssl_def Let_def by (intro makes_rules) auto

lemma owns_throw_ssl_bind [own_rules]:
  "(\<And>e. owns P (f e) Q) \<Longrightarrow> owns P (php_quic_throw_ssl E text \<bind> f) Q"
  by (rule owns_keeps_call [OF owns_throw_ssl]) auto

end
