(* ===== verification/Quic_Alpn.thy ===== *)
theory Quic_Alpn
  imports Quic_Effects
begin

text \<open>
  ALPN encoding, \<open>src/src/quic_util.c\<close>: \<open>php_quic_alpn_append\<close> and
  \<open>php_quic_alpn_from_zval\<close> with its index-based scan of a comma-separated string, the
  reference semantics of that scan (split at commas, trim, drop the empty tokens), and the
  TLS wire format as a codec: what the scan writes is what a TLS peer reads back.
\<close>

subsection \<open>The code\<close>

definition php_quic_alpn_append :: "string \<Rightarrow> string \<Rightarrow> string zend_result" where
  "php_quic_alpn_append buf proto =
     (if length proto = 0 \<or> length proto > 255
      then FAILURE (errbuf (''ALPN protocol must be 1-255 bytes, got '' @ show_nat (length proto)))
      else SUCCESS (buf @ [char_of (length proto)] @ proto))"

definition blank :: "char \<Rightarrow> bool" where
  "blank c \<longleftrightarrow> c = CHR '' '' \<or> c = CHR 0x09"

text \<open>The two trimming loops of the scan, on indices into the string.\<close>

function skip_left :: "string \<Rightarrow> nat \<Rightarrow> nat \<Rightarrow> nat" where
  "skip_left s a b = (if a < b \<and> blank (s ! a) then skip_left s (a + 1) b else a)"
  by pat_completeness auto
termination
  by (relation "measure (\<lambda>(s, a, b). b - a)") auto

function skip_right :: "string \<Rightarrow> nat \<Rightarrow> nat \<Rightarrow> nat" where
  "skip_right s a b = (if b > a \<and> blank (s ! (b - 1)) then skip_right s a (b - 1) else b)"
  by pat_completeness auto
termination
  by (relation "measure (\<lambda>(s, a, b). b - a)") auto

declare skip_left.simps [simp del] skip_right.simps [simp del]

text \<open>\<open>zend_string_init (s + a, b - a, 0)\<close>.\<close>

definition substr :: "string \<Rightarrow> nat \<Rightarrow> nat \<Rightarrow> string" where
  "substr s a b = take (b - a) (drop a s)"

text \<open>The scan: \<open>for (i = 0; i <= len; i++)\<close> with \<open>start\<close>, \<open>count\<close> (here \<open>cnt\<close>) and the buffer.\<close>

function alpn_scan :: "string \<Rightarrow> nat \<Rightarrow> nat \<Rightarrow> nat \<Rightarrow> string \<Rightarrow> (string \<times> nat) zend_result" where
  "alpn_scan s i start cnt buf =
     (if i \<le> length s then
        (if i = length s \<or> s ! i = CHR '','' then
           let a = skip_left s start i; b = skip_right s a i in
           if b > a then
             (case php_quic_alpn_append buf (substr s a b) of
                Inl e \<Rightarrow> FAILURE e
              | Inr buf' \<Rightarrow> alpn_scan s (i + 1) (i + 1) (cnt + 1) buf')
           else alpn_scan s (i + 1) (i + 1) cnt buf
         else alpn_scan s (i + 1) start cnt buf)
      else SUCCESS (buf, cnt))"
  by pat_completeness auto
termination
  by (relation "measure (\<lambda>(s, i, start, cnt, buf). length s + 1 - i)") auto

declare alpn_scan.simps [simp del]

fun alpn_entries :: "'w env \<Rightarrow> zval list \<Rightarrow> string \<Rightarrow> string zend_result" where
  "alpn_entries E [] buf = SUCCESS buf"
| "alpn_entries E (entry # rest) buf =
     (case php_quic_alpn_append buf (zval_get_string E entry) of
        Inl e \<Rightarrow> FAILURE e
      | Inr buf' \<Rightarrow> alpn_entries E rest buf')"

text \<open>The body of \<open>php_quic_alpn_from_zval\<close> up to the assembled buffer.\<close>

definition alpn_buffer :: "'w env \<Rightarrow> zval \<Rightarrow> string zend_result" where
  "alpn_buffer E spec =
     (case spec of
        ZString s \<Rightarrow>
          (case alpn_scan s 0 0 0 [] of
             Inl e \<Rightarrow> FAILURE e
           | Inr (buf, cnt) \<Rightarrow>
               if cnt = 0 then FAILURE (errbuf ''ALPN string is empty'') else SUCCESS buf)
      | ZArray list \<Rightarrow>
          if length list = 0 then FAILURE (errbuf ''ALPN list must not be empty'')
          else alpn_entries E (map snd list) []
      | _ \<Rightarrow> FAILURE (errbuf ''ALPN must be a string or array of strings''))"

text \<open>A \<open>zend_string\<close>: the reference owned and the bytes.\<close>

record zstr =
  zs_ptr :: nat
  zs_val :: string

definition php_quic_alpn_from_zval :: "'w env \<Rightarrow> zval \<Rightarrow> ('w, zstr zend_result) quic" where
  "php_quic_alpn_from_zval E spec =
     (case alpn_buffer E spec of
        Inl e \<Rightarrow> ret (FAILURE e)
      | Inr buf \<Rightarrow> do {
          r \<leftarrow> ext E (Mem (smart_str_extract buf));
          ret (SUCCESS \<lparr>zs_ptr = hnd r, zs_val = buf\<rparr>)
        })"

definition res_alpn :: "zstr zend_result \<Rightarrow> res multiset" where
  "res_alpn r = (case r of Inl _ \<Rightarrow> {#} | Inr z \<Rightarrow> {#RStr (zs_ptr z)#})"

lemma res_alpn_simps [simp]:
  "res_alpn (Inl e) = {#}" "res_alpn (Inr z) = {#RStr (zs_ptr z)#}"
  by (simp_all add: res_alpn_def)

lemma owns_alpn_from_zval [own_specs]:
  "owns {#} (php_quic_alpn_from_zval E spec) res_alpn"
  unfolding php_quic_alpn_from_zval_def
  by (auto intro!: own_rules owns_ret)

subsection \<open>Reference semantics of the string form\<close>

fun split_comma :: "string \<Rightarrow> string list" where
  "split_comma [] = [[]]"
| "split_comma (c # cs) =
     (if c = CHR '','' then [] # split_comma cs
      else case split_comma cs of [] \<Rightarrow> [[c]] | x # xs \<Rightarrow> (c # x) # xs)"

definition trim_left :: "string \<Rightarrow> string" where
  "trim_left s = dropWhile blank s"

definition trim_right :: "string \<Rightarrow> string" where
  "trim_right s = rev (dropWhile blank (rev s))"

definition alpn_tokens :: "string \<Rightarrow> string list" where
  "alpn_tokens s = filter (\<lambda>p. p \<noteq> []) (map (trim_right \<circ> trim_left) (split_comma s))"

text \<open>The wire format of RFC 7301: each name behind one length byte.\<close>

definition alpn_wire :: "string list \<Rightarrow> string" where
  "alpn_wire ps = concat (map (\<lambda>p. char_of (length p) # p) ps)"

definition alpn_name :: "string \<Rightarrow> bool" where
  "alpn_name p \<longleftrightarrow> 0 < length p \<and> length p \<le> 255"

definition too_long_error :: "string \<Rightarrow> string" where
  "too_long_error p = errbuf (''ALPN protocol must be 1-255 bytes, got '' @ show_nat (length p))"

definition alpn_string_spec :: "string \<Rightarrow> string zend_result" where
  "alpn_string_spec s =
     (case find (\<lambda>p. \<not> alpn_name p) (alpn_tokens s) of
        Some p \<Rightarrow> FAILURE (too_long_error p)
      | None \<Rightarrow> if alpn_tokens s = [] then FAILURE (errbuf ''ALPN string is empty'')
                else SUCCESS (alpn_wire (alpn_tokens s)))"

subsection \<open>The trimming loops\<close>

lemma substr_empty: "b \<le> a \<Longrightarrow> substr s a b = []"
  by (simp add: substr_def)

lemma substr_Cons: "a < b \<Longrightarrow> b \<le> length s \<Longrightarrow> substr s a b = s ! a # substr s (a + 1) b"
  by (auto simp: substr_def Cons_nth_drop_Suc [symmetric] take_Cons' diff_Suc split: nat.splits)

lemma substr_snoc:
  assumes "a < b" and "b \<le> length s"
  shows "substr s a b = substr s a (b - 1) @ [s ! (b - 1)]"
proof -
  have "b - a = Suc (b - 1 - a)" and "b - 1 - a < length (drop a s)"
    using assms by auto
  then show ?thesis
    using assms by (simp add: substr_def take_Suc_conv_app_nth)
qed

lemma substr_eq_Nil_iff: "b \<le> length s \<Longrightarrow> substr s a b = [] \<longleftrightarrow> b \<le> a"
  by (auto simp: substr_def)

lemma skip_left_step:
  "a < b \<and> blank (s ! a) \<Longrightarrow> skip_left s a b = skip_left s (a + 1) b"
  "\<not> (a < b \<and> blank (s ! a)) \<Longrightarrow> skip_left s a b = a"
  by (auto simp: skip_left.simps [of s a b])

lemma skip_right_step:
  "b > a \<and> blank (s ! (b - 1)) \<Longrightarrow> skip_right s a b = skip_right s a (b - 1)"
  "\<not> (b > a \<and> blank (s ! (b - 1))) \<Longrightarrow> skip_right s a b = b"
  by (auto simp: skip_right.simps [of s a b])

lemma skip_left_spec:
  "a \<le> b \<Longrightarrow> b \<le> length s \<Longrightarrow>
     substr s (skip_left s a b) b = trim_left (substr s a b) \<and> skip_left s a b \<le> b"
proof (induction s a b rule: skip_left.induct)
  case (1 s a b)
  show ?case
  proof (cases "a < b \<and> blank (s ! a)")
    case True
    with 1 show ?thesis by (simp add: skip_left_step trim_left_def substr_Cons [of a b])
  next
    case False
    then have "trim_left (substr s a b) = substr s a b"
      using "1.prems" by (cases "a < b") (auto simp: trim_left_def substr_Cons substr_empty)
    with False "1.prems" show ?thesis by (simp add: skip_left_step)
  qed
qed

lemma skip_right_spec:
  "a \<le> b \<Longrightarrow> b \<le> length s \<Longrightarrow>
     substr s a (skip_right s a b) = trim_right (substr s a b) \<and>
     a \<le> skip_right s a b \<and> skip_right s a b \<le> b"
proof (induction s a b rule: skip_right.induct)
  case (1 s a b)
  show ?case
  proof (cases "b > a \<and> blank (s ! (b - 1))")
    case True
    then have "trim_right (substr s a b) = trim_right (substr s a (b - 1))"
      using "1.prems" substr_snoc [of a b s] by (simp add: trim_right_def)
    moreover have "substr s a (skip_right s a (b - 1)) = trim_right (substr s a (b - 1)) \<and>
        a \<le> skip_right s a (b - 1) \<and> skip_right s a (b - 1) \<le> b - 1"
      by (rule "1.IH") (use True "1.prems" in auto)
    ultimately show ?thesis using True by (simp add: skip_right_step) linarith
  next
    case False
    then have "trim_right (substr s a b) = substr s a b"
      using "1.prems" substr_snoc [of a b s]
      by (cases "a < b") (auto simp: trim_right_def substr_empty)
    with False "1.prems" show ?thesis by (simp add: skip_right_step)
  qed
qed

lemma trimmed_token:
  assumes "start \<le> i" and "i \<le> length s"
  defines "a \<equiv> skip_left s start i"
  shows "substr s a (skip_right s a i) = trim_right (trim_left (substr s start i))"
    and "a < skip_right s a i \<longleftrightarrow> trim_right (trim_left (substr s start i)) \<noteq> []"
proof -
  from assms have l: "substr s a i = trim_left (substr s start i)" "a \<le> i"
    using skip_left_spec by auto
  then have r: "substr s a (skip_right s a i) = trim_right (trim_left (substr s start i))"
      "skip_right s a i \<le> i"
    using skip_right_spec [of a i s] assms(2) by auto
  show "substr s a (skip_right s a i) = trim_right (trim_left (substr s start i))"
    by (rule r)
  show "a < skip_right s a i \<longleftrightarrow> trim_right (trim_left (substr s start i)) \<noteq> []"
    using substr_eq_Nil_iff [of "skip_right s a i" s a] r assms(2) by auto
qed

subsection \<open>The scan\<close>

text \<open>Appending a list of tokens one after the other, stopping at the first refusal.\<close>

fun append_tokens :: "string list \<Rightarrow> nat \<Rightarrow> string \<Rightarrow> (string \<times> nat) zend_result" where
  "append_tokens [] cnt buf = SUCCESS (buf, cnt)"
| "append_tokens (p # ps) cnt buf =
     (case php_quic_alpn_append buf p of
        Inl e \<Rightarrow> FAILURE e
      | Inr buf' \<Rightarrow> append_tokens ps (cnt + 1) buf')"

lemma split_comma_nonempty [simp]: "split_comma s \<noteq> []"
  by (induction s) (auto split: list.splits)

lemma split_comma_no_comma: "CHR '','' \<notin> set x \<Longrightarrow> split_comma x = [x]"
  by (induction x) auto

lemma split_comma_append:
  "CHR '','' \<notin> set x \<Longrightarrow> split_comma (x @ CHR '','' # y) = x # split_comma y"
  by (induction x) auto

lemma alpn_tokens_last:
  "CHR '','' \<notin> set x \<Longrightarrow>
     alpn_tokens x = (let t = trim_right (trim_left x) in if t = [] then [] else [t])"
  by (simp add: alpn_tokens_def split_comma_no_comma Let_def)

lemma alpn_tokens_comma:
  "CHR '','' \<notin> set x \<Longrightarrow>
     alpn_tokens (x @ CHR '','' # y) =
       (let t = trim_right (trim_left x) in if t = [] then alpn_tokens y else t # alpn_tokens y)"
  by (simp add: alpn_tokens_def split_comma_append Let_def)

lemma drop_substr:
  assumes "start \<le> i" and "i < length s"
  shows "drop start s = substr s start i @ s ! i # drop (i + 1) s"
proof -
  have "drop start s = substr s start i @ drop (i - start) (drop start s)"
    by (simp only: substr_def append_take_drop_id)
  moreover have "drop (i - start) (drop start s) = drop i s" using assms by simp
  ultimately show ?thesis using assms by (simp add: Cons_nth_drop_Suc)
qed

lemma alpn_scan_past: "length s < i \<Longrightarrow> alpn_scan s i start cnt buf = SUCCESS (buf, cnt)"
  by (subst alpn_scan.simps) simp

lemma alpn_scan_separator:
  assumes "i \<le> length s" and "i = length s \<or> s ! i = CHR '',''" and "start \<le> i"
  shows "alpn_scan s i start cnt buf =
     (let t = trim_right (trim_left (substr s start i)) in
      if t = [] then alpn_scan s (i + 1) (i + 1) cnt buf
      else case php_quic_alpn_append buf t of
             Inl e \<Rightarrow> FAILURE e
           | Inr buf' \<Rightarrow> alpn_scan s (i + 1) (i + 1) (cnt + 1) buf')"
  using assms trimmed_token [OF assms(3,1)]
  by (subst alpn_scan.simps) (simp add: Let_def)

lemma alpn_scan_other:
  "i < length s \<Longrightarrow> s ! i \<noteq> CHR '','' \<Longrightarrow>
     alpn_scan s i start cnt buf = alpn_scan s (i + 1) start cnt buf"
  by (subst alpn_scan.simps) simp

lemma alpn_scan_tokens:
  "start \<le> i \<Longrightarrow> i \<le> length s \<Longrightarrow> CHR '','' \<notin> set (substr s start i) \<Longrightarrow>
     alpn_scan s i start cnt buf = append_tokens (alpn_tokens (drop start s)) cnt buf"
proof (induction "length s - i" arbitrary: i start cnt buf)
  case 0
  then have "drop start s = substr s start i" and "i = length s"
    by (simp_all add: substr_def)
  then show ?case
    using 0 alpn_tokens_last [of "drop start s"]
    by (simp add: alpn_scan_separator alpn_scan_past Let_def split: sum.splits)
next
  case (Suc n)
  then have i: "i < length s" and n: "n = length s - (i + 1)" by simp_all
  show ?case
  proof (cases "s ! i = CHR '',''")
    case True
    have d: "drop start s = substr s start i @ CHR '','' # drop (i + 1) s"
      using drop_substr [OF Suc.prems(1) i] True by simp
    have "alpn_scan s (i + 1) (i + 1) c b = append_tokens (alpn_tokens (drop (i + 1) s)) c b" for c b
      using Suc.hyps(1) [OF n, of "i + 1"] i by (simp add: substr_empty)
    then show ?thesis
      unfolding d using alpn_tokens_comma [OF Suc.prems(3)] True Suc.prems(1,2)
      by (simp add: alpn_scan_separator Let_def split: sum.splits)
  next
    case False
    have "substr s start (i + 1) = substr s start i @ [s ! i]"
      using substr_snoc [of start "i + 1" s] Suc.prems(1) i by simp
    with False Suc.hyps(1) [OF n, of start] Suc.prems i show ?thesis
      by (simp add: alpn_scan_other)
  qed
qed

lemma append_ok: "alpn_name p \<Longrightarrow> php_quic_alpn_append buf p = Inr (buf @ char_of (length p) # p)"
  by (auto simp: php_quic_alpn_append_def alpn_name_def)

lemma append_refused: "\<not> alpn_name p \<Longrightarrow> php_quic_alpn_append buf p = Inl (too_long_error p)"
  by (auto simp: php_quic_alpn_append_def alpn_name_def too_long_error_def)

lemma append_tokens_spec:
  "append_tokens ps cnt buf =
     (case find (\<lambda>p. \<not> alpn_name p) ps of
        Some p \<Rightarrow> FAILURE (too_long_error p)
      | None \<Rightarrow> SUCCESS (buf @ alpn_wire ps, cnt + length ps))"
  by (induction ps arbitrary: cnt buf)
    (auto simp: alpn_wire_def append_ok append_refused split: option.splits)

lemma alpn_entries_spec:
  "alpn_entries E vs buf =
     (case find (\<lambda>p. \<not> alpn_name p) (map (zval_get_string E) vs) of
        Some p \<Rightarrow> FAILURE (too_long_error p)
      | None \<Rightarrow> SUCCESS (buf @ alpn_wire (map (zval_get_string E) vs)))"
  by (induction vs arbitrary: buf)
    (auto simp: alpn_wire_def append_ok append_refused split: option.splits)

lemma alpn_buffer_string: "alpn_buffer E (ZString s) = alpn_string_spec s"
proof -
  have "alpn_scan s 0 0 0 [] = append_tokens (alpn_tokens s) 0 []"
    using alpn_scan_tokens [of 0 0 s 0 "[]"] by (simp add: substr_empty)
  then show ?thesis
    by (auto simp: alpn_buffer_def alpn_string_spec_def append_tokens_spec split: option.splits)
qed

subsection \<open>The wire format as a codec\<close>

text \<open>
  An encoding whose items can be read off the front of a byte string.  A list of items is
  then read back item by item.
\<close>

fun decode_all :: "(string \<Rightarrow> ('a \<times> string) option) \<Rightarrow> nat \<Rightarrow> string \<Rightarrow> 'a list option" where
  "decode_all dec fuel [] = Some []"
| "decode_all dec 0 (x # xs) = None"
| "decode_all dec (Suc fuel) (x # xs) =
     (case dec (x # xs) of
        None \<Rightarrow> None
      | Some (a, rest) \<Rightarrow> map_option ((#) a) (decode_all dec fuel rest))"

locale prefix_codec =
  fixes enc :: "'a \<Rightarrow> string" and dec :: "string \<Rightarrow> ('a \<times> string) option" and ok :: "'a \<Rightarrow> bool"
  assumes enc_nonempty: "enc a \<noteq> []"
    and dec_enc: "ok a \<Longrightarrow> dec (enc a @ rest) = Some (a, rest)"
    and dec_sound: "dec s = Some (a, rest) \<Longrightarrow> s = enc a @ rest \<and> ok a"
begin

lemma decode_step:
  assumes "ok a"
  shows "decode_all dec (Suc n) (enc a @ rest) = map_option ((#) a) (decode_all dec n rest)"
proof -
  have "enc a @ rest \<noteq> []" using enc_nonempty [of a] by simp
  then obtain x xs where e: "enc a @ rest = x # xs" unfolding neq_Nil_conv by blast
  have "dec (x # xs) = Some (a, rest)" using dec_enc [OF assms, of rest] by (simp only: e)
  then show ?thesis by (simp only: e decode_all.simps option.case prod.case)
qed

lemma decode_encoded:
  "list_all ok ps \<Longrightarrow> length ps \<le> fuel \<Longrightarrow> decode_all dec fuel (concat (map enc ps)) = Some ps"
proof (induction ps arbitrary: fuel)
  case (Cons p ps)
  then obtain n where "fuel = Suc n" by (cases fuel) auto
  with Cons show ?case by (simp add: decode_step del: decode_all.simps)
qed simp

lemma decode_sound:
  "decode_all dec fuel s = Some ps \<Longrightarrow> s = concat (map enc ps) \<and> list_all ok ps"
proof (induction fuel arbitrary: s ps)
  case 0
  then show ?case by (cases s) auto
next
  case (Suc fuel)
  show ?case
  proof (cases s)
    case (Cons x xs)
    with Suc.prems obtain p rest qs where d: "dec s = Some (p, rest)"
      and q: "decode_all dec fuel rest = Some qs" and "ps = p # qs"
      by (auto split: option.splits prod.splits)
    with dec_sound [OF d] Suc.IH [OF q] show ?thesis by simp
  qed (use Suc.prems in simp)
qed

lemma encoding_injective:
  assumes "list_all ok ps" and "list_all ok qs" and "concat (map enc ps) = concat (map enc qs)"
  shows "ps = qs"
proof -
  have "decode_all dec (length ps + length qs) (concat (map enc ps)) = Some ps"
    by (rule decode_encoded [OF assms(1)]) simp
  moreover have "decode_all dec (length ps + length qs) (concat (map enc qs)) = Some qs"
    by (rule decode_encoded [OF assms(2)]) simp
  ultimately show ?thesis unfolding assms(3) by (simp only: option.inject)
qed

end

definition alpn_enc :: "string \<Rightarrow> string" where
  "alpn_enc p = char_of (length p) # p"

definition alpn_dec :: "string \<Rightarrow> (string \<times> string) option" where
  "alpn_dec s = (case s of [] \<Rightarrow> None
     | c # cs \<Rightarrow> let n = of_char c :: nat in
         if n = 0 \<or> length cs < n then None else Some (take n cs, drop n cs))"

lemma alpn_wire_concat: "alpn_wire ps = concat (map alpn_enc ps)"
  by (simp add: alpn_wire_def alpn_enc_def [abs_def])

lemma of_char_length: "length p \<le> 255 \<Longrightarrow> (of_char (char_of (length p) :: char) :: nat) = length p"
  by simp

interpretation alpn: prefix_codec alpn_enc alpn_dec alpn_name
proof unfold_locales
  show "alpn_enc p \<noteq> []" for p by (simp add: alpn_enc_def)
  show "alpn_dec (alpn_enc p @ rest) = Some (p, rest)" if "alpn_name p" for p rest
    using that by (auto simp: alpn_enc_def alpn_dec_def alpn_name_def of_char_length)
  show "s = alpn_enc p @ rest \<and> alpn_name p" if "alpn_dec s = Some (p, rest)" for s p rest
  proof (cases s)
    case (Cons c cs)
    define n where "n = (of_char c :: nat)"
    have n: "n < 256" by (simp add: n_def)
    have "char_of n = c" by (simp add: n_def)
    with n show ?thesis
      using that Cons
      by (auto simp: alpn_dec_def alpn_enc_def alpn_name_def Let_def min_def simp flip: n_def
          split: if_splits)
  qed (use that in \<open>simp add: alpn_dec_def\<close>)
qed

text \<open>What a TLS peer reads: RFC 7301 names, one after the other.\<close>

definition alpn_read :: "string \<Rightarrow> string list option" where
  "alpn_read s = decode_all alpn_dec (length s) s"

lemma alpn_wire_length: "length ps \<le> length (alpn_wire ps)"
  by (induction ps) (auto simp: alpn_wire_def)

lemma alpn_read_wire: "list_all alpn_name ps \<Longrightarrow> alpn_read (alpn_wire ps) = Some ps"
  unfolding alpn_read_def alpn_wire_concat
  by (rule alpn.decode_encoded) (use alpn_wire_length in \<open>simp_all add: alpn_wire_concat\<close>)

subsection \<open>What the encoder guarantees\<close>

text \<open>
  C22. The scanning loop over a comma-separated \<open>alpn\<close> string is split, trim and encode: it computes
  the wire format of the trimmed, non-empty parts, and fails exactly when there is none or
  when one is longer than 255 bytes, with the message for the first such part.
\<close>

theorem alpn_string_correct: "alpn_buffer E (ZString s) = alpn_string_spec s"
  by (rule alpn_buffer_string)

definition alpn_names :: "'w env \<Rightarrow> zval \<Rightarrow> string list" where
  "alpn_names E spec =
     (case spec of ZString s \<Rightarrow> alpn_tokens s
      | ZArray es \<Rightarrow> map (zval_get_string E \<circ> snd) es | _ \<Rightarrow> [])"

lemma all_names: "find (\<lambda>p. \<not> alpn_name p) ps = None \<longleftrightarrow> list_all alpn_name ps"
  by (auto simp: find_None_iff list_all_iff)

text \<open>
  C23. What a TLS peer reads from the buffer is what the option names: an accepted \<open>alpn\<close> option,
  string or array, gives a non-empty list of names of 1 to 255 bytes, and reading the buffer
  back gives exactly this list, so that no name can smuggle in another.
\<close>

theorem alpn_roundtrip:
  assumes "alpn_buffer E spec = SUCCESS buf"
  shows "alpn_read buf = Some (alpn_names E spec) \<and> alpn_names E spec \<noteq> [] \<and>
    list_all alpn_name (alpn_names E spec)"
proof (cases spec)
  case (ZString s)
  then show ?thesis
    using assms by (auto simp: alpn_buffer_string alpn_string_spec_def alpn_names_def all_names
        alpn_read_wire split: option.splits if_splits)
next
  case (ZArray es)
  then show ?thesis
    using assms by (auto simp: alpn_buffer_def alpn_entries_spec alpn_names_def all_names
        alpn_read_wire split: option.splits if_splits)
qed (use assms in \<open>simp_all add: alpn_buffer_def\<close>)

lemma alpn_roundtrip_witness:
  "\<exists>buf. alpn_buffer scripted (ZArray [(KIdx 0, ZString ''h3''), (KStr ''x'', ZString ''hq'')]) = SUCCESS buf
    \<and> alpn_read buf = Some [''h3'', ''hq'']"
proof -
  let ?v = "ZArray [(KIdx 0, ZString ''h3''), (KStr ''x'', ZString ''hq'')]"
  obtain buf where "alpn_buffer scripted ?v = SUCCESS buf"
    by (simp add: alpn_buffer_def php_quic_alpn_append_def)
  with alpn_roundtrip [OF this] show ?thesis by (simp add: alpn_names_def)
qed

end
