(* ===== verification/Quic_Fingerprint.thy ===== *)
theory Quic_Fingerprint
  imports Quic_Effects
begin

text \<open>
  Certificate pinning, \<open>src/src/quic_util.c\<close>: \<open>php_quic_md_for_hexlen\<close>,
  \<open>php_quic_fp_matches\<close> and \<open>php_quic_check_fingerprint\<close>, with the hexadecimal codec that
  says what a matching pin is.  The digests themselves are OpenSSL's: the environment gives
  the digest handles, their sizes and the digest of a certificate.
\<close>

subsection \<open>The code\<close>

definition php_quic_md_for_hexlen :: "'w env \<Rightarrow> nat \<Rightarrow> nat option" where
  "php_quic_md_for_hexlen E hexlen =
     (if hexlen = 64 then Some (EVP_sha256 E)
      else if hexlen = 96 then Some (EVP_sha384 E)
      else if hexlen = 128 then Some (EVP_sha512 E)
      else None)"

definition hexdigit :: "nat \<Rightarrow> char" where
  "hexdigit n = char_of (if n < 10 then 48 + n else 87 + n)"

text \<open>\<open>snprintf (hex + i * 2, 3, "%02x", digest[i])\<close>, for each byte in turn.\<close>

definition hex_byte :: "char \<Rightarrow> string" where
  "hex_byte c = snprintf 3 [hexdigit (of_char c div 16), hexdigit (of_char c mod 16)]"

definition hex :: "string \<Rightarrow> string" where
  "hex digest = concat (map hex_byte digest)"

lemma length_hex: "length (hex s) = 2 * length s"
  by (induction s) (simp_all add: hex_def hex_byte_def snprintf_def)

definition to_lower :: "char \<Rightarrow> char" where
  "to_lower c = (let n = of_char c :: nat in if 65 \<le> n \<and> n \<le> 90 then char_of (n + 32) else c)"

text \<open>\<open>strcasecmp (a, b) == 0\<close>.\<close>

definition strcasecmp_eq :: "string \<Rightarrow> string \<Rightarrow> bool" where
  "strcasecmp_eq a b \<longleftrightarrow> map to_lower (c_str a) = map to_lower (c_str b)"

definition php_quic_fp_matches :: "'w env \<Rightarrow> nat \<Rightarrow> nat option \<Rightarrow> string \<Rightarrow> bool" where
  "php_quic_fp_matches E cert md expected =
     (case md of
        None \<Rightarrow> False
      | Some m \<Rightarrow>
          (case X509_digest E cert m of
             None \<Rightarrow> False
           | Some digest \<Rightarrow> strcasecmp_eq (hex digest) expected))"

text \<open>The loop over an \<open>algorithm => digest\<close> array; it stops at the first bad entry.\<close>

fun fp_entries :: "'w env \<Rightarrow> nat \<Rightarrow> hashtable \<Rightarrow> unit zend_result" where
  "fp_entries E cert [] = SUCCESS ()"
| "fp_entries E cert ((key, digest) # rest) =
     (case (key, digest) of
        (KStr algo, ZString expected) \<Rightarrow>
          (case EVP_get_digestbyname E (c_str algo) of
             None \<Rightarrow> FAILURE (errbuf (''peer_fingerprint: unknown digest algorithm '' @ quoted (c_str algo)))
           | Some md \<Rightarrow>
               if EVP_MD_get_size E md < 32 then
                 FAILURE (errbuf (''peer_fingerprint: digest '' @ quoted (c_str algo) @
                   '' is too weak; use sha256 or stronger''))
               else if \<not> php_quic_fp_matches E cert (Some md) expected then
                 FAILURE (errbuf (''peer_fingerprint ('' @ c_str algo @ '') did not match''))
               else fp_entries E cert rest)
      | _ \<Rightarrow> FAILURE (errbuf ''peer_fingerprint array must map algorithm => hex digest''))"

text \<open>What \<open>php_quic_check_fingerprint\<close> decides once it holds the certificate.\<close>

definition fingerprint_verdict :: "'w env \<Rightarrow> nat \<Rightarrow> zval \<Rightarrow> unit zend_result" where
  "fingerprint_verdict E cert spec =
     (case spec of
        ZString expected \<Rightarrow>
          (case php_quic_md_for_hexlen E (length expected) of
             None \<Rightarrow> FAILURE (errbuf ''peer_fingerprint string has an unrecognized length'')
           | Some md \<Rightarrow>
               if php_quic_fp_matches E cert (Some md) expected then SUCCESS ()
               else FAILURE (errbuf ''peer_fingerprint did not match''))
      | ZArray entries \<Rightarrow> fp_entries E cert entries
      | _ \<Rightarrow> FAILURE (errbuf ''peer_fingerprint must be a string or an array''))"

definition php_quic_check_fingerprint :: "'w env \<Rightarrow> nat \<Rightarrow> zval \<Rightarrow> ('w, unit zend_result) quic" where
  "php_quic_check_fingerprint E ssl spec = do {
     r \<leftarrow> ext E (Info (SSL_get1_peer_certificate ssl));
     case ptr r of
       None \<Rightarrow> ret (FAILURE (errbuf ''peer_fingerprint set but the peer presented no certificate''))
     | Some cert \<Rightarrow> do {
         let result = fingerprint_verdict E cert spec;
         emit E (Info (X509_free cert));
         ret result
       }
   }"

text \<open>The certificate reference is given back on every path.\<close>

lemma owns_check_fingerprint [own_specs]:
  "keeps {#RSsl ssl#} (php_quic_check_fingerprint E ssl spec)"
  unfolding php_quic_check_fingerprint_def Let_def
  by (auto intro!: own_rules owns_ret)

subsection \<open>The hexadecimal codec\<close>

text \<open>A reader for pins: either case, two digits a byte, nothing else.\<close>

definition unhexdigit :: "char \<Rightarrow> nat option" where
  "unhexdigit c = (let n = of_char c :: nat in
     if 48 \<le> n \<and> n \<le> 57 then Some (n - 48)
     else if 97 \<le> n \<and> n \<le> 102 then Some (n - 87)
     else if 65 \<le> n \<and> n \<le> 70 then Some (n - 55)
     else None)"

fun unhex :: "string \<Rightarrow> string option" where
  "unhex [] = Some []"
| "unhex [_] = None"
| "unhex (a # b # rest) =
     (case (unhexdigit a, unhexdigit b, unhex rest) of
        (Some x, Some y, Some cs) \<Rightarrow> Some (char_of (16 * x + y) # cs)
      | _ \<Rightarrow> None)"

lemma hex_byte_eq: "hex_byte c = [hexdigit (of_char c div 16), hexdigit (of_char c mod 16)]"
  by (simp add: hex_byte_def snprintf_def)

lemma hex_simps [simp]:
  "hex [] = []"
  "hex (c # cs) = hexdigit (of_char c div 16) # hexdigit (of_char c mod 16) # hex cs"
  by (simp_all add: hex_def hex_byte_eq)

lemma of_char_hexdigit: "n < 16 \<Longrightarrow> (of_char (hexdigit n) :: nat) = (if n < 10 then 48 + n else 87 + n)"
  by (simp add: hexdigit_def)

lemma to_lower_hexdigit [simp]: "n < 16 \<Longrightarrow> to_lower (hexdigit n) = hexdigit n"
  by (simp add: to_lower_def of_char_hexdigit)

lemma hexdigit_not_NUL: "n < 16 \<Longrightarrow> hexdigit n \<noteq> NUL"
  using of_char_hexdigit [of n] by (auto simp: NUL_def split: if_splits)

lemma unhexdigit_lower:
  "unhexdigit c = Some n \<longleftrightarrow> n < 16 \<and> to_lower c = hexdigit n"
proof -
  have "(of_char c :: nat) < 256" by simp
  moreover have "to_lower c = hexdigit n \<longleftrightarrow> (of_char (to_lower c) :: nat) = of_char (hexdigit n)"
    by simp
  moreover have "(of_char (to_lower c) :: nat) =
      (if 65 \<le> (of_char c :: nat) \<and> (of_char c :: nat) \<le> 90 then of_char c + 32 else of_char c)"
    by (simp add: to_lower_def Let_def)
  ultimately show ?thesis
    by (cases "n < 16") (auto simp: unhexdigit_def Let_def of_char_hexdigit split: if_splits)
qed

lemma of_char_nibbles: "(of_char c :: nat) div 16 < 16" "(of_char c :: nat) mod 16 < 16"
proof -
  have "(of_char c :: nat) < 256" by simp
  then show "(of_char c :: nat) div 16 < 16" by linarith
qed simp

lemma c_str_hex [simp]: "c_str (hex d) = hex d"
  by (rule c_str_id, induction d) (auto simp: hexdigit_not_NUL of_char_nibbles dest: sym)

lemma lower_hex [simp]: "map to_lower (hex d) = hex d"
  by (induction d) (simp_all add: of_char_nibbles)

lemma hexdigit_inject: "m < 16 \<Longrightarrow> n < 16 \<Longrightarrow> hexdigit m = hexdigit n \<longleftrightarrow> m = n"
  by (metis of_char_hexdigit unhexdigit_lower option.inject to_lower_hexdigit)

lemma unhex_eq_iff: "unhex s = Some d \<longleftrightarrow> map to_lower s = hex d"
proof (induction s arbitrary: d rule: unhex.induct)
  case 1
  show ?case by (cases d) auto
next
  case (2 a)
  show ?case by (cases d) auto
next
  case (3 a b rest)
  show ?case
  proof (cases d)
    case (Cons c cs)
    have "unhex (a # b # rest) = Some (c # cs) \<longleftrightarrow>
        unhexdigit a = Some (of_char c div 16) \<and> unhexdigit b = Some (of_char c mod 16) \<and>
        unhex rest = Some cs"
    proof
      assume "unhex (a # b # rest) = Some (c # cs)"
      then obtain x y where xy: "unhexdigit a = Some x" "unhexdigit b = Some y"
          "unhex rest = Some cs" "c = char_of (16 * x + y)"
        by (auto split: option.splits)
      then have "x < 16" "y < 16" by (auto simp: unhexdigit_lower)
      then have "(of_char c :: nat) = 16 * x + y" using xy(4) by simp
      with xy \<open>y < 16\<close> show "unhexdigit a = Some (of_char c div 16) \<and>
          unhexdigit b = Some (of_char c mod 16) \<and> unhex rest = Some cs"
        by simp
    qed simp
    with 3 Cons show ?thesis by (auto simp: unhexdigit_lower of_char_nibbles)
  qed (auto split: option.splits)
qed

lemma unhex_hex: "unhex (hex d) = Some d"
  by (simp add: unhex_eq_iff)

lemma fp_matches_iff:
  "php_quic_fp_matches E cert (Some md) expected \<longleftrightarrow>
     (\<exists>d. X509_digest E cert md = Some d \<and> unhex (c_str expected) = Some d)"
  by (auto simp: php_quic_fp_matches_def strcasecmp_eq_def unhex_eq_iff split: option.splits)

subsection \<open>Verdicts\<close>

text \<open>What one entry of an array pin has to satisfy.\<close>

definition fp_entry_ok :: "'w env \<Rightarrow> nat \<Rightarrow> zkey \<times> zval \<Rightarrow> bool" where
  "fp_entry_ok E cert entry =
     (case entry of
        (KStr algo, ZString expected) \<Rightarrow>
          (\<exists>md d. EVP_get_digestbyname E (c_str algo) = Some md \<and> 32 \<le> EVP_MD_get_size E md \<and>
             X509_digest E cert md = Some d \<and> unhex (c_str expected) = Some d)
      | _ \<Rightarrow> False)"

lemma fp_entries_iff: "fp_entries E cert es = SUCCESS () \<longleftrightarrow> list_all (fp_entry_ok E cert) es"
  by (induction E cert es rule: fp_entries.induct)
    (auto simp: fp_entry_ok_def fp_matches_iff not_less split: zkey.splits zval.splits option.splits)

subsection \<open>What a pin means\<close>

text \<open>
  C27. A string pin is accepted exactly when its length is that of a SHA-256, SHA-384 or SHA-512
  digest in hexadecimal and it is, in either case, the hexadecimal form of that digest of the
  peer's certificate.  MD5 and SHA-1 pins match nothing.
\<close>

theorem string_pin:
  "fingerprint_verdict E cert (ZString pin) = SUCCESS () \<longleftrightarrow>
     (\<exists>md d. (length pin, md) \<in> {(64, EVP_sha256 E), (96, EVP_sha384 E), (128, EVP_sha512 E)} \<and>
        X509_digest E cert md = Some d \<and> unhex (c_str pin) = Some d)"
  by (auto simp: fingerprint_verdict_def php_quic_md_for_hexlen_def fp_matches_iff)

text \<open>
  An array pin is accepted exactly when every entry names a digest of at least 256 bits and
  holds the hexadecimal form of that digest of the certificate; the order of the entries does
  not matter, and an empty array accepts every certificate.
\<close>

lemma array_pin:
  "fingerprint_verdict E cert (ZArray entries) = SUCCESS () \<longleftrightarrow> list_all (fp_entry_ok E cert) entries"
  by (simp add: fingerprint_verdict_def fp_entries_iff)

lemma empty_pin_accepts_every_certificate: "fingerprint_verdict E cert (ZArray []) = SUCCESS ()"
  by (simp add: fingerprint_verdict_def)

end
