(* ===== verification/Quic_Tls.thy ===== *)
theory Quic_Tls
  imports Quic_Exception
begin

text \<open>
  TLS configuration, \<open>src/src/quic_util.c\<close>: the passphrase and verification callbacks,
  \<open>php_quic_opt_string\<close>, and \<open>php_quic_configure_ctx\<close> with its three blocks (local identity,
  peer verification, TLS tuning).
\<close>

subsection \<open>Callbacks\<close>

text \<open>
  \<open>php_quic_passwd_cb\<close>: \<open>buf\<close> is the caller's buffer of \<open>size\<close> (here \<open>sz\<close>) bytes, \<open>userdata\<close> the
  NUL-terminated passphrase or NULL; the result is the return value and the buffer.
\<close>

definition size_t_of_int :: "int \<Rightarrow> nat" where
  "size_t_of_int n = nat (n mod 2 ^ 64)"

definition php_quic_passwd_cb :: "string \<Rightarrow> int \<Rightarrow> string option \<Rightarrow> int \<times> string" where
  "php_quic_passwd_cb buf sz userdata =
     (case userdata of
        None \<Rightarrow> (-1, buf)
      | Some u \<Rightarrow>
          let len = strlen u;
              len = (if len > size_t_of_int sz then size_t_of_int sz else len)
          in (int len, take len (c_str u) @ drop len buf))"

text \<open>What the verification callback reads out of its \<open>X509_STORE_CTX\<close>.\<close>

record store_ctx =
  sc_ssl :: "nat option"
  sc_allow_self_signed :: bool \<comment> \<open>the ex_data flag of that \<open>SSL\<close>'s context\<close>
  sc_error :: int

definition X509_V_ERR_DEPTH_ZERO_SELF_SIGNED_CERT :: int where [simp]:
  "X509_V_ERR_DEPTH_ZERO_SELF_SIGNED_CERT = 18"

definition X509_V_ERR_SELF_SIGNED_CERT_IN_CHAIN :: int where [simp]:
  "X509_V_ERR_SELF_SIGNED_CERT_IN_CHAIN = 19"

definition php_quic_verify_cb :: "int \<Rightarrow> store_ctx \<Rightarrow> int" where
  "php_quic_verify_cb preverify_ok store =
     (if preverify_ok \<noteq> 0 then 1
      else if sc_ssl store = None then preverify_ok
      else if sc_allow_self_signed store = False then preverify_ok
      else if sc_error store = X509_V_ERR_DEPTH_ZERO_SELF_SIGNED_CERT
            \<or> sc_error store = X509_V_ERR_SELF_SIGNED_CERT_IN_CHAIN then 1
      else preverify_ok)"

subsection \<open>Reading the options\<close>

definition php_quic_opt_string :: "hashtable option \<Rightarrow> string \<Rightarrow> string option" where
  "php_quic_opt_string opts key =
     (case opts of
        None \<Rightarrow> None
      | Some ht \<Rightarrow>
          (case zend_hash_str_find ht key of
             Some (ZString s) \<Rightarrow> if strlen s \<noteq> length s then None else Some s
           | _ \<Rightarrow> None))"

record php_quic_tls_setup =
  peer_name :: "string option"
  verify_peer :: bool
  verify_peer_name :: bool
  sni_enabled :: bool

record tls_options =
  o_setup :: php_quic_tls_setup
  o_allow_self_signed :: bool
  o_security_level :: "64 word"
  o_verify_depth :: "64 word"

text \<open>A boolean or integer option, with the default when the key is absent.\<close>

definition opt_bool :: "'w env \<Rightarrow> hashtable option \<Rightarrow> string \<Rightarrow> bool \<Rightarrow> bool" where
  "opt_bool E opts key d =
     (case opts of None \<Rightarrow> d
      | Some ht \<Rightarrow> (case zend_hash_str_find ht key of None \<Rightarrow> d | Some v \<Rightarrow> zend_is_true E v))"

definition opt_long :: "'w env \<Rightarrow> hashtable option \<Rightarrow> string \<Rightarrow> 64 word \<Rightarrow> 64 word" where
  "opt_long E opts key d =
     (case opts of None \<Rightarrow> d
      | Some ht \<Rightarrow> (case zend_hash_str_find ht key of None \<Rightarrow> d | Some v \<Rightarrow> zval_get_long E v))"

definition read_tls_options :: "'w env \<Rightarrow> hashtable option \<Rightarrow> bool \<Rightarrow> tls_options" where
  "read_tls_options E opts is_server =
     (let vp = opt_bool E opts ''verify_peer'' (\<not> is_server) in
      \<lparr>o_setup = \<lparr>peer_name = php_quic_opt_string opts ''peer_name'',
         verify_peer = vp,
         verify_peer_name = opt_bool E opts ''verify_peer_name'' vp,
         sni_enabled = opt_bool E opts ''SNI_enabled'' True\<rparr>,
       o_allow_self_signed = opt_bool E opts ''allow_self_signed'' False,
       o_security_level = opt_long E opts ''security_level'' (-1),
       o_verify_depth = opt_long E opts ''verify_depth'' (-1)\<rparr>)"

subsection \<open>The three blocks of \<open>php_quic_configure_ctx\<close>\<close>

definition load_identity ::
  "'w env \<Rightarrow> nat \<Rightarrow> hashtable option \<Rightarrow> bool \<Rightarrow> ('w, unit zend_result) quic" where
  "load_identity E ctx opts is_server =
     (let local_pk = php_quic_opt_string opts ''local_pk'';
          passphrase = php_quic_opt_string opts ''passphrase''
      in case php_quic_opt_string opts ''local_cert'' of
        Some local_cert \<Rightarrow> do {
          let key_file = (case local_pk of Some k \<Rightarrow> k | None \<Rightarrow> local_cert);
          whenM (passphrase \<noteq> None) (do {
            emit E (Ctx (SSL_CTX_set_default_passwd_cb_userdata ctx passphrase));
            emit E (Ctx (SSL_CTX_set_default_passwd_cb ctx True)) });
          r \<leftarrow> ext E (Ctx (SSL_CTX_use_certificate_chain_file ctx local_cert));
          if rc r \<le> 0 then ret (FAILURE (errbuf (''failed to load local_cert '' @ quoted local_cert)))
          else do {
            r \<leftarrow> ext E (Ctx (SSL_CTX_use_PrivateKey_file ctx key_file));
            if rc r \<le> 0 then ret (FAILURE (errbuf (''failed to load local_pk '' @ quoted key_file)))
            else do {
              r \<leftarrow> ext E (Ctx (SSL_CTX_check_private_key ctx));
              if rc r \<le> 0 then ret (FAILURE (errbuf ''local_cert and local_pk do not match''))
              else do {
                whenM (passphrase \<noteq> None) (do {
                  emit E (Ctx (SSL_CTX_set_default_passwd_cb ctx False));
                  emit E (Ctx (SSL_CTX_set_default_passwd_cb_userdata ctx None)) });
                ret (SUCCESS ())
              }
            }
          }
        }
      | None \<Rightarrow>
          ret (if is_server
            then FAILURE (errbuf (''the '' @ quoted ''local_cert'' @ '' option (server certificate path) is required''))
            else SUCCESS ()))"

definition SSL_VERIFY_NONE :: "32 word" where [simp]: "SSL_VERIFY_NONE = 0"
definition SSL_VERIFY_PEER :: "32 word" where [simp]: "SSL_VERIFY_PEER = 1"
definition SSL_VERIFY_FAIL_IF_NO_PEER_CERT :: "32 word" where [simp]:
  "SSL_VERIFY_FAIL_IF_NO_PEER_CERT = 2"

definition verify_mode :: "bool \<Rightarrow> 32 word" where
  "verify_mode is_server =
     (if is_server then or SSL_VERIFY_PEER SSL_VERIFY_FAIL_IF_NO_PEER_CERT else SSL_VERIFY_PEER)"

definition set_peer_verification ::
  "'w env \<Rightarrow> nat \<Rightarrow> hashtable option \<Rightarrow> bool \<Rightarrow> tls_options \<Rightarrow> ('w, unit zend_result) quic" where
  "set_peer_verification E ctx opts is_server opt =
     (let cafile = php_quic_opt_string opts ''cafile'';
          capath = php_quic_opt_string opts ''capath'';
          finish = do {
            whenM (0 \<le> sint (o_verify_depth opt))
              (emit E (Ctx (SSL_CTX_set_verify_depth ctx (c_int (o_verify_depth opt)))));
            ret (SUCCESS ()) }
      in if verify_peer (o_setup opt) then do {
           emit E (Ctx (SSL_CTX_set_ex_data ctx (o_allow_self_signed opt)));
           emit E (Ctx (SSL_CTX_set_verify ctx (verify_mode is_server) True));
           if cafile \<noteq> None \<or> capath \<noteq> None then do {
             r \<leftarrow> ext E (Ctx (SSL_CTX_load_verify_locations ctx cafile capath));
             if rc r \<le> 0 then ret (FAILURE (errbuf ''failed to load CA from cafile/capath''))
             else finish
           } else do {
             whenM (\<not> is_server) (emit E (Ctx (SSL_CTX_set_default_verify_paths ctx)));
             finish
           }
         } else do {
           emit E (Ctx (SSL_CTX_set_verify ctx SSL_VERIFY_NONE False));
           ret (SUCCESS ())
         })"

text \<open>One of the three list options of the tuning block.\<close>

definition set_list_option ::
  "'w env \<Rightarrow> string option \<Rightarrow> (string \<Rightarrow> ctx_call) \<Rightarrow> string \<Rightarrow> ('w, unit zend_result) quic" where
  "set_list_option E value call name =
     (case value of
        None \<Rightarrow> ret (SUCCESS ())
      | Some v \<Rightarrow> do {
          r \<leftarrow> ext E (Ctx (call v));
          ret (if rc r = 0 then FAILURE (errbuf (''invalid '' @ name @ '' '' @ quoted v)) else SUCCESS ())
        })"

definition set_tls_tuning ::
  "'w env \<Rightarrow> nat \<Rightarrow> hashtable option \<Rightarrow> tls_options \<Rightarrow> ('w, unit zend_result) quic" where
  "set_tls_tuning E ctx opts opt =
     and_then (set_list_option E (php_quic_opt_string opts ''ciphersuites'')
        (SSL_CTX_set_ciphersuites ctx) ''ciphersuites'') (\<lambda>_.
     and_then (set_list_option E (php_quic_opt_string opts ''groups'')
        (SSL_CTX_set1_groups_list ctx) ''groups'') (\<lambda>_.
     and_then (set_list_option E (php_quic_opt_string opts ''sigalgs'')
        (SSL_CTX_set1_sigalgs_list ctx) ''sigalgs'') (\<lambda>_. do {
       whenM (0 \<le> sint (o_security_level opt))
         (emit E (Ctx (SSL_CTX_set_security_level ctx (c_int (o_security_level opt)))));
       ret (SUCCESS ())
     })))"

definition php_quic_configure_ctx ::
  "'w env \<Rightarrow> nat \<Rightarrow> hashtable option \<Rightarrow> bool \<Rightarrow> ('w, php_quic_tls_setup zend_result) quic" where
  "php_quic_configure_ctx E ctx opts is_server =
     (let opt = read_tls_options E opts is_server in
      and_then (load_identity E ctx opts is_server) (\<lambda>_.
      and_then (set_peer_verification E ctx opts is_server opt) (\<lambda>_.
      and_then (set_tls_tuning E ctx opts opt) (\<lambda>_.
      ret (SUCCESS (o_setup opt))))))"

subsection \<open>Ownership\<close>

lemma owns_load_identity [own_specs]:
  "keeps {#RCtx ctx#} (load_identity E ctx opts is_server)"
  unfolding load_identity_def Let_def by (auto intro!: own_rules owns_ret)

lemma owns_set_peer_verification [own_specs]:
  "keeps {#RCtx ctx#} (set_peer_verification E ctx opts is_server opt)"
  unfolding set_peer_verification_def Let_def by (auto intro!: own_rules owns_ret)

lemma owns_set_list_option [own_specs]:
  "(\<And>v. ctx_uses (call v) = [RCtx ctx]) \<Longrightarrow> (\<And>v. ctx_rels (call v) = {#}) \<Longrightarrow>
   (\<And>v r. ctx_acqs (call v) r = {#}) \<Longrightarrow> keeps {#RCtx ctx#} (set_list_option E value call name)"
  unfolding set_list_option_def by (auto intro!: own_rules owns_ret)

lemma owns_set_tls_tuning [own_specs]:
  "keeps {#RCtx ctx#} (set_tls_tuning E ctx opts opt)"
  unfolding set_tls_tuning_def
  by (auto intro!: owns_and_then own_specs own_rules owns_ret)

lemma owns_configure_ctx [own_specs]:
  "keeps {#RCtx ctx#} (php_quic_configure_ctx E ctx opts is_server)"
  unfolding php_quic_configure_ctx_def Let_def
  by (intro owns_and_then own_specs owns_ret) auto

subsection \<open>What a successful configuration leaves in the context\<close>

definition sel_verify :: "nat \<Rightarrow> call \<Rightarrow> (32 word \<times> bool) option" where
  "sel_verify ctx c =
     (case c of Ctx (SSL_CTX_set_verify x mode cb) \<Rightarrow> if x = ctx then Some (mode, cb) else None
      | _ \<Rightarrow> None)"

definition sel_passwd :: "nat \<Rightarrow> call \<Rightarrow> string option option" where
  "sel_passwd ctx c =
     (case c of Ctx (SSL_CTX_set_default_passwd_cb_userdata x p) \<Rightarrow> if x = ctx then Some p else None
      | _ \<Rightarrow> None)"

definition sel_level :: "nat \<Rightarrow> call \<Rightarrow> 32 word option" where
  "sel_level ctx c =
     (case c of Ctx (SSL_CTX_set_security_level x l) \<Rightarrow> if x = ctx then Some l else None
      | _ \<Rightarrow> None)"

text \<open>What concerns the local identity.\<close>

datatype identity_op = Userdata "string option" | Callback bool | Load_cert string | Load_key string | Check_key

definition sel_identity :: "nat \<Rightarrow> call \<Rightarrow> identity_op option" where
  "sel_identity ctx c =
     (case c of
        Ctx (SSL_CTX_set_default_passwd_cb_userdata x p) \<Rightarrow> if x = ctx then Some (Userdata p) else None
      | Ctx (SSL_CTX_set_default_passwd_cb x b) \<Rightarrow> if x = ctx then Some (Callback b) else None
      | Ctx (SSL_CTX_use_certificate_chain_file x f) \<Rightarrow> if x = ctx then Some (Load_cert f) else None
      | Ctx (SSL_CTX_use_PrivateKey_file x f) \<Rightarrow> if x = ctx then Some (Load_key f) else None
      | Ctx (SSL_CTX_check_private_key x) \<Rightarrow> if x = ctx then Some Check_key else None
      | _ \<Rightarrow> None)"

lemmas sel_defs = sel_verify_def sel_passwd_def sel_level_def sel_identity_def

text \<open>A passphrase is still reachable from the context.\<close>

definition passphrase_held :: "nat \<Rightarrow> (call \<times> reply) list \<Rightarrow> bool" where
  "passphrase_held ctx tr =
     (case last_setting (sel_passwd ctx) tr of Some (Some _) \<Rightarrow> True | _ \<Rightarrow> False)"

text \<open>Each block touches its own settings only.\<close>

lemma identity_keeps:
  "makes (\<lambda>c. sel_verify ctx c = None \<and> sel_level ctx c = None) (load_identity E ctx opts srv)"
  unfolding load_identity_def Let_def by (auto intro!: makes_rules simp: sel_defs)

lemma verification_keeps:
  "makes (\<lambda>c. sel_passwd ctx c = None \<and> sel_level ctx c = None \<and> sel_identity ctx c = None)
    (set_peer_verification E ctx opts srv opt)"
  unfolding set_peer_verification_def Let_def by (auto intro!: makes_rules simp: sel_defs)

lemma tuning_keeps:
  "makes (\<lambda>c. sel_passwd ctx c = None \<and> sel_verify ctx c = None \<and> sel_identity ctx c = None)
    (set_tls_tuning E ctx opts opt)"
  unfolding set_tls_tuning_def set_list_option_def by (auto intro!: makes_rules simp: sel_defs)

lemma makes_mono: "makes p m \<Longrightarrow> (\<And>c. p c \<Longrightarrow> q c) \<Longrightarrow> makes q m"
  unfolding makes_def list_all_iff by blast

lemma setting_kept:
  assumes "makes p m" and "\<And>c. p c \<Longrightarrow> sel c = None" and "run_state m w = (a, w')"
  shows "last_setting sel (trace w') = last_setting sel (trace w)"
  using last_setting_unchanged [OF makes_mono [OF assms(1,2)] assms(3)] .

text \<open>
  The calls of a successful configuration on the identity of \<open>ctx\<close>, the last one first: the
  passphrase is given and taken back around the certificate, the key and the check that they match.
\<close>

definition identity_ops :: "hashtable option \<Rightarrow> identity_op list" where
  "identity_ops opts =
     (case php_quic_opt_string opts ''local_cert'' of
        None \<Rightarrow> []
      | Some cert \<Rightarrow>
          let key = (case php_quic_opt_string opts ''local_pk'' of None \<Rightarrow> cert | Some k \<Rightarrow> k)
          in case php_quic_opt_string opts ''passphrase'' of
               None \<Rightarrow> [Check_key, Load_key key, Load_cert cert]
             | Some p \<Rightarrow> [Userdata None, Callback False, Check_key, Load_key key, Load_cert cert,
                 Callback True, Userdata (Some p)])"

text \<open>The three that can fail return a positive number on success.\<close>

fun succeeded :: "identity_op \<times> reply \<Rightarrow> bool" where
  "succeeded (Load_cert _, r) \<longleftrightarrow> 0 < rc r"
| "succeeded (Load_key _, r) \<longleftrightarrow> 0 < rc r"
| "succeeded (Check_key, r) \<longleftrightarrow> 0 < rc r"
| "succeeded _ \<longleftrightarrow> True"

lemma identity_Inr:
  assumes "run_state (load_identity E ctx opts srv) w = (Inr u, w')"
  shows "passphrase_held ctx (trace w') \<longrightarrow> passphrase_held ctx (trace w)"
    and "\<exists>h. history (sel_identity ctx) (trace w') = h @ history (sel_identity ctx) (trace w) \<and>
      map fst h = identity_ops opts \<and> list_all succeeded h"
    and "srv \<Longrightarrow> php_quic_opt_string opts ''local_cert'' \<noteq> None"
  using assms
  by (auto simp: load_identity_def identity_ops_def Let_def passphrase_held_def sel_defs
      split: option.splits if_splits prod.splits)

lemma verification_Inr:
  assumes "run_state (set_peer_verification E ctx opts srv opt) w = (Inr u, w')"
  shows "last_setting (sel_verify ctx) (trace w') =
     Some (if verify_peer (o_setup opt) then (verify_mode srv, True) else (SSL_VERIFY_NONE, False))"
  using assms
  by (auto simp: set_peer_verification_def Let_def sel_defs split: if_splits prod.splits)

lemma tuning_Inr:
  assumes "run_state (set_tls_tuning E ctx opts opt) w = (Inr u, w')"
    and "0 \<le> sint (o_security_level opt)"
  shows "last_setting (sel_level ctx) (trace w') = Some (c_int (o_security_level opt))"
  using assms unfolding set_tls_tuning_def
  by (auto elim!: and_then_Inr simp: sel_defs split: if_splits)

text \<open>The runs of the three blocks behind a successful configuration.\<close>

lemma configure_ctx_Inr:
  assumes "run_state (php_quic_configure_ctx E ctx opts srv) w = (Inr s, w')"
  obtains w1 w2 where
    "run_state (load_identity E ctx opts srv) w = (Inr (), w1)"
    "run_state (set_peer_verification E ctx opts srv (read_tls_options E opts srv)) w1 = (Inr (), w2)"
    "run_state (set_tls_tuning E ctx opts (read_tls_options E opts srv)) w2 = (Inr (), w')"
    "s = o_setup (read_tls_options E opts srv)"
  using assms unfolding php_quic_configure_ctx_def Let_def
  by (auto elim!: and_then_Inr)

lemma configured_verify:
  assumes "run_state (php_quic_configure_ctx E ctx opts srv) w = (Inr s, w')"
  shows "last_setting (sel_verify ctx) (trace w') =
     Some (if verify_peer s then (verify_mode srv, True) else (SSL_VERIFY_NONE, False))"
  using assms
proof (rule configure_ctx_Inr)
  fix w1 w2
  let ?opt = "read_tls_options E opts srv"
  assume 2: "run_state (set_peer_verification E ctx opts srv ?opt) w1 = (Inr (), w2)"
    and 3: "run_state (set_tls_tuning E ctx opts ?opt) w2 = (Inr (), w')"
    and s: "s = o_setup ?opt"
  have "last_setting (sel_verify ctx) (trace w') = last_setting (sel_verify ctx) (trace w2)"
    by (rule setting_kept [OF tuning_keeps _ 3]) simp
  with verification_Inr [OF 2] s show ?thesis by simp
qed

lemma configured_identity:
  assumes "run_state (php_quic_configure_ctx E ctx opts srv) w = (Inr s, w')"
  shows "passphrase_held ctx (trace w') \<longrightarrow> passphrase_held ctx (trace w)"
    and "\<exists>h. history (sel_identity ctx) (trace w') = h @ history (sel_identity ctx) (trace w) \<and>
      map fst h = identity_ops opts \<and> list_all succeeded h"
    and "srv \<Longrightarrow> php_quic_opt_string opts ''local_cert'' \<noteq> None"
proof -
  obtain w1 w2 where
    1: "run_state (load_identity E ctx opts srv) w = (Inr (), w1)"
    and 2: "run_state (set_peer_verification E ctx opts srv (read_tls_options E opts srv)) w1 = (Inr (), w2)"
    and 3: "run_state (set_tls_tuning E ctx opts (read_tls_options E opts srv)) w2 = (Inr (), w')"
    using configure_ctx_Inr [OF assms] by metis
  have "history (sel_identity ctx) (trace w') = history (sel_identity ctx) (trace w1)"
    using history_kept [OF verification_keeps _ 2, of "sel_identity ctx"]
      history_kept [OF tuning_keeps _ 3, of "sel_identity ctx"] by simp
  then show "\<exists>h. history (sel_identity ctx) (trace w') = h @ history (sel_identity ctx) (trace w) \<and>
      map fst h = identity_ops opts \<and> list_all succeeded h"
    using identity_Inr(2) [OF 1] by simp
  have "last_setting (sel_passwd ctx) (trace w') = last_setting (sel_passwd ctx) (trace w1)"
    using setting_kept [OF verification_keeps _ 2, of "sel_passwd ctx"]
      setting_kept [OF tuning_keeps _ 3, of "sel_passwd ctx"] by simp
  then have held: "passphrase_held ctx (trace w') = passphrase_held ctx (trace w1)"
    by (simp add: passphrase_held_def)
  show "passphrase_held ctx (trace w') \<longrightarrow> passphrase_held ctx (trace w)"
    using identity_Inr(1) [OF 1] held by simp
  show "php_quic_opt_string opts ''local_cert'' \<noteq> None" if srv
    using identity_Inr(3) [OF 1 that] .
qed

lemma configured_level:
  assumes "run_state (php_quic_configure_ctx E ctx opts srv) w = (Inr s, w')"
    and "0 \<le> sint (o_security_level (read_tls_options E opts srv))"
  shows "last_setting (sel_level ctx) (trace w') =
     Some (c_int (o_security_level (read_tls_options E opts srv)))"
  using assms(1) by (rule configure_ctx_Inr) (rule tuning_Inr [OF _ assms(2)])

subsection \<open>What the configuration guarantees\<close>

text \<open>
  C39. The passphrase callback stays inside the buffer it is given: it returns \<open>-1\<close> without a
  passphrase, and otherwise the length of the passphrase cut to the buffer, which it has copied
  to the front of the buffer, leaving the rest and the length of the buffer as they were.
\<close>

theorem passwd_cb_bounded:
  assumes "int (length buf) = sz" and "sz < 2 ^ 31"
  shows "length (snd (php_quic_passwd_cb buf sz userdata)) = length buf \<and>
    (case userdata of
       None \<Rightarrow> fst (php_quic_passwd_cb buf sz userdata) = -1
     | Some u \<Rightarrow> fst (php_quic_passwd_cb buf sz userdata) = min sz (int (strlen u)) \<and>
         take (nat (min sz (int (strlen u)))) (snd (php_quic_passwd_cb buf sz userdata)) =
           take (nat sz) (c_str u))"
  using assms
  by (auto simp: php_quic_passwd_cb_def size_t_of_int_def Let_def strlen_def min_def
      split: option.split)

lemma passwd_cb_bounded_witness:
  "length (snd (php_quic_passwd_cb ''....'' 4 (Some ''secret''))) = 4 \<and>
   fst (php_quic_passwd_cb ''....'' 4 (Some ''secret'')) = 4"
  using passwd_cb_bounded [of "''....''" 4 "Some ''secret''"]
  by (simp add: strlen_def c_str_def NUL_def)

text \<open>
  The verification callback never turns an accepted certificate down, and it overrules a
  refusal in one case only: \<open>allow_self_signed\<close> is set on the connection's context and the error
  is one of the two for self-signed certificates.
\<close>

lemma verify_cb_overrules:
  "(if ok \<noteq> 0 then php_quic_verify_cb ok store = 1
    else php_quic_verify_cb ok store = (if sc_ssl store \<noteq> None \<and> sc_allow_self_signed store \<and>
      sc_error store \<in> {X509_V_ERR_DEPTH_ZERO_SELF_SIGNED_CERT, X509_V_ERR_SELF_SIGNED_CERT_IN_CHAIN}
      then 1 else 0))"
  by (auto simp: php_quic_verify_cb_def)

text \<open>
  C25. A successful configuration has decided how the peer is verified: the last verification
  mode of the context is \<open>SSL_VERIFY_PEER\<close> with the extension's callback (for a server also
  \<open>SSL_VERIFY_FAIL_IF_NO_PEER_CERT\<close>) when \<open>verify_peer\<close> holds, by default for a client and not for
  a server, and \<open>SSL_VERIFY_NONE\<close> otherwise.
\<close>

theorem configured_verification:
  assumes "run_state (php_quic_configure_ctx E ctx opts is_server) w = (SUCCESS s, w')"
  shows "last_setting (sel_verify ctx) (trace w') =
      Some (if verify_peer s
        then (if is_server then or SSL_VERIFY_PEER SSL_VERIFY_FAIL_IF_NO_PEER_CERT else SSL_VERIFY_PEER, True)
        else (SSL_VERIFY_NONE, False)) \<and>
    verify_peer s = opt_bool E opts ''verify_peer'' (\<not> is_server)"
proof -
  have "s = o_setup (read_tls_options E opts is_server)"
    using configure_ctx_Inr [OF assms] by metis
  then have "verify_peer s = opt_bool E opts ''verify_peer'' (\<not> is_server)"
    by (simp add: read_tls_options_def Let_def)
  with configured_verify [OF assms, unfolded verify_mode_def] show ?thesis by blast
qed

text \<open>For the witnesses: a configuration in which every call succeeds.\<close>

definition yes_env :: "unit env" where
  "yes_env = answering (\<lambda>u c. (no_reply\<lparr>rc := 1\<rparr>, u))"

definition tls_example :: "hashtable option" where
  "tls_example = Some [(KStr ''local_cert'', ZString ''c.pem''), (KStr ''passphrase'', ZString ''pw''),
     (KStr ''security_level'', ZLong 2)]"

lemma yes_configures:
  obtains s w' where "run_state (php_quic_configure_ctx yes_env 1 tls_example True)
    \<lparr>engine = (), trace = []\<rparr> = (SUCCESS s, w')"
  by (simp add: php_quic_configure_ctx_def and_then_def load_identity_def set_peer_verification_def
      Let_def set_tls_tuning_def set_list_option_def strlen_def c_str_def php_quic_opt_string_def
      zend_hash_str_find_def read_tls_options_def opt_bool_def opt_long_def NUL_def yes_env_def
      tls_example_def)

lemma configured_verification_witness:
  "\<exists>s w'. run_state (php_quic_configure_ctx yes_env 1 tls_example True) \<lparr>engine = (), trace = []\<rparr> =
      (SUCCESS s, w') \<and> last_setting (sel_verify 1) (trace w') = Some (SSL_VERIFY_NONE, False)"
proof (rule yes_configures)
  fix s w'
  assume r: "run_state (php_quic_configure_ctx yes_env 1 tls_example True)
    \<lparr>engine = (), trace = []\<rparr> = (SUCCESS s, w')"
  show ?thesis
    using configured_verification [OF r] r
    by (simp add: opt_bool_def tls_example_def zend_hash_str_find_def)
qed

text \<open>
  C26. A successful configuration has loaded the identity it was asked for: the calls it made on the
  context's identity are those of loading \<open>local_cert\<close>, then the key of \<open>local_pk\<close> (or of the
  certificate file), then checking that they match, each of which has succeeded, with the passphrase
  given before and taken back after; the context does not refer to the passphrase any more, whose
  string PHP may free; and a server never goes without a certificate.
\<close>

theorem configured_identity_loaded:
  assumes "run_state (php_quic_configure_ctx E ctx opts is_server) w = (SUCCESS s, w')"
    and "\<not> passphrase_held ctx (trace w)"
  shows "(\<exists>h. history (sel_identity ctx) (trace w') = h @ history (sel_identity ctx) (trace w) \<and>
      map fst h = identity_ops opts \<and> list_all succeeded h) \<and>
    \<not> passphrase_held ctx (trace w') \<and>
    (is_server \<longrightarrow> php_quic_opt_string opts ''local_cert'' \<noteq> None)"
  using configured_identity [OF assms(1)] assms(2) by blast

lemma configured_identity_loaded_witness:
  "\<exists>s w' h. run_state (php_quic_configure_ctx yes_env 1 tls_example True) \<lparr>engine = (), trace = []\<rparr> =
      (SUCCESS s, w') \<and> \<not> passphrase_held 1 (trace w') \<and>
    history (sel_identity 1) (trace w') = h \<and> list_all succeeded h \<and>
    map fst h = [Userdata None, Callback False, Check_key, Load_key ''c.pem'', Load_cert ''c.pem'',
      Callback True, Userdata (Some ''pw'')]"
proof (rule yes_configures)
  fix s w'
  assume r: "run_state (php_quic_configure_ctx yes_env 1 tls_example True)
    \<lparr>engine = (), trace = []\<rparr> = (SUCCESS s, w')"
  have "identity_ops tls_example = [Userdata None, Callback False, Check_key, Load_key ''c.pem'',
      Load_cert ''c.pem'', Callback True, Userdata (Some ''pw'')]"
    by (simp add: identity_ops_def php_quic_opt_string_def tls_example_def zend_hash_str_find_def
        strlen_def c_str_def NUL_def)
  then show ?thesis
    using configured_identity_loaded [OF r] r by (auto simp: passphrase_held_def)
qed

text \<open>
  C38. The security level asked for is the one in force, as far as it fits an \<open>int\<close>: after a
  successful configuration a level from 0 to \<open>INT_MAX\<close> is the last one set on the context.
\<close>

theorem configured_security_level:
  assumes "run_state (php_quic_configure_ctx E ctx opts is_server) w = (SUCCESS s, w')"
    and "0 \<le> sint (opt_long E opts ''security_level'' (-1))"
    and "sint (opt_long E opts ''security_level'' (-1)) \<le> INT_MAX"
  shows "\<exists>l. last_setting (sel_level ctx) (trace w') = Some l \<and>
    sint l = sint (opt_long E opts ''security_level'' (-1))"
proof -
  have "o_security_level (read_tls_options E opts is_server) = opt_long E opts ''security_level'' (-1)"
    by (simp add: read_tls_options_def Let_def)
  with configured_level [OF assms(1)] assms(2,3) show ?thesis
    by (simp add: sint_c_int INT_MAX_def)
qed

lemma configured_security_level_witness:
  "\<exists>s w' l. run_state (php_quic_configure_ctx yes_env 1 tls_example True) \<lparr>engine = (), trace = []\<rparr> =
      (SUCCESS s, w') \<and> last_setting (sel_level 1) (trace w') = Some l \<and> sint l = 2"
proof (rule yes_configures)
  fix s w'
  assume r: "run_state (php_quic_configure_ctx yes_env 1 tls_example True)
    \<lparr>engine = (), trace = []\<rparr> = (SUCCESS s, w')"
  have "opt_long yes_env tls_example ''security_level'' (-1) = 2"
    by (simp add: opt_long_def tls_example_def zend_hash_str_find_def yes_env_def)
  then show ?thesis
    using configured_security_level [OF r] r by (simp add: INT_MAX_def)
qed

text \<open>Beyond \<open>INT_MAX\<close> the conversion to \<open>int\<close> wraps: level \<open>2 ^ 32\<close> sets level 0.\<close>

lemma security_level_wraps: "c_int 0x100000000 = 0"
  by (simp add: c_int_def)

end
