(* ===== verification/Quic_Udp.thy ===== *)
theory Quic_Udp
  imports Quic_Effects
begin

text \<open>
  UDP sockets, \<open>src/src/quic_util.c\<close>: \<open>php_quic_udp_client\<close> and \<open>php_quic_udp_server\<close>, their
  loops over the resolver's address list included.  \<open>Inl\<close> stands for the return value \<open>-1\<close>
  with a message in \<open>errbuf\<close>.
\<close>

subsection \<open>Client sockets\<close>

text \<open>The loop: the first address that can be connected and made non-blocking wins.\<close>

fun client_loop :: "'w env \<Rightarrow> (int \<times> nat) list \<Rightarrow> ('w, (int \<times> nat) option) quic" where
  "client_loop E [] = ret None"
| "client_loop E ((family, address) # ai) = do {
     r \<leftarrow> ext E (Net (BIO_socket family));
     let sock = rc r;
     if sock = -1 then client_loop E ai
     else do {
       r \<leftarrow> ext E (Net (BIO_connect sock address));
       if rc r = 0 then do {
         emit E (Net (BIO_closesocket sock));
         client_loop E ai
       } else do {
         r \<leftarrow> ext E (Net (BIO_socket_nbio sock));
         if rc r = 0 then do {
           emit E (Net (BIO_closesocket sock));
           client_loop E ai
         } else ret (Some (sock, address))
       }
     }
   }"

definition php_quic_udp_client ::
  "'w env \<Rightarrow> string \<Rightarrow> string \<Rightarrow> ('w, (int \<times> nat) zend_result) quic" where
  "php_quic_udp_client E host port = do {
     r \<leftarrow> ext E (Net (BIO_lookup_ex (Some host) port False));
     if rc r = 0 then ret (FAILURE (errbuf (''failed to resolve '' @ host @ '':'' @ port)))
     else do {
       let res = hnd r;
       found \<leftarrow> client_loop E (addrs r);
       result \<leftarrow> (case found of
           Some (sock, address) \<Rightarrow> do {
             d \<leftarrow> ext E (Net (BIO_ADDR_dup address));
             case ptr d of
               None \<Rightarrow> do {
                 emit E (Net (BIO_closesocket sock));
                 ret (FAILURE (errbuf ''out of memory duplicating peer address''))
               }
             | Some peer \<Rightarrow> ret (SUCCESS (sock, peer))
           }
         | None \<Rightarrow> ret (FAILURE (errbuf (''failed to create UDP socket to '' @ host @ '':'' @ port))));
       emit E (Net (BIO_ADDRINFO_free res));
       ret result
     }
   }"

subsection \<open>Server sockets\<close>

text \<open>
  The loop yields the socket (\<open>-1\<close> for none) and what \<open>errbuf\<close> holds then; without
  \<open>SO_REUSEPORT\<close> a request for it ends the loop.
\<close>

fun server_loop :: "'w env \<Rightarrow> bool \<Rightarrow> (int \<times> nat) list \<Rightarrow> string \<Rightarrow> ('w, int \<times> string) quic" where
  "server_loop E reuse_port [] err = ret (-1, err)"
| "server_loop E reuse_port ((family, address) # ai) err = do {
     r \<leftarrow> ext E (Net (BIO_socket family));
     let sock = rc r;
     let bind_it = do {
       r \<leftarrow> ext E (Net (BIO_bind sock address));
       if rc r = 0 then do {
         emit E (Net (BIO_closesocket sock));
         server_loop E reuse_port ai err
       } else do {
         r \<leftarrow> ext E (Net (BIO_socket_nbio sock));
         if rc r = 0 then do {
           emit E (Net (BIO_closesocket sock));
           server_loop E reuse_port ai err
         } else ret (sock, err)
       }
     };
     if sock = -1 then server_loop E reuse_port ai err
     else if reuse_port then
       (if HAVE_SO_REUSEPORT E then do {
          r \<leftarrow> ext E (Net (setsockopt_reuseport sock));
          if rc r \<noteq> 0 then do {
            emit E (Net (BIO_closesocket sock));
            server_loop E reuse_port ai (errbuf ''failed to set SO_REUSEPORT'')
          } else bind_it
        } else do {
          emit E (Net (BIO_closesocket sock));
          ret (-1, errbuf ''reuse_port is not supported on this platform'')
        })
     else bind_it
   }"

definition shown_host :: "string option \<Rightarrow> string" where
  "shown_host host = (case host of None \<Rightarrow> ''*'' | Some h \<Rightarrow> h)"

definition php_quic_udp_server ::
  "'w env \<Rightarrow> string \<Rightarrow> string \<Rightarrow> bool \<Rightarrow> ('w, int zend_result) quic" where
  "php_quic_udp_server E host port reuse_port = do {
     let host = (if c_str host = [] then None else Some host);
     r \<leftarrow> ext E (Net (BIO_lookup_ex host port True));
     if rc r = 0 then
       ret (FAILURE (errbuf (''failed to resolve bind address '' @ shown_host host @ '':'' @ port)))
     else do {
       let res = hnd r;
       (sock, err) \<leftarrow> server_loop E reuse_port (addrs r) [];
       let err = (if sock = -1
         then errbuf (''failed to bind UDP socket on '' @ shown_host host @ '':'' @ port) else err);
       emit E (Net (BIO_ADDRINFO_free res));
       ret (if sock = -1 then FAILURE err else SUCCESS sock)
     }
   }"

subsection \<open>Ownership\<close>

definition res_client :: "(int \<times> nat) zend_result \<Rightarrow> res multiset" where
  "res_client r = (case r of Inl _ \<Rightarrow> {#} | Inr (fd, peer) \<Rightarrow> {#RFd fd, RAddr peer#})"

definition res_server :: "int zend_result \<Rightarrow> res multiset" where
  "res_server r = (case r of Inl _ \<Rightarrow> {#} | Inr fd \<Rightarrow> {#RFd fd#})"

lemma res_udp_simps [simp]:
  "res_client (Inl e) = {#}" "res_client (Inr (fd, peer)) = {#RFd fd, RAddr peer#}"
  "res_server (Inl e) = {#}" "res_server (Inr fd) = {#RFd fd#}"
  by (simp_all add: res_client_def res_server_def)

lemma owns_client_loop:
  "owns {#} (client_loop E ai) (\<lambda>x. case x of None \<Rightarrow> {#} | Some (sock, _) \<Rightarrow> {#RFd sock#})"
  by (induction ai) (auto simp: Let_def intro!: own_rules owns_ret)

lemma yields_client_loop: "yields (\<lambda>x. \<forall>sock a. x = Some (sock, a) \<longrightarrow> sock \<noteq> -1) (client_loop E ai)"
  by (induction ai) (auto simp: Let_def intro!: yields_rules)

lemma owns_server_loop: "owns {#} (server_loop E reuse_port ai err) (\<lambda>x. fd_res (fst x))"
  by (induction ai arbitrary: err) (auto simp: Let_def intro!: own_rules owns_ret)

lemma owns_udp_client [own_specs]: "owns {#} (php_quic_udp_client E host port) res_client"
proof -
  have result: "owns {#RAddrInfo a#} (client_loop E ai \<bind> (\<lambda>found. (case found of
           Some (sock, address) \<Rightarrow> do {
             d \<leftarrow> ext E (Net (BIO_ADDR_dup address));
             case ptr d of
               None \<Rightarrow> do {
                 emit E (Net (BIO_closesocket sock));
                 ret (FAILURE e1)
               }
             | Some peer \<Rightarrow> ret (SUCCESS (sock, peer))
           }
         | None \<Rightarrow> ret (FAILURE e2)) \<bind> (\<lambda>result. emit E (Net (BIO_ADDRINFO_free a)) \<bind> (\<lambda>_. ret result))))
     res_client" for a ai e1 e2
    by (rule owns_call [OF owns_client_loop])
      (auto intro!: own_rules owns_ret split: option.splits)
  show ?thesis
    unfolding php_quic_udp_client_def Let_def
    by (rule owns_bind_ext; simp) (auto intro!: owns_if owns_ret result)
qed

lemma yields_udp_client:
  "yields (\<lambda>x. \<forall>fd p. x = Inr (fd, p) \<longrightarrow> fd \<noteq> -1) (php_quic_udp_client E host port)"
  unfolding php_quic_udp_client_def Let_def
  by (rule yields_bind, rule yields_if, simp add: yields_ret)
    (rule yields_call [OF yields_client_loop],
     auto intro!: yields_rules simp: yields_def split: option.splits prod.splits)

lemma owns_udp_server [own_specs]:
  "owns {#} (php_quic_udp_server E host port reuse_port) res_server"
proof -
  have result: "owns {#RAddrInfo a#} (server_loop E reuse_port ai [] \<bind> (\<lambda>(sock, err).
      emit E (Net (BIO_ADDRINFO_free a)) \<bind> (\<lambda>_.
      ret (if sock = -1 then FAILURE (f sock err) else SUCCESS sock)))) res_server" for a ai f
    by (rule owns_call [OF owns_server_loop]) (auto intro!: own_rules owns_ret)
  show ?thesis
    unfolding php_quic_udp_server_def Let_def
    by (rule owns_bind_ext; simp) (auto intro!: owns_if owns_ret result)
qed

lemma yields_udp_server:
  "yields (\<lambda>x. \<forall>fd. x = Inr fd \<longrightarrow> fd \<noteq> -1) (php_quic_udp_server E host port reuse_port)"
  unfolding php_quic_udp_server_def Let_def
  by (auto intro!: yields_rules split: if_splits)

text \<open>Every failure message of the server socket: what the loop put in \<open>errbuf\<close> is overwritten.\<close>

lemma udp_server_message:
  assumes "run_state (php_quic_udp_server E host port reuse_port) w = (Inl e, w')"
  defines "h \<equiv> shown_host (if c_str host = [] then None else Some host)"
  shows "e = errbuf (''failed to resolve bind address '' @ h @ '':'' @ port) \<or>
    e = errbuf (''failed to bind UDP socket on '' @ h @ '':'' @ port)"
proof -
  have "yields (\<lambda>x. \<forall>e. x = Inl e \<longrightarrow>
      e = errbuf (''failed to resolve bind address '' @ h @ '':'' @ port) \<or>
      e = errbuf (''failed to bind UDP socket on '' @ h @ '':'' @ port))
    (php_quic_udp_server E host port reuse_port)"
    unfolding php_quic_udp_server_def Let_def h_def
    by (auto intro!: yields_rules split: if_splits)
  with assms(1) show ?thesis by (auto dest: yieldsD)
qed

subsection \<open>What the socket helpers guarantee\<close>

text \<open>
  C32. Opening a client socket leaks nothing: however many addresses are tried and whichever call
  fails, each socket that is not returned is closed and the resolver's list is freed; on success
  the caller owns one socket, never \<open>-1\<close>, and one copy of the peer's address.
\<close>

theorem udp_client_balanced:
  "owns {#} (php_quic_udp_client E host port) res_client \<and>
   yields (\<lambda>x. case x of Inl e \<Rightarrow> length e \<le> 255 | Inr (fd, peer) \<Rightarrow> fd \<noteq> -1)
     (php_quic_udp_client E host port)"
proof -
  have "yields (\<lambda>x. \<forall>e. x = Inl e \<longrightarrow> length e \<le> 255) (php_quic_udp_client E host port)"
    unfolding php_quic_udp_client_def Let_def
    by (rule yields_bind, rule yields_if, simp add: yields_ret length_errbuf, rule yields_bind,
        rule yields_call [where V = "\<lambda>x. \<forall>e. x = Inl e \<longrightarrow> length e \<le> 255"])
      (auto intro!: yields_rules simp: length_errbuf)
  then show ?thesis
    using yields_udp_client [of E host port] owns_udp_client [of E host port]
    by (auto simp: yields_def split: sum.split)
qed

text \<open>
  C33. Binding a server socket leaks nothing: each socket that could not be configured or bound is
  closed, the resolver's list is freed, and on success the caller owns one socket, never \<open>-1\<close>.
\<close>

theorem udp_server_balanced:
  "owns {#} (php_quic_udp_server E host port reuse_port) res_server \<and>
   yields (\<lambda>x. case x of Inl e \<Rightarrow> length e \<le> 255 | Inr fd \<Rightarrow> fd \<noteq> -1)
     (php_quic_udp_server E host port reuse_port)"
proof -
  have "yields (\<lambda>x. \<forall>e. x = Inl e \<longrightarrow> length e \<le> 255) (php_quic_udp_server E host port reuse_port)"
    unfolding php_quic_udp_server_def Let_def
    by (auto intro!: yields_rules simp: length_errbuf split: if_splits)
  then show ?thesis
    using yields_udp_server [of E host port reuse_port] owns_udp_server [of E host port reuse_port]
    by (auto simp: yields_def split: sum.split)
qed

text \<open>
  C40. The reason a server socket could not be set up is lost: whatever failed, the message is the
  resolver's or the generic one for binding; the ones written when \<open>SO_REUSEPORT\<close> fails or is not
  supported never reach the caller.
\<close>

theorem udp_server_message_generic:
  assumes "run_state (php_quic_udp_server E host port reuse_port) w = (FAILURE e, w')"
  shows "e \<in> {errbuf (''failed to resolve bind address '' @
        shown_host (if c_str host = [] then None else Some host) @ '':'' @ port),
      errbuf (''failed to bind UDP socket on '' @
        shown_host (if c_str host = [] then None else Some host) @ '':'' @ port)}"
  using udp_server_message [OF assms] by simp

lemma udp_server_message_generic_witness:
  "fst (run_state (php_quic_udp_server (answering (\<lambda>u c. (no_reply\<lparr>rc := 1, addrs := [(2, 5)]\<rparr>, u)))
     ''h'' ''443'' True) \<lparr>engine = (), trace = []\<rparr>) = FAILURE ''failed to bind UDP socket on h:443''"
proof -
  let ?E = "answering (\<lambda>u c. (no_reply\<lparr>rc := 1, addrs := [(2, 5)]\<rparr>, u))"
  have "\<exists>e w'. run_state (php_quic_udp_server ?E ''h'' ''443'' True) \<lparr>engine = (), trace = []\<rparr>
      = (FAILURE e, w') \<and> e \<noteq> errbuf ''failed to resolve bind address h:443''"
    by (simp add: php_quic_udp_server_def Let_def errbuf_def snprintf_def)
  then obtain e w' where r: "run_state (php_quic_udp_server ?E ''h'' ''443'' True)
      \<lparr>engine = (), trace = []\<rparr> = (FAILURE e, w')"
    and "e \<noteq> errbuf ''failed to resolve bind address h:443''" by blast
  with udp_server_message_generic [OF r]
  have "e = errbuf ''failed to bind UDP socket on h:443''"
    by (simp add: c_str_def NUL_def shown_host_def)
  with r show ?thesis by (simp add: errbuf_def snprintf_def)
qed

end
