(* ===== verification/Quic_Timed.thy ===== *)
theory Quic_Timed
  imports Quic_Effects
begin

text \<open>
  The handshake with a deadline, \<open>src/src/quic_util.c\<close>: \<open>php_quic_monotonic_ms\<close> and
  \<open>php_quic_connect_timed\<close>.  The \<open>for (;;)\<close> loop takes a fuel argument; \<open>None\<close> means the
  fuel ran out.  Under a clock that never goes backwards and moves during every poll,
  \<open>timeout_ms * 10^6 + 1\<close> rounds are enough.
\<close>

subsection \<open>The code\<close>

definition php_quic_monotonic_ms :: "'w env \<Rightarrow> ('w, 64 word) quic" where
  "php_quic_monotonic_ms E = do {
     r \<leftarrow> ext E (Net monotonic_clock);
     ret (tv_sec r * 1000 + tv_nsec r div 1000000)
   }"

definition SSL_ERROR_WANT_READ :: int where [simp]: "SSL_ERROR_WANT_READ = 2"
definition SSL_ERROR_WANT_WRITE :: int where [simp]: "SSL_ERROR_WANT_WRITE = 3"
definition SSL_ERROR_ZERO_RETURN :: int where [simp]: "SSL_ERROR_ZERO_RETURN = 6"
definition POLLIN :: "32 word" where [simp]: "POLLIN = 1"
definition POLLOUT :: "32 word" where [simp]: "POLLOUT = 4"

text \<open>\<open>(int)(tv.tv_sec * 1000 + tv.tv_usec / 1000)\<close>.\<close>

definition event_ms :: "64 word \<Rightarrow> 64 word \<Rightarrow> 32 word" where
  "event_ms sec usec = c_int (sec * 1000 + word_of_int (c_quot (sint usec) 1000))"

text \<open>How long the loop polls: the time left, or the QUIC engine's timer when that is sooner.\<close>

definition poll_wait :: "64 word \<Rightarrow> reply \<Rightarrow> 32 word" where
  "poll_wait remaining t =
     (let wait_ms = (if sint remaining > INT_MAX then word_of_int INT_MAX else c_int remaining);
          ev_ms = event_ms (tv_sec t) (tv_usec t)
      in if rc t = 1 \<and> \<not> flag t \<and> sint ev_ms < sint wait_ms then ev_ms else wait_ms)"

definition poll_events :: "reply \<Rightarrow> reply \<Rightarrow> 32 word" where
  "poll_events rd wr =
     (let events = or (if rc rd \<noteq> 0 then POLLIN else 0) (if rc wr \<noteq> 0 then POLLOUT else 0)
      in if events = 0 then POLLIN else events)"

fun connect_loop ::
  "nat \<Rightarrow> 'w env \<Rightarrow> nat \<Rightarrow> int \<Rightarrow> 64 word \<Rightarrow> 64 word \<Rightarrow> ('w, int option) quic" where
  "connect_loop 0 E ssl fd timeout_ms start = ret None"
| "connect_loop (Suc fuel) E ssl fd timeout_ms start = do {
     r \<leftarrow> ext E (Ssl (SSL_connect ssl));
     if rc r = 1 then do {
       emit E (Ssl (SSL_set_blocking_mode ssl True));
       ret (Some 1)
     } else do {
       e \<leftarrow> ext E (Ssl (SSL_get_error ssl (rc r)));
       if rc e \<noteq> SSL_ERROR_WANT_READ \<and> rc e \<noteq> SSL_ERROR_WANT_WRITE then do {
         emit E (Ssl (SSL_set_blocking_mode ssl True));
         ret (Some 0)
       } else do {
         now \<leftarrow> php_quic_monotonic_ms E;
         let remaining = timeout_ms - (now - start);
         if sint remaining \<le> 0 then do {
           emit E (Ssl (SSL_set_blocking_mode ssl True));
           ret (Some (-1))
         } else do {
           t \<leftarrow> ext E (Ssl (SSL_get_event_timeout ssl));
           rd \<leftarrow> ext E (Ssl (SSL_net_read_desired ssl));
           wr \<leftarrow> ext E (Ssl (SSL_net_write_desired ssl));
           emit E (Net (poll_fd fd (poll_events rd wr) (poll_wait remaining t)));
           emit E (Ssl (SSL_handle_events ssl));
           connect_loop fuel E ssl fd timeout_ms start
         }
       }
     }
   }"

definition php_quic_connect_timed ::
  "nat \<Rightarrow> 'w env \<Rightarrow> nat \<Rightarrow> int \<Rightarrow> 64 word \<Rightarrow> ('w, int option) quic" where
  "php_quic_connect_timed fuel E ssl fd timeout_ms = do {
     start \<leftarrow> php_quic_monotonic_ms E;
     emit E (Ssl (SSL_set_blocking_mode ssl False));
     connect_loop fuel E ssl fd timeout_ms start
   }"

subsection \<open>Ownership and calls\<close>

lemma owns_connect_loop:
  "keeps {#RSsl ssl, RFd fd#} (connect_loop fuel E ssl fd timeout_ms start)"
  by (induction fuel) (auto intro!: own_rules owns_ret simp: Let_def php_quic_monotonic_ms_def)

lemma owns_connect_timed [own_specs]:
  "keeps {#RSsl ssl, RFd fd#} (php_quic_connect_timed fuel E ssl fd timeout_ms)"
  unfolding php_quic_connect_timed_def php_quic_monotonic_ms_def
  by (auto intro!: own_rules owns_connect_loop)

subsection \<open>Blocking mode on return\<close>

definition sel_blocking :: "nat \<Rightarrow> call \<Rightarrow> bool option" where
  "sel_blocking ssl c =
     (case c of Ssl (SSL_set_blocking_mode x b) \<Rightarrow> if x = ssl then Some b else None | _ \<Rightarrow> None)"

lemma connect_loop_blocking:
  "run_state (connect_loop fuel E ssl fd timeout_ms start) w = (Some code, w') \<Longrightarrow>
     last_setting (sel_blocking ssl) (trace w') = Some True \<and> code \<in> {1, 0, -1}"
  by (induction fuel arbitrary: w)
    (auto simp: Let_def sel_blocking_def php_quic_monotonic_ms_def split: if_splits)

subsection \<open>The poll timeout\<close>

lemma sint_time_left:
  assumes "0 < sint (remaining :: 64 word)"
  shows "0 < sint (if sint remaining > INT_MAX then word_of_int INT_MAX else c_int remaining)"
    and "sint (if sint remaining > INT_MAX then word_of_int INT_MAX else c_int remaining)
      \<le> sint remaining"
  using assms by (auto simp: INT_MAX_def sint_c_int)

lemma sint_event_ms:
  assumes "0 \<le> sint sec" and "0 \<le> sint usec" and "sint sec * 1000 + sint usec div 1000 < 2 ^ 31"
  shows "sint (event_ms sec usec) = sint sec * 1000 + sint usec div 1000"
proof -
  let ?k = "sint sec * 1000 + sint usec div 1000"
  have "sec * 1000 + word_of_int (c_quot (sint usec) 1000) = (word_of_int ?k :: 64 word)"
    using assms(2) by (simp add: c_quot_nonneg)
  moreover have "0 \<le> ?k" using assms(1,2) by simp
  then have "sint (word_of_int ?k :: 64 word) = ?k"
    using assms(3) by (intro sint_word_of_int_64) auto
  ultimately show ?thesis
    using assms(3) \<open>0 \<le> ?k\<close> by (simp add: event_ms_def sint_c_int)
qed


text \<open>
  With a timer value that fits an \<open>int\<close>, the wait is never longer than the time left and
  never negative.
\<close>

lemma poll_wait_bounds:
  assumes "0 < sint remaining"
    and "rc t = 1 \<Longrightarrow> \<not> flag t \<Longrightarrow>
      0 \<le> sint (tv_sec t) \<and> 0 \<le> sint (tv_usec t) \<and>
      sint (tv_sec t) * 1000 + sint (tv_usec t) div 1000 < 2 ^ 31"
  shows "0 \<le> sint (poll_wait remaining t) \<and> sint (poll_wait remaining t) \<le> sint remaining"
proof (cases "rc t = 1 \<and> \<not> flag t")
  case True
  with assms(2) have "sint (event_ms (tv_sec t) (tv_usec t)) =
      sint (tv_sec t) * 1000 + sint (tv_usec t) div 1000"
    by (intro sint_event_ms) auto
  with True assms(2) have "0 \<le> sint (event_ms (tv_sec t) (tv_usec t))"
    by (simp add: pos_imp_zdiv_nonneg_iff)
  then show ?thesis
    using sint_time_left [OF assms(1)] by (auto simp: poll_wait_def Let_def)
next
  case False
  then show ?thesis
    using sint_time_left [OF assms(1)] by (auto simp: poll_wait_def Let_def)
qed

subsection \<open>Termination\<close>

text \<open>
  \<open>steady_clock E ns\<close>: \<open>ns\<close> is a nanosecond clock of the outside world which no call sets
  back or moves by more than \<open>2 ^ 59\<close> ns (eighteen years), which every poll moves
  forward, and whose milliseconds \<open>CLOCK_MONOTONIC\<close> reports.
\<close>

definition steady_clock :: "'w env \<Rightarrow> ('w \<Rightarrow> nat) \<Rightarrow> bool" where
  "steady_clock E ns \<longleftrightarrow>
     (\<forall>s c. ns s \<le> ns (snd (extern E s c)) \<and> ns (snd (extern E s c)) \<le> ns s + 2 ^ 59) \<and>
     (\<forall>s fd ev ms. ns s < ns (snd (extern E s (Net (poll_fd fd ev ms))))) \<and>
     (\<forall>s. let (r, s') = extern E s (Net monotonic_clock) in
        tv_sec r * 1000 + tv_nsec r div 1000000 = of_nat (ns s' div 1000000))"

lemma steady_clockD:
  assumes "steady_clock E ns"
  shows "ns s \<le> ns (snd (extern E s c))" and "ns (snd (extern E s c)) \<le> ns s + 2 ^ 59"
    and "ns s < ns (snd (extern E s (Net (poll_fd fd ev ms))))"
    and "tv_sec (fst (extern E s (Net monotonic_clock))) * 1000 +
      tv_nsec (fst (extern E s (Net monotonic_clock))) div 1000000 =
      of_nat (ns (snd (extern E s (Net monotonic_clock))) div 1000000)"
  using assms by (auto simp: steady_clock_def split: prod.splits)

text \<open>What is left of the timeout after \<open>d\<close> milliseconds, as the code computes it.\<close>

lemma sint_remaining:
  fixes timeout :: "64 word"
  assumes "s \<le> m" and "0 \<le> sint timeout" and "int (m - s) \<le> sint timeout + 2 ^ 62"
  shows "sint (timeout - (of_nat m - of_nat s)) = sint timeout - int (m - s)"
proof -
  have eq: "timeout - (of_nat m - of_nat s) = word_of_int (sint timeout - int (m - s))"
    using assms(1) by (simp add: of_nat_diff)
  have "sint timeout < 2 ^ 63"
    using sint_lt [of timeout] by simp
  then show ?thesis
    unfolding eq using assms(2,3) by (intro sint_word_of_int_64) auto
qed

text \<open>
  \<open>n0\<close> is the clock when the handshake started.  While the loop goes on the deadline has not
  passed, so what is left of it, in nanoseconds, shrinks with every poll.
\<close>

lemma connect_loop_returns:
  fixes timeout :: "64 word"
  assumes clock: "steady_clock E ns" and T: "sint timeout = int T"
  shows "n0 \<le> ns (engine w) \<Longrightarrow> ns (engine w) \<le> n0 + T * 1000000 + 5 * 2 ^ 59 \<Longrightarrow>
     n0 + T * 1000000 - ns (engine w) < fuel \<Longrightarrow>
     \<exists>code w'. run_state (connect_loop fuel E ssl fd timeout (of_nat (n0 div 1000000))) w = (Some code, w')"
proof (induction fuel arbitrary: w)
  case (Suc fuel)
  note le = steady_clockD(1) [OF clock] and step = steady_clockD(2) [OF clock]
  define s0 where "s0 = engine w"
  define rc1 where "rc1 = rc (fst (extern E s0 (Ssl (SSL_connect ssl))))"
  define s1 where "s1 = snd (extern E s0 (Ssl (SSL_connect ssl)))"
  define s2 where "s2 = snd (extern E s1 (Ssl (SSL_get_error ssl rc1)))"
  define s3 where "s3 = snd (extern E s2 (Net monotonic_clock))"
  define m where "m = ns s3 div 1000000"
  have n3: "ns s0 \<le> ns s3" "ns s3 \<le> ns s0 + 3 * 2 ^ 59"
    using le [of s0 "Ssl (SSL_connect ssl)"] le [of s1 "Ssl (SSL_get_error ssl rc1)"]
      le [of s2 "Net monotonic_clock"] step [of s0 "Ssl (SSL_connect ssl)"]
      step [of s1 "Ssl (SSL_get_error ssl rc1)"] step [of s2 "Net monotonic_clock"]
    by (simp_all add: s1_def s2_def s3_def)
  have "n0 div 1000000 \<le> m"
    using Suc.prems(1) n3(1) by (auto simp: m_def s0_def intro: div_le_mono)
  moreover have "int (m - n0 div 1000000) \<le> sint timeout + 2 ^ 62"
    using Suc.prems(2) n3(2) by (simp add: m_def s0_def T)
  ultimately have left: "sint (timeout - (of_nat m - of_nat (n0 div 1000000))) =
      int T - int (m - n0 div 1000000)"
    using sint_remaining [of "n0 div 1000000" m timeout] T by simp
  show ?case
  proof (cases "int T - int (m - n0 div 1000000) \<le> 0")
    case True
    then show ?thesis
      using left steady_clockD(4) [OF clock, of s2]
      by (auto simp: php_quic_monotonic_ms_def Let_def m_def s3_def s2_def s1_def s0_def rc1_def)
  next
    case False
    then have "m < n0 div 1000000 + T" by linarith
    then have n3T: "ns s3 < n0 + T * 1000000" by (simp add: m_def)
    define s4 where "s4 = snd (extern E s3 (Ssl (SSL_get_event_timeout ssl)))"
    define t where "t = fst (extern E s3 (Ssl (SSL_get_event_timeout ssl)))"
    define s5 where "s5 = snd (extern E s4 (Ssl (SSL_net_read_desired ssl)))"
    define rd where "rd = fst (extern E s4 (Ssl (SSL_net_read_desired ssl)))"
    define s6 where "s6 = snd (extern E s5 (Ssl (SSL_net_write_desired ssl)))"
    define wr where "wr = fst (extern E s5 (Ssl (SSL_net_write_desired ssl)))"
    define poll where "poll = Net (poll_fd fd (poll_events rd wr)
      (poll_wait (timeout - (of_nat m - of_nat (n0 div 1000000))) t))"
    define s7 where "s7 = snd (extern E s6 poll)"
    define s8 where "s8 = snd (extern E s7 (Ssl (SSL_handle_events ssl)))"
    have "ns s6 < ns s7" using steady_clockD(3) [OF clock] by (simp add: s7_def poll_def)
    then have n8: "ns s3 < ns s8" "ns s8 \<le> ns s3 + 5 * 2 ^ 59"
      using le [of s3 "Ssl (SSL_get_event_timeout ssl)"] le [of s4 "Ssl (SSL_net_read_desired ssl)"]
        le [of s5 "Ssl (SSL_net_write_desired ssl)"] le [of s7 "Ssl (SSL_handle_events ssl)"]
        step [of s3 "Ssl (SSL_get_event_timeout ssl)"] step [of s4 "Ssl (SSL_net_read_desired ssl)"]
        step [of s5 "Ssl (SSL_net_write_desired ssl)"] step [of s6 poll]
        step [of s7 "Ssl (SSL_handle_events ssl)"]
      by (simp_all add: s4_def s5_def s6_def s7_def s8_def)
    have IH: "\<exists>code w'. run_state (connect_loop fuel E ssl fd timeout (of_nat (n0 div 1000000))) v
        = (Some code, w')" if "engine v = s8" for v
      by (rule Suc.IH) (use that n8 n3 n3T Suc.prems in \<open>simp_all add: s0_def\<close>)
    then show ?thesis
      using left False steady_clockD(4) [OF clock, of s2]
      by (auto simp: php_quic_monotonic_ms_def Let_def m_def s8_def s7_def s6_def s5_def s4_def
          s3_def s2_def s1_def s0_def rc1_def poll_def t_def rd_def wr_def)
  qed
qed simp

lemma connect_timed_some:
  assumes clock: "steady_clock E ns" and "0 \<le> sint timeout"
    and "nat (sint timeout) * 1000000 < fuel"
  shows "yields (\<lambda>x. x \<noteq> None) (php_quic_connect_timed fuel E ssl fd timeout)"
  unfolding yields_def
proof
  fix w :: "'a world"
  let ?c = "Net monotonic_clock" and ?b = "Ssl (SSL_set_blocking_mode ssl False)"
  define s where "s = snd (extern E (engine w) ?c)"
  define v where "v = w\<lparr>engine := snd (extern E s ?b), trace := (?b, fst (extern E s ?b)) #
    (?c, fst (extern E (engine w) ?c)) # trace w\<rparr>"
  have "ns s \<le> ns (engine v)" "ns (engine v) \<le> ns s + 2 ^ 59"
    using steady_clockD(1,2) [OF clock] by (simp_all add: v_def)
  moreover have "sint timeout = int (nat (sint timeout))" using assms(2) by simp
  ultimately obtain code w' where
    "run_state (connect_loop fuel E ssl fd timeout (of_nat (ns s div 1000000))) v = (Some code, w')"
    using connect_loop_returns [OF clock, of timeout "nat (sint timeout)" "ns s" v fuel ssl fd] assms(3)
    by fastforce
  then show "fst (run_state (php_quic_connect_timed fuel E ssl fd timeout) w) \<noteq> None"
    using steady_clockD(4) [OF clock, of "engine w"]
    by (simp add: php_quic_connect_timed_def php_quic_monotonic_ms_def s_def v_def)
qed

subsection \<open>What the timed handshake guarantees\<close>

text \<open>
  For the witnesses: a nanosecond clock that every call moves by one, and a peer that never
  answers.
\<close>

definition ticking :: "nat env" where
  "ticking = answering (\<lambda>n c. (no_reply\<lparr>rc := (case c of Ssl (SSL_get_error _ _) \<Rightarrow> 2 | _ \<Rightarrow> 0),
     tv_sec := of_nat (Suc n div 1000000 div 1000),
     tv_nsec := of_nat (Suc n div 1000000 mod 1000 * 1000000)\<rparr>, Suc n))"

lemma steady_ticking: "steady_clock ticking (\<lambda>n. n)"
proof -
  have ms: "(of_nat (k * 1000000) :: 64 word) div 1000000 = of_nat k" if "k < 1000" for k
    using that by (simp add: word_unat_eq_iff unat_div unat_word_ariths unat_of_nat take_bit_nat_eq_self)
  have "(of_nat (m div 1000) * 1000 + of_nat (m mod 1000 * 1000000) div 1000000 :: 64 word) = of_nat m" for m
  proof -
    have "(of_nat (m mod 1000 * 1000000) :: 64 word) div 1000000 = of_nat (m mod 1000)"
      by (rule ms) simp
    moreover have "(of_nat (m div 1000) * 1000 + of_nat (m mod 1000) :: 64 word) =
        of_nat (m div 1000 * 1000 + m mod 1000)"
      by (simp only: of_nat_add of_nat_mult of_nat_numeral)
    ultimately show ?thesis by (simp only: div_mult_mod_eq)
  qed
  then show ?thesis by (simp add: steady_clock_def ticking_def)
qed

text \<open>
  C20. The blocking mode is restored: whichever way the timed handshake ends (connected, failed
  or timed out), the last blocking mode it has set on the connection is the blocking one.
\<close>

theorem timed_restores_blocking:
  assumes "run_state (php_quic_connect_timed fuel E ssl fd timeout_ms) w = (Some code, w')"
  shows "last_setting (sel_blocking ssl) (trace w') = Some True"
  using assms by (auto simp: php_quic_connect_timed_def dest: connect_loop_blocking split: prod.splits)

lemma timed_restores_blocking_witness:
  "last_setting (sel_blocking 3) (trace (snd (run_state
    (php_quic_connect_timed 1 scripted 3 4 1000) (script_world [no_reply])))) = Some True"
proof -
  have "run_state (php_quic_connect_timed 1 scripted 3 4 1000) (script_world [no_reply]) =
      (Some 0, snd (run_state (php_quic_connect_timed 1 scripted 3 4 1000) (script_world [no_reply])))"
    by (simp add: php_quic_connect_timed_def php_quic_monotonic_ms_def)
  from timed_restores_blocking [OF this] show ?thesis .
qed

text \<open>
  C19. A timed handshake ends: with a clock that advances, one round per nanosecond of the timeout
  is enough for a result, whatever OpenSSL answers.
\<close>

theorem timed_returns:
  assumes "steady_clock E ns" and "0 \<le> sint timeout" and "nat (sint timeout) * 1000000 < fuel"
  shows "\<exists>code. fst (run_state (php_quic_connect_timed fuel E ssl fd timeout) w) = Some code"
  using connect_timed_some [OF assms] by (simp add: yields_def)

lemma timed_returns_witness:
  "\<exists>code. fst (run_state (php_quic_connect_timed 5000001 ticking 3 4 5) \<lparr>engine = 7, trace = []\<rparr>)
    = Some code"
  by (rule timed_returns [OF steady_ticking]) simp_all

definition int_timer :: "reply \<Rightarrow> bool" where
  "int_timer t \<longleftrightarrow> (rc t = 1 \<and> \<not> flag t \<longrightarrow> 0 \<le> sint (tv_sec t) \<and> 0 \<le> sint (tv_usec t) \<and>
     sint (tv_sec t) * 1000 + sint (tv_usec t) div 1000 < 2 ^ 31)"

fun bounded_poll :: "int \<Rightarrow> call \<Rightarrow> bool" where
  "bounded_poll fd (Net (poll_fd f ev ms)) = (f = fd \<and> ev \<noteq> 0 \<and> 0 \<le> sint ms)"
| "bounded_poll fd _ = True"

lemma poll_events_nonzero: "poll_events rd wr \<noteq> 0"
  by (simp add: poll_events_def Let_def)

text \<open>
  C21. A poll of the handshake never waits for ever: as long as the timer OpenSSL reports fits
  the \<open>int\<close> of \<open>poll\<close>, each wait is on the connection's socket, for some event, and is not
  negative.
\<close>

theorem handshake_polls_bounded:
  assumes "\<And>w. int_timer (fst (extern E w (Ssl (SSL_get_event_timeout ssl))))"
  shows "makes (bounded_poll fd) (php_quic_connect_timed fuel E ssl fd timeout)"
proof -
  have "makes (bounded_poll fd) (connect_loop fuel E ssl fd timeout s)" for s
  proof (induction fuel)
    case (Suc fuel)
    then show ?case
      using assms poll_wait_bounds [THEN conjunct1]
      by (auto simp: Let_def php_quic_monotonic_ms_def not_le int_timer_def poll_events_nonzero
          intro!: makes_rules makes_bind_ext [where c = "Ssl (SSL_get_event_timeout ssl)"])
  qed (simp add: makes_ret)
  then show ?thesis
    unfolding php_quic_connect_timed_def php_quic_monotonic_ms_def by (auto intro!: makes_rules)
qed

lemma handshake_polls_bounded_witness:
  "makes (bounded_poll 4) (php_quic_connect_timed 9 ticking 3 4 5)"
  by (rule handshake_polls_bounded) (simp add: ticking_def int_timer_def)

end
