(* ===== verification/Quic_Object.thy ===== *)
theory Quic_Object
  imports Quic_Alpn Quic_Exception
begin

text \<open>
  The three object structs of \<open>src/src/php_quic.h\<close>, what each owns, and the two contracts
  their classes share: an object that holds handles (create, free) and an event source
  (\<open>getFd\<close>, \<open>setBlocking\<close>, \<open>wantsRead\<close>, \<open>wantsWrite\<close>, \<open>getTimeout\<close>, \<open>handleEvents\<close>), stated
  as locales which the theories of the classes interpret on their own definitions.
\<close>

subsection \<open>The structs\<close>

text \<open>
  A NULL pointer is \<open>None\<close>, an embedded zval is the identity of the object it refers to, or
  \<open>None\<close> when UNDEF.  \<open>alpn_cb_arg\<close> is the address of a \<open>quic_alpn_data\<close> and its content.
\<close>

record php_quic_connection =
  conn_ssl :: "nat option"
  conn_fd :: int
  conn_owns_fd :: bool
  conn_closed :: bool
  conn_listener :: "nat option"

record php_quic_listener =
  lis_ssl :: "nat option"
  lis_ctx :: "nat option"
  lis_fd :: int
  lis_alpn_cb_arg :: "(nat \<times> zstr) option"

record php_quic_stream =
  str_ssl :: "nat option"
  str_connection :: "nat option"

text \<open>\<open>(double)tv.tv_sec + (double)tv.tv_usec / 1000000.0\<close>.\<close>

definition timeval_double :: "'w env \<Rightarrow> 64 word \<Rightarrow> 64 word \<Rightarrow> double" where
  "timeval_double E sec usec =
     Fin (fl E (fl E (of_int (sint sec)) + fl E (fl E (of_int (sint usec)) / 1000000)))"

text \<open>An object of the store, by its class; the three classes are final.\<close>

datatype php_object =
    OConnection php_quic_connection
  | OListener php_quic_listener
  | OStream php_quic_stream
  | OForeign

subsection \<open>What an object owns\<close>

definition res_connection :: "php_quic_connection \<Rightarrow> res multiset" where
  "res_connection c =
     opt_res RSsl (conn_ssl c) + (if conn_owns_fd c then fd_res (conn_fd c) else {#})"

definition res_listener :: "php_quic_listener \<Rightarrow> res multiset" where
  "res_listener l =
     opt_res RSsl (lis_ssl l) + fd_res (lis_fd l) + opt_res RCtx (lis_ctx l) +
     (case lis_alpn_cb_arg l of None \<Rightarrow> {#} | Some (p, z) \<Rightarrow> {#RMem p, RStr (zs_ptr z)#})"

definition res_stream :: "php_quic_stream \<Rightarrow> res multiset" where
  "res_stream s = opt_res RSsl (str_ssl s)"

subsection \<open>Throwing from a method\<close>

definition throw_ssl :: "'w env \<Rightarrow> string \<Rightarrow> ('w, 'a outcome) quic" where
  "throw_ssl E text = do { e \<leftarrow> php_quic_throw_ssl E text; ret (Inl e) }"

lemma owns_throw_ssl_last [own_rules]:
  "(\<And>e. Q (Inl e) = P) \<Longrightarrow> owns P (throw_ssl E text) Q"
  unfolding throw_ssl_def by (rule owns_throw_ssl_bind) (simp add: owns_ret)

lemma makes_throw [makes_rules]: "(\<And>c. p (Err c)) \<Longrightarrow> makes p (throw_ssl E text)"
  unfolding throw_ssl_def by (intro makes_rules)

lemma yields_throw [yields_rules]: "(\<And>e. V (Inl e)) \<Longrightarrow> yields V (throw_ssl E text)"
  unfolding throw_ssl_def by (intro yields_rules)

lemma run_throw_ssl_Inl: "fst (run_state (throw_ssl E msg) w) \<noteq> Inr a"
  using yields_throw [of "\<lambda>x. x \<noteq> Inr a" E msg] by (simp add: yields_def)

text \<open>Storing the result of a fallible allocation or the like: one branch per outcome.\<close>

definition free_ssl :: "'w env \<Rightarrow> nat option \<Rightarrow> ('w, unit) quic" where
  "free_ssl E ssl = (case ssl of None \<Rightarrow> ret () | Some s \<Rightarrow> emit E (Ssl (SSL_free s)))"

lemma owns_free_ssl: "owns (opt_res RSsl ssl) (free_ssl E ssl) (\<lambda>_. {#})"
  unfolding free_ssl_def by (auto intro!: own_rules owns_ret)

definition close_fd :: "'w env \<Rightarrow> int \<Rightarrow> ('w, unit) quic" where
  "close_fd E fd = (if fd = -1 then ret () else emit E (Net (BIO_closesocket fd)))"

lemma owns_close_fd: "owns (fd_res fd) (close_fd E fd) (\<lambda>_. {#})"
  unfolding close_fd_def by (auto intro!: own_rules owns_ret)

subsection \<open>The contract of an object that holds handles\<close>

text \<open>
  A struct embeds at most one zval.  \<open>free\<close> is the \<open>free_obj\<close> handler: it returns the struct it
  leaves and the reference it has given to \<open>zval_ptr_dtor\<close>, if any, which the object store then
  releases.  \<open>gc\<close> are the references \<open>get_gc\<close> reports; the handler must drop exactly those.
\<close>

definition opt_list :: "'a option \<Rightarrow> 'a list" where
  "opt_list x = (case x of None \<Rightarrow> [] | Some a \<Rightarrow> [a])"

lemma opt_list_simps [simp]:
  "opt_list None = []" "opt_list (Some a) = [a]"
  by (simp_all add: opt_list_def)

locale handle_owner =
  fixes create :: "'o" and free :: "'w env \<Rightarrow> 'o \<Rightarrow> ('w, 'o \<times> nat option) quic"
    and res_of :: "'o \<Rightarrow> res multiset" and gc :: "'o \<Rightarrow> nat list"
  assumes create_owns_nothing: "res_of create = {#}" and create_refers_to_nothing: "gc create = []"
    and free_gives_back: "owns (res_of x) (free E x) (\<lambda>_. {#})"
    and free_drops: "yields (\<lambda>(y, d). res_of y = {#} \<and> gc y = [] \<and> opt_list d = gc x) (free E x)"
begin

lemma owns_free: "owns (res_of x) (free E x) (\<lambda>(y, _). res_of y)"
proof (rule ownsI)
  fix w F z w'
  assume "ledger (trace w) = Some (F + res_of x)" and r: "run_state (free E x) w = (z, w')"
  then have "ledger (trace w') = Some (F + {#})"
    by (rule ownsD [OF free_gives_back])
  then show "ledger (trace w') = Some (F + (case z of (y, _) \<Rightarrow> res_of y))"
    using yieldsD [OF free_drops r] by (auto split: prod.splits)
qed

text \<open>Freeing twice is harmless: the second call finds nothing to release and no reference to drop.\<close>

lemma free_again: "owns (res_of x) (do { (y, _) \<leftarrow> free E x; free E y }) (\<lambda>_. {#})"
  by (rule owns_bind [OF owns_free]) (auto intro: free_gives_back split: prod.split)

lemma free_again_drops:
  assumes "run_state (free E x) w = ((y, d), w')" and "run_state (free E y) v = ((z, e), v')"
  shows "e = None"
  using yieldsD [OF free_drops assms(1)] yieldsD [OF free_drops assms(2)] by (cases e) auto

lemma unconstructed_free: "owns {#} (free E create) (\<lambda>_. {#})"
  using free_gives_back [of create E] by (simp add: create_owns_nothing)

end

subsection \<open>The contract of an event source\<close>

locale event_source =
  fixes ssl_of :: "'o \<Rightarrow> nat option" and closed_error :: string
    and set_blocking :: "'w env \<Rightarrow> 'o \<Rightarrow> bool \<Rightarrow> ('w, unit outcome) quic"
    and wants_read :: "'w env \<Rightarrow> 'o \<Rightarrow> ('w, bool) quic"
    and wants_write :: "'w env \<Rightarrow> 'o \<Rightarrow> ('w, bool) quic"
    and get_timeout :: "'w env \<Rightarrow> 'o \<Rightarrow> ('w, double option outcome) quic"
    and handle_events :: "'w env \<Rightarrow> 'o \<Rightarrow> ('w, unit) quic"
  assumes closed_source:
    "ssl_of x = None \<Longrightarrow> set_blocking E x b = ret (Inl (Quic_Exception closed_error))"
    "ssl_of x = None \<Longrightarrow> wants_read E x = ret False"
    "ssl_of x = None \<Longrightarrow> wants_write E x = ret False"
    "ssl_of x = None \<Longrightarrow> get_timeout E x = ret (Inr None)"
    "ssl_of x = None \<Longrightarrow> handle_events E x = ret ()"
  assumes live_source:
    "ssl_of x = Some s \<Longrightarrow> set_blocking E x b = do {
       r \<leftarrow> ext E (Ssl (SSL_set_blocking_mode s b));
       if rc r = 0 then throw_ssl E ''failed to set blocking mode'' else ret (Inr ()) }"
    "ssl_of x = Some s \<Longrightarrow> wants_read E x = do {
       r \<leftarrow> ext E (Ssl (SSL_net_read_desired s)); ret (rc r \<noteq> 0) }"
    "ssl_of x = Some s \<Longrightarrow> wants_write E x = do {
       r \<leftarrow> ext E (Ssl (SSL_net_write_desired s)); ret (rc r \<noteq> 0) }"
    "ssl_of x = Some s \<Longrightarrow> get_timeout E x = do {
       r \<leftarrow> ext E (Ssl (SSL_get_event_timeout s));
       if rc r = 0 then throw_ssl E ''failed to query QUIC event timeout''
       else if flag r then ret (Inr None)
       else ret (Inr (Some (timeval_double E (tv_sec r) (tv_usec r)))) }"
    "ssl_of x = Some s \<Longrightarrow> handle_events E x = emit E (Ssl (SSL_handle_events s))"
begin

text \<open>One turn of a userland event loop over the source, as the README describes it.\<close>

definition turn :: "'w env \<Rightarrow> 'o \<Rightarrow> ('w, bool \<times> bool \<times> double option outcome) quic" where
  "turn E x = do {
     rd \<leftarrow> wants_read E x;
     wr \<leftarrow> wants_write E x;
     t \<leftarrow> get_timeout E x;
     handle_events E x;
     ret (rd, wr, t)
   }"

lemma closed_turn: "ssl_of x = None \<Longrightarrow> turn E x = ret (False, False, Inr None)"
  by (simp add: turn_def closed_source)

text \<open>Every operation leaves what the object owns as it is.\<close>

lemma keeps_set_blocking: "keeps (opt_res RSsl (ssl_of x)) (set_blocking E x b)"
  by (cases "ssl_of x") (auto simp: closed_source live_source intro!: own_rules owns_ret)

lemma keeps_wants: "keeps (opt_res RSsl (ssl_of x)) (wants_read E x)"
  "keeps (opt_res RSsl (ssl_of x)) (wants_write E x)"
  by (cases "ssl_of x"; auto simp: closed_source live_source intro!: own_rules owns_ret)+

lemma keeps_get_timeout: "keeps (opt_res RSsl (ssl_of x)) (get_timeout E x)"
  by (cases "ssl_of x") (auto simp: closed_source live_source intro!: own_rules owns_ret)

lemma keeps_handle_events: "keeps (opt_res RSsl (ssl_of x)) (handle_events E x)"
  by (cases "ssl_of x") (auto simp: closed_source live_source intro!: own_rules owns_ret)

lemma keeps_turn: "keeps (opt_res RSsl (ssl_of x)) (turn E x)"
  unfolding turn_def
  by (rule owns_bind [OF keeps_wants(1)] owns_bind [OF keeps_wants(2)]
      owns_bind [OF keeps_get_timeout] owns_bind [OF keeps_handle_events] owns_ret refl)+

text \<open>A closed source is silent: it makes no call at all.\<close>

lemma closed_silent:
  assumes "ssl_of x = None"
  shows "makes (\<lambda>_. False) (turn E x)" and "makes (\<lambda>_. False) (set_blocking E x b)"
  using assms by (auto simp: closed_turn closed_source intro!: makes_rules)

end

end
