(* ===== verification/Quic_Stream.thy ===== *)
theory Quic_Stream
  imports Quic_Object Quic_Timed
begin

text \<open>
  \<open>src/src/quic_stream.c\<close>: the class \<open>Quic\Stream\<close> and its \<open>php_stream\<close> view.  A method
  takes the object's struct as it finds it and, when it writes to it, returns it updated.
  The read loop carries the number of rounds it may still make; \<open>read_returns\<close> shows that
  the 48 it starts with are always enough.
\<close>

subsection \<open>Constants of OpenSSL\<close>

definition SSL_WRITE_FLAG_CONCLUDE :: "64 word" where [simp]: "SSL_WRITE_FLAG_CONCLUDE = 1"
definition SSL_STREAM_FLAG_UNI :: "64 word" where [simp]: "SSL_STREAM_FLAG_UNI = 1"
definition SSL_STREAM_STATE_RESET_LOCAL :: int where [simp]: "SSL_STREAM_STATE_RESET_LOCAL = 4"
definition SSL_STREAM_STATE_RESET_REMOTE :: int where [simp]: "SSL_STREAM_STATE_RESET_REMOTE = 5"
definition SSL_STREAM_STATE_CONN_CLOSED :: int where [simp]: "SSL_STREAM_STATE_CONN_CLOSED = 6"
definition SSL_STREAM_TYPE_BIDI :: int where [simp]: "SSL_STREAM_TYPE_BIDI = 3"

subsection \<open>The object\<close>

definition quic_stream_create :: php_quic_stream where
  "quic_stream_create = \<lparr>str_ssl = None, str_connection = None\<rparr>"

definition php_quic_stream_init_object :: "nat \<Rightarrow> nat \<Rightarrow> php_quic_stream" where
  "php_quic_stream_init_object stream_ssl connection_zv =
     quic_stream_create\<lparr>str_ssl := Some stream_ssl, str_connection := Some connection_zv\<rparr>"

text \<open>The second result is the reference given to \<open>zval_ptr_dtor\<close>.\<close>

definition quic_stream_free ::
  "'w env \<Rightarrow> php_quic_stream \<Rightarrow> ('w, php_quic_stream \<times> nat option) quic" where
  "quic_stream_free E obj = do {
     free_ssl E (str_ssl obj);
     let obj = obj\<lparr>str_ssl := None\<rparr>;
     case str_connection obj of
       None \<Rightarrow> ret (obj, None)
     | Some c \<Rightarrow> ret (obj\<lparr>str_connection := None\<rparr>, Some c)
   }"

definition quic_stream_get_gc :: "php_quic_stream \<Rightarrow> nat list" where
  "quic_stream_get_gc obj = (case str_connection obj of None \<Rightarrow> [] | Some c \<Rightarrow> [c])"

subsection \<open>The constructor\<close>

definition Quic_Stream_construct ::
  "'w env \<Rightarrow> php_quic_stream \<Rightarrow> nat \<Rightarrow> php_quic_connection \<Rightarrow> bool \<Rightarrow>
     ('w, unit outcome \<times> php_quic_stream) quic" where
  "Quic_Stream_construct E obj conn_zv conn bidirectional =
     (if str_ssl obj \<noteq> None then ret (Inl (php_quic_throw ''stream is already open''), obj)
      else case conn_ssl conn of
        None \<Rightarrow> ret (Inl (php_quic_throw ''connection is closed''), obj)
      | Some s \<Rightarrow> do {
          r \<leftarrow> ext E (Strm (SSL_new_stream s (if bidirectional then 0 else SSL_STREAM_FLAG_UNI)));
          case ptr r of
            None \<Rightarrow> do { e \<leftarrow> throw_ssl E ''failed to open QUIC stream''; ret (e, obj) }
          | Some stream \<Rightarrow>
              ret (Inr (), obj\<lparr>str_ssl := Some stream, str_connection := Some conn_zv\<rparr>)
        })"

subsection \<open>Writing\<close>

definition Quic_Stream_write ::
  "'w env \<Rightarrow> php_quic_stream \<Rightarrow> string \<Rightarrow> bool \<Rightarrow> ('w, 64 word outcome) quic" where
  "Quic_Stream_write E obj data fin =
     (case str_ssl obj of
        None \<Rightarrow> ret (Inl (php_quic_throw ''stream is closed''))
      | Some s \<Rightarrow>
          if data = [] then do {
            failed \<leftarrow> (if fin then do { r \<leftarrow> ext E (Strm (SSL_stream_conclude s)); ret (rc r = 0) }
                       else ret False);
            if failed then throw_ssl E ''failed to conclude stream'' else ret (Inr 0)
          } else do {
            r \<leftarrow> ext E (Strm (SSL_write_ex2 s data (if fin then SSL_WRITE_FLAG_CONCLUDE else 0)));
            if rc r = 0 then do {
              err \<leftarrow> ext E (Ssl (SSL_get_error s (rc r)));
              if rc err = SSL_ERROR_WANT_READ \<or> rc err = SSL_ERROR_WANT_WRITE
              then ret (Inr (u64 r))
              else throw_ssl E ''stream write failed''
            } else ret (Inr (u64 r))
          })"

definition Quic_Stream_end :: "'w env \<Rightarrow> php_quic_stream \<Rightarrow> ('w, unit outcome) quic" where
  "Quic_Stream_end E obj =
     (case str_ssl obj of
        None \<Rightarrow> ret (Inl (php_quic_throw ''stream is closed''))
      | Some s \<Rightarrow> do {
          r \<leftarrow> ext E (Strm (SSL_stream_conclude s));
          if rc r = 0 then throw_ssl E ''failed to conclude stream'' else ret (Inr ())
        })"

definition Quic_Stream_reset ::
  "'w env \<Rightarrow> php_quic_stream \<Rightarrow> 64 word \<Rightarrow> ('w, unit outcome) quic" where
  "Quic_Stream_reset E obj error_code =
     (case str_ssl obj of
        None \<Rightarrow> ret (Inl (php_quic_throw ''stream is closed''))
      | Some s \<Rightarrow> do {
          r \<leftarrow> ext E (Strm (SSL_stream_reset s error_code));
          if rc r = 0 then throw_ssl E ''failed to reset stream'' else ret (Inr ())
        })"

subsection \<open>Reading\<close>

text \<open>
  \<open>read_loop fuel E s want blocking buf cap data\<close>: the string \<open>buf\<close> has room for \<open>cap\<close> bytes,
  \<open>data\<close> are the ones filled.  The result pairs what was read with the \<open>rc\<close> of the last call, and
  names the string, which may have moved.
\<close>

fun read_loop ::
  "nat \<Rightarrow> 'w env \<Rightarrow> nat \<Rightarrow> nat \<Rightarrow> bool \<Rightarrow> nat \<Rightarrow> nat \<Rightarrow> string \<Rightarrow>
     ('w, (string \<times> int) option \<times> nat) quic" where
  "read_loop 0 E s want blocking buf cap data = ret (None, buf)"
| "read_loop (Suc fuel) E s want blocking buf cap data = do {
     r \<leftarrow> ext E (Strm (SSL_read_ex s (cap - length data)));
     if rc r \<noteq> 1 then ret (Some (data, rc r), buf)
     else do {
       let data = data @ bytes r;
       if want \<le> length data \<or> blocking then ret (Some (data, rc r), buf)
       else if length data = cap then do {
         let newcap = (if cap \<le> want div 2 then cap * 2 else want);
         b \<leftarrow> ext E (Mem (zend_string_realloc buf newcap));
         read_loop fuel E s want blocking (hnd b) newcap data
       }
       else ret (Some (data, rc r), buf)
     }
   }"

definition READ_ROUNDS :: nat where
  "READ_ROUNDS = 48"

definition read_cap :: "nat \<Rightarrow> nat" where
  "read_cap want = (if want < 65536 then want else 65536)"

text \<open>What the method makes of the bytes read and the last return code.\<close>

definition read_result ::
  "'w env \<Rightarrow> nat \<Rightarrow> nat \<Rightarrow> string \<Rightarrow> int \<Rightarrow> ('w, string option outcome) quic" where
  "read_result E s buf data last_rc =
     (if 0 < length data then do {
        b \<leftarrow> ext E (Mem (zend_string_truncate buf (length data)));
        emit E (Mem (RETURN_STR (hnd b)));
        ret (Inr (Some data))
      } else do {
        emit E (Mem (zend_string_efree buf));
        err \<leftarrow> ext E (Ssl (SSL_get_error s last_rc));
        if rc err = SSL_ERROR_WANT_READ \<or> rc err = SSL_ERROR_WANT_WRITE then ret (Inr (Some []))
        else if rc err = SSL_ERROR_ZERO_RETURN then ret (Inr None)
        else do {
          st \<leftarrow> ext E (Strm (SSL_get_stream_read_state s));
          if rc st = SSL_STREAM_STATE_RESET_REMOTE \<or> rc st = SSL_STREAM_STATE_RESET_LOCAL
             \<or> rc st = SSL_STREAM_STATE_CONN_CLOSED
          then ret (Inr None)
          else throw_ssl E ''stream read failed''
        }
      })"

definition Quic_Stream_read ::
  "'w env \<Rightarrow> php_quic_stream \<Rightarrow> 64 word \<Rightarrow> ('w, string option outcome option) quic" where
  "Quic_Stream_read E obj len =
     (if sint len \<le> 0
      then ret (Some (Inl (php_quic_throw
                 (''read length must be positive, got '' @ show_long len))))
      else case str_ssl obj of
        None \<Rightarrow> ret (Some (Inr None))
      | Some s \<Rightarrow> do {
          buf \<leftarrow> ext E (Mem (zend_string_alloc (read_cap (unat len))));
          b \<leftarrow> ext E (Ssl (SSL_get_blocking_mode s));
          (l, buf) \<leftarrow> read_loop READ_ROUNDS E s (unat len) (rc b \<noteq> 0) (hnd buf) (read_cap (unat len)) [];
          case l of
            None \<Rightarrow> ret None
          | Some (data, last_rc) \<Rightarrow> do { x \<leftarrow> read_result E s buf data last_rc; ret (Some x) }
        })"

subsection \<open>Queries\<close>

definition Quic_Stream_getResetCode ::
  "'w env \<Rightarrow> php_quic_stream \<Rightarrow> ('w, 64 word option) quic" where
  "Quic_Stream_getResetCode E obj =
     (case str_ssl obj of
        None \<Rightarrow> ret None
      | Some s \<Rightarrow> do {
          r \<leftarrow> ext E (Strm (SSL_get_stream_read_error_code s));
          if rc r = 1 then ret (Some (u64 r))
          else do {
            r \<leftarrow> ext E (Strm (SSL_get_stream_write_error_code s));
            if rc r = 1 then ret (Some (u64 r)) else ret None
          }
        })"

definition Quic_Stream_getId :: "'w env \<Rightarrow> php_quic_stream \<Rightarrow> ('w, 64 word outcome) quic" where
  "Quic_Stream_getId E obj =
     (case str_ssl obj of
        None \<Rightarrow> ret (Inl (php_quic_throw ''stream is closed''))
      | Some s \<Rightarrow> do { r \<leftarrow> ext E (Strm (SSL_get_stream_id s)); ret (Inr (u64 r)) })"

definition Quic_Stream_isBidirectional :: "'w env \<Rightarrow> php_quic_stream \<Rightarrow> ('w, bool) quic" where
  "Quic_Stream_isBidirectional E obj =
     (case str_ssl obj of
        None \<Rightarrow> ret False
      | Some s \<Rightarrow> do {
          r \<leftarrow> ext E (Strm (SSL_get_stream_type s)); ret (rc r = SSL_STREAM_TYPE_BIDI) })"

definition Quic_Stream_getConnection :: "php_quic_stream \<Rightarrow> nat outcome" where
  "Quic_Stream_getConnection obj =
     (case str_connection obj of
        None \<Rightarrow> Inl (php_quic_throw ''stream is not associated with a connection'')
      | Some c \<Rightarrow> Inr c)"

subsection \<open>The php_stream view\<close>

text \<open>
  \<open>stream->abstract\<close> is the identity of the stream object or NULL; \<open>deref\<close> reads the object
  store.
\<close>

record php_stream =
  ps_abstract :: "nat option"
  ps_eof :: bool

datatype castas = AS_STDIO | AS_FD | AS_SOCKETD | AS_FD_FOR_SELECT

definition Quic_Stream_asStream ::
  "'w env \<Rightarrow> nat \<Rightarrow> php_quic_stream \<Rightarrow> ('w, php_stream outcome) quic" where
  "Quic_Stream_asStream E self obj =
     (if str_ssl obj = None then ret (Inl (php_quic_throw ''stream is closed''))
      else do {
        r \<leftarrow> ext E (Strm php_stream_alloc);
        case ptr r of
          None \<Rightarrow> ret (Inl (php_quic_throw ''failed to allocate stream''))
        | Some _ \<Rightarrow> ret (Inr \<lparr>ps_abstract = Some self, ps_eof = False\<rparr>)
      })"

definition abstract_ssl :: "(nat \<Rightarrow> php_quic_stream) \<Rightarrow> php_stream \<Rightarrow> nat option" where
  "abstract_ssl deref stream = Option.bind (ps_abstract stream) (\<lambda>p. str_ssl (deref p))"

definition quic_stream_op_write ::
  "'w env \<Rightarrow> (nat \<Rightarrow> php_quic_stream) \<Rightarrow> php_stream \<Rightarrow> string \<Rightarrow> ('w, int) quic" where
  "quic_stream_op_write E deref stream buf =
     (case abstract_ssl deref stream of
        None \<Rightarrow> ret (-1)
      | Some s \<Rightarrow> do {
          r \<leftarrow> ext E (Strm (SSL_write_ex2 s buf 0));
          if rc r = 1 then ret (sint (u64 r))
          else do {
            err \<leftarrow> ext E (Ssl (SSL_get_error s (rc r)));
            if rc err = SSL_ERROR_WANT_READ \<or> rc err = SSL_ERROR_WANT_WRITE then ret 0
            else ret (-1)
          }
        })"

text \<open>The result, the bytes left in \<open>buf\<close>, and the stream with its \<open>eof\<close> flag.\<close>

definition quic_stream_op_read ::
  "'w env \<Rightarrow> (nat \<Rightarrow> php_quic_stream) \<Rightarrow> php_stream \<Rightarrow> nat \<Rightarrow>
     ('w, int \<times> string \<times> php_stream) quic" where
  "quic_stream_op_read E deref stream n =
     (case abstract_ssl deref stream of
        None \<Rightarrow> ret (-1, [], stream)
      | Some s \<Rightarrow> do {
          r \<leftarrow> ext E (Strm (SSL_read_ex s n));
          if rc r = 1 then ret (int (length (bytes r)), bytes r, stream)
          else do {
            err \<leftarrow> ext E (Ssl (SSL_get_error s (rc r)));
            if rc err = SSL_ERROR_WANT_READ \<or> rc err = SSL_ERROR_WANT_WRITE
            then ret (0, [], stream)
            else if rc err = SSL_ERROR_ZERO_RETURN then ret (0, [], stream\<lparr>ps_eof := True\<rparr>)
            else ret (-1, [], stream\<lparr>ps_eof := True\<rparr>)
          }
        })"

text \<open>Closing hands back the object whose reference the caller must now drop.\<close>

definition quic_stream_op_close :: "php_stream \<Rightarrow> int \<times> nat option \<times> php_stream" where
  "quic_stream_op_close stream =
     (case ps_abstract stream of
        None \<Rightarrow> (0, None, stream)
      | Some p \<Rightarrow> (0, Some p, stream\<lparr>ps_abstract := None\<rparr>))"

definition quic_stream_op_flush :: "php_stream \<Rightarrow> int" where
  "quic_stream_op_flush stream = 0"

text \<open>\<open>None\<close> is FAILURE; on SUCCESS, what is stored through \<open>ret\<close> when it is not NULL.\<close>

definition quic_stream_op_cast ::
  "(nat \<Rightarrow> php_quic_stream) \<Rightarrow> (nat \<Rightarrow> php_quic_connection) \<Rightarrow> php_stream \<Rightarrow> castas \<Rightarrow> bool \<Rightarrow>
     int option option" where
  "quic_stream_op_cast deref deref_conn stream how want_ret =
     (case Option.bind (ps_abstract stream) (\<lambda>p. str_connection (deref p)) of
        None \<Rightarrow> None
      | Some c \<Rightarrow>
          if how \<in> {AS_FD, AS_FD_FOR_SELECT, AS_SOCKETD} then
            if conn_fd (deref_conn c) = -1 then None
            else Some (if want_ret then Some (conn_fd (deref_conn c)) else None)
          else None)"

text \<open>The table; a NULL operation is \<open>None\<close>.\<close>

record 'w php_stream_ops =
  sop_write :: "'w env \<Rightarrow> (nat \<Rightarrow> php_quic_stream) \<Rightarrow> php_stream \<Rightarrow> string \<Rightarrow> ('w, int) quic"
  sop_read :: "'w env \<Rightarrow> (nat \<Rightarrow> php_quic_stream) \<Rightarrow> php_stream \<Rightarrow> nat \<Rightarrow>
    ('w, int \<times> string \<times> php_stream) quic"
  sop_close :: "php_stream \<Rightarrow> int \<times> nat option \<times> php_stream"
  sop_flush :: "php_stream \<Rightarrow> int"
  sop_label :: string
  sop_seek :: "(php_stream \<Rightarrow> int \<Rightarrow> int) option"
  sop_cast :: "(nat \<Rightarrow> php_quic_stream) \<Rightarrow> (nat \<Rightarrow> php_quic_connection) \<Rightarrow> php_stream \<Rightarrow> castas \<Rightarrow>
    bool \<Rightarrow> int option option"
  sop_stat :: "(php_stream \<Rightarrow> int) option"
  sop_set_option :: "(php_stream \<Rightarrow> int \<Rightarrow> int) option"

definition quic_php_stream_ops :: "'w php_stream_ops" where
  "quic_php_stream_ops = \<lparr>
     sop_write = quic_stream_op_write,
     sop_read = quic_stream_op_read,
     sop_close = quic_stream_op_close,
     sop_flush = quic_stream_op_flush,
     sop_label = ''quic_stream'',
     sop_seek = None,
     sop_cast = quic_stream_op_cast,
     sop_stat = None,
     sop_set_option = None\<rparr>"

subsection \<open>Ownership\<close>

interpretation streams: handle_owner quic_stream_create quic_stream_free res_stream quic_stream_get_gc
proof unfold_locales
  show "res_stream quic_stream_create = {#}" and "quic_stream_get_gc quic_stream_create = []"
    by (simp_all add: res_stream_def quic_stream_get_gc_def quic_stream_create_def)
next
  fix E :: "'w env" and x
  show "owns (res_stream x) (quic_stream_free E x) (\<lambda>_. {#})"
    unfolding quic_stream_free_def res_stream_def Let_def
    by (rule owns_bind [OF owns_free_ssl]) (auto intro!: own_rules owns_ret)
  show "yields (\<lambda>(y, d). res_stream y = {#} \<and> quic_stream_get_gc y = [] \<and>
      opt_list d = quic_stream_get_gc x) (quic_stream_free E x)"
    unfolding quic_stream_free_def Let_def
    by (intro yields_rules) (auto simp: res_stream_def quic_stream_get_gc_def)
qed

lemma init_object_owns: "res_stream (php_quic_stream_init_object s c) = {#RSsl s#}"
  by (simp add: php_quic_stream_init_object_def res_stream_def)

text \<open>A constructor that fails leaves the object as it was; one that succeeds owns the stream.\<close>

lemma owns_stream_construct:
  "owns (res_stream obj + opt_res RSsl (conn_ssl conn))
     (Quic_Stream_construct E obj c conn bidi)
     (\<lambda>(_, obj'). res_stream obj' + opt_res RSsl (conn_ssl conn))"
  unfolding Quic_Stream_construct_def res_stream_def
  by (auto intro!: own_rules owns_ret owns_keeps_call [OF owns_throw_ssl]
      simp: throw_ssl_def State_Monad.bind_assoc)

lemma stream_construct_result:
  "yields (\<lambda>(out, obj'). obj' = obj \<and> isl out \<or>
       (str_ssl obj = None \<and> conn_ssl conn \<noteq> None \<and> (\<exists>s. obj' = obj\<lparr>str_ssl := Some s, str_connection := Some c\<rparr>) \<and>
        out = Inr ()))
     (Quic_Stream_construct E obj c conn bidi)"
  unfolding Quic_Stream_construct_def
  by (intro yields_rules yields_call [OF yields_throw [of isl]]) auto

lemma owns_stream_write [own_specs]: "keeps (res_stream obj) (Quic_Stream_write E obj data fin)"
  unfolding Quic_Stream_write_def res_stream_def
  by (auto intro!: own_rules owns_ret)

lemma owns_stream_end [own_specs]: "keeps (res_stream obj) (Quic_Stream_end E obj)"
  unfolding Quic_Stream_end_def res_stream_def by (auto intro!: own_rules owns_ret)

lemma owns_stream_reset [own_specs]: "keeps (res_stream obj) (Quic_Stream_reset E obj code)"
  unfolding Quic_Stream_reset_def res_stream_def by (auto intro!: own_rules owns_ret)

lemma owns_stream_queries [own_specs]:
  "keeps (res_stream obj) (Quic_Stream_getResetCode E obj)"
  "keeps (res_stream obj) (Quic_Stream_getId E obj)"
  "keeps (res_stream obj) (Quic_Stream_isBidirectional E obj)"
  "keeps (res_stream obj) (Quic_Stream_asStream E self obj)"
  unfolding Quic_Stream_getResetCode_def Quic_Stream_getId_def Quic_Stream_isBidirectional_def
    Quic_Stream_asStream_def res_stream_def
  by (auto intro!: own_rules owns_ret)

lemma owns_op_write [own_specs]:
  "keeps (opt_res RSsl (abstract_ssl deref ps)) (quic_stream_op_write E deref ps buf)"
  unfolding quic_stream_op_write_def by (auto intro!: own_rules owns_ret)

lemma owns_op_read [own_specs]:
  "keeps (opt_res RSsl (abstract_ssl deref ps)) (quic_stream_op_read E deref ps n)"
  unfolding quic_stream_op_read_def by (auto intro!: own_rules owns_ret)

subsection \<open>The read loop ends\<close>

lemma read_loop_returns:
  assumes "0 < fuel" and "want \<le> cap * 2 ^ (fuel - 1)"
  shows "yields (\<lambda>x. fst x \<noteq> None) (read_loop fuel E s want blocking buf cap data)"
  using assms
proof (induction fuel arbitrary: buf cap data)
  case (Suc fuel)
  have next_cap: "0 < fuel \<and> want \<le> (if cap \<le> want div 2 then cap * 2 else want) * 2 ^ (fuel - 1)"
    if "cap < want"
  proof (cases fuel)
    case 0
    then show ?thesis using Suc.prems that by simp
  next
    case (Suc m)
    then show ?thesis using Suc.prems by (auto simp: mult_ac)
  qed
  show ?case
    using Suc.IH next_cap by (auto simp: Let_def intro!: yields_rules)
qed simp

lemma read_rounds_enough:
  assumes "0 < sint (len :: 64 word)"
  shows "unat len \<le> read_cap (unat len) * 2 ^ (READ_ROUNDS - 1)"
proof -
  have "sint len < 2 ^ 63" using sint_lt [of len] by simp
  then have "unat len < 2 ^ 63" using assms by (simp add: unat_nonneg_64 nat_less_iff)
  then show ?thesis by (simp add: READ_ROUNDS_def read_cap_def)
qed

lemma read_cap:
  assumes "0 < sint (len :: 64 word)"
  shows "0 < read_cap (unat len)" and "read_cap (unat len) \<le> unat len"
  using assms by (simp_all add: read_cap_def unat_nonneg_64)

lemma read_loop_first:
  "read_loop READ_ROUNDS E s want blocking buf cap data = read_loop (Suc 47) E s want blocking buf cap data"
  by (simp add: READ_ROUNDS_def)

lemma read_loop_some:
  assumes "0 < sint (len :: 64 word)"
  shows "yields (\<lambda>x. fst x \<noteq> None)
    (read_loop READ_ROUNDS E s (unat len) blocking buf (read_cap (unat len)) [])"
  by (rule read_loop_returns [OF _ read_rounds_enough [OF assms]]) (simp add: READ_ROUNDS_def)

subsection \<open>The string of a read\<close>

text \<open>The string is freed or handed to PHP on every path, wherever \<open>zend_string_realloc\<close> moves it.\<close>

lemma owns_read_loop:
  "owns {#RStr buf, RSsl s#} (read_loop fuel E s want blocking buf cap data) (\<lambda>(_, b). {#RStr b, RSsl s#})"
  by (induction fuel arbitrary: buf cap data) (auto simp: Let_def intro!: own_rules owns_ret)

lemma owns_read_result: "owns {#RStr buf, RSsl s#} (read_result E s buf data l) (\<lambda>_. {#RSsl s#})"
  unfolding read_result_def by (auto intro!: own_rules owns_ret)

lemma owns_stream_read [own_specs]: "keeps (res_stream obj) (Quic_Stream_read E obj len)"
proof (cases "0 < sint len \<and> str_ssl obj \<noteq> None")
  case True
  then obtain s where s: "str_ssl obj = Some s" and len: "0 < sint len" "\<not> sint len \<le> 0" by auto
  have loop: "owns {#RStr buf, RSsl s#} (do {
      (l, buf) \<leftarrow> read_loop READ_ROUNDS E s (unat len) blocking buf (read_cap (unat len)) [];
      case l of None \<Rightarrow> ret None
      | Some (data, last_rc) \<Rightarrow> do { x \<leftarrow> read_result E s buf data last_rc; ret (Some x) } })
      (\<lambda>_. {#RSsl s#})" for blocking buf
    by (rule owns_yields_call [OF owns_read_loop read_loop_some [OF len(1)]])
      (auto intro!: owns_bind [OF owns_read_result] owns_ret)
  show ?thesis
    unfolding Quic_Stream_read_def if_not_P [OF len(2)] s res_stream_def option.case opt_res_simps
    by (auto intro!: owns_bind_ext loop)
next
  case False
  then show ?thesis by (auto simp: Quic_Stream_read_def intro: owns_ret)
qed


subsection \<open>The buffer is never overrun\<close>

text \<open>
  The string a trace (newest call first) has allocated last: where it is, its capacity, and how
  much of it \<open>SSL_read_ex\<close> has filled.
\<close>

fun buffer :: "(call \<times> reply) list \<Rightarrow> (nat \<times> nat \<times> nat) option" where
  "buffer [] = None"
| "buffer ((Mem (zend_string_alloc n), r) # tr) = Some (hnd r, n, 0)"
| "buffer ((Mem (zend_string_realloc p n), r) # tr) =
     (case buffer tr of
        Some (q, cap, k) \<Rightarrow> if q = p then Some (hnd r, n, min k n) else None
      | None \<Rightarrow> None)"
| "buffer ((Strm (SSL_read_ex s n), r) # tr) =
     (case buffer tr of
        Some (q, cap, k) \<Rightarrow> Some (q, cap, if rc r = 1 then k + length (bytes r) else k)
      | None \<Rightarrow> None)"
| "buffer (_ # tr) = buffer tr"

text \<open>
  Every read of the trace is on the stream \<open>ssl\<close>, into a string with that much room left, and the
  string is never larger than \<open>want\<close>.
\<close>

fun room_ok :: "nat option \<Rightarrow> nat \<Rightarrow> (call \<times> reply) list \<Rightarrow> bool" where
  "room_ok ssl want [] = True"
| "room_ok ssl want ((Strm (SSL_read_ex s n), r) # tr) =
     (ssl = Some s \<and> 0 < n \<and>
      (case buffer tr of Some (q, cap, k) \<Rightarrow> k + n \<le> cap \<and> cap \<le> want | None \<Rightarrow> False) \<and>
      room_ok ssl want tr)"
| "room_ok ssl want (_ # tr) = room_ok ssl want tr"

lemma read_loop_room:
  assumes "length data < cap" and "cap \<le> want" and "trace w = t @ tr"
    and "buffer t = Some (buf, cap, length data)" and "room_ok (Some s) want t"
  shows "\<exists>t. trace (snd (run_state (read_loop fuel E s want blocking buf cap data) w)) = t @ tr \<and>
    room_ok (Some s) want t"
  using assms
proof (induction fuel arbitrary: buf cap data w t)
  case (Suc fuel)
  obtain r e where x: "extern E (engine w) (Strm (SSL_read_ex s (cap - length data))) = (r, e)"
    by fastforce
  let ?t = "(Strm (SSL_read_ex s (cap - length data)), r) # t"
  have ok: "room_ok (Some s) want ?t" using Suc.prems by simp
  show ?case
  proof (cases "rc r = 1 \<and> \<not> (want \<le> length (data @ bytes r) \<or> blocking) \<and>
      length (data @ bytes r) = cap")
    case True
    define newcap where "newcap = (if cap \<le> want div 2 then cap * 2 else want)"
    obtain b e' where b: "extern E e (Mem (zend_string_realloc buf newcap)) = (b, e')"
      by fastforce
    define t2 where "t2 = (Mem (zend_string_realloc buf newcap), b) # ?t"
    define v where "v = w\<lparr>engine := e', trace := t2 @ tr\<rparr>"
    have "length (data @ bytes r) < newcap" "newcap \<le> want"
      using True Suc.prems(1,2) by (auto simp: newcap_def)
    moreover from this have "buffer t2 = Some (hnd b, newcap, length (data @ bytes r))"
      using Suc.prems(4) True by (simp add: t2_def)
    moreover have "room_ok (Some s) want t2" using ok by (simp add: t2_def)
    moreover have "trace v = t2 @ tr" by (simp add: v_def)
    ultimately have "\<exists>t. trace (snd (run_state (read_loop fuel E s want blocking (hnd b) newcap
        (data @ bytes r)) v)) = t @ tr \<and> room_ok (Some s) want t"
      using Suc.IH by blast
    moreover have "run_state (read_loop (Suc fuel) E s want blocking buf cap data) w =
        run_state (read_loop fuel E s want blocking (hnd b) newcap (data @ bytes r)) v"
      using True Suc.prems(3) b
      by (cases "cap \<le> want div 2") (simp_all add: x v_def t2_def Let_def newcap_def)
    ultimately show ?thesis by simp
  next
    case False
    then have "trace (snd (run_state (read_loop (Suc fuel) E s want blocking buf cap data) w)) = ?t @ tr"
      using Suc.prems(3) by (auto simp: x Let_def)
    with ok show ?thesis by blast
  qed
qed auto

fun no_read :: "call \<Rightarrow> bool" where
  "no_read (Strm (SSL_read_ex _ _)) = False"
| "no_read _ = True"

lemma room_ok_append: "list_all (\<lambda>e. no_read (fst e)) u \<Longrightarrow> room_ok ssl want t \<Longrightarrow> room_ok ssl want (u @ t)"
proof (induction u)
  case (Cons e u)
  then show ?case by (cases e; cases "fst e" rule: no_read.cases) auto
qed simp

lemma read_result_no_read: "makes no_read (read_result E s buf data l)"
  unfolding read_result_def by (auto intro!: makes_rules)

subsection \<open>The order of the bytes\<close>

text \<open>
  What OpenSSL documents of \<open>SSL_read_ex\<close>, with \<open>pending\<close> the bytes of the stream the
  application has not taken: a successful read takes a prefix no longer than the room, a
  failed one nothing, and no other call the method makes takes any.
\<close>

definition delivers :: "'w env \<Rightarrow> nat \<Rightarrow> ('w \<Rightarrow> string) \<Rightarrow> bool" where
  "delivers E s pending \<longleftrightarrow>
     (\<forall>w n. let (r, w') = extern E w (Strm (SSL_read_ex s n)) in
        if rc r = 1 then length (bytes r) \<le> n \<and> pending w = bytes r @ pending w'
        else pending w' = pending w) \<and>
     (\<forall>w c. (\<forall>n. c \<noteq> Strm (SSL_read_ex s n)) \<longrightarrow> pending (snd (extern E w c)) = pending w)"

lemma delivers_read:
  assumes "delivers E s pending" and "extern E w (Strm (SSL_read_ex s n)) = (r, w')"
  shows "rc r = 1 \<Longrightarrow> length (bytes r) \<le> n"
    and "rc r = 1 \<Longrightarrow> pending w = bytes r @ pending w'"
    and "rc r \<noteq> 1 \<Longrightarrow> pending w' = pending w"
  using assms unfolding delivers_def
  by (auto simp: Let_def split: prod.splits if_splits dest!: spec [of _ w] spec [of _ n])

lemma delivers_other:
  "delivers E s pending \<Longrightarrow> (\<And>n. c \<noteq> Strm (SSL_read_ex s n)) \<Longrightarrow>
     pending (snd (extern E w c)) = pending w"
  by (simp add: delivers_def)

definition sel_read :: "nat \<Rightarrow> call \<Rightarrow> nat option" where
  "sel_read s c = (case c of Strm (SSL_read_ex x n) \<Rightarrow> if x = s then Some n else None | _ \<Rightarrow> None)"

lemma sel_read_simps [simp]:
  "sel_read s (Strm (SSL_read_ex x n)) = (if x = s then Some n else None)"
  "sel_read s (Strm (SSL_get_stream_read_state x)) = None"
  "sel_read s (Mem m) = None"
  "sel_read s (Ssl c) = None"
  by (simp_all add: sel_read_def)

text \<open>The bytes the reads of a history have delivered.\<close>

fun delivered :: "(nat \<times> reply) list \<Rightarrow> string" where
  "delivered [] = []"
| "delivered ((n, r) # h) = delivered h @ (if rc r = 1 then bytes r else [])"

lemma delivered_append: "delivered (h @ h') = delivered h' @ delivered h"
  by (induction h rule: delivered.induct) auto

text \<open>What the loop returns, by the reads it has made: their bytes, and why it made no other.\<close>

lemma read_loop_history:
  assumes "run_state (read_loop fuel E s want blocking buf cap data) w = ((Some (data', l), b), w')"
    and "length data < cap" and "cap \<le> want"
  shows "\<exists>n r h. history (sel_read s) (trace w') = (n, r) # h @ history (sel_read s) (trace w) \<and>
    data' = data @ delivered ((n, r) # h) \<and> l = rc r \<and>
    (want \<le> length data' \<or> blocking \<or> rc r \<noteq> 1 \<or> length (bytes r) \<noteq> n) \<and>
    (delivers E s pending \<longrightarrow> rc r = 1 \<longrightarrow> length (bytes r) \<le> n)"
  using assms
proof (induction fuel arbitrary: buf cap data w)
  case (Suc fuel)
  obtain r e where x: "extern E (engine w) (Strm (SSL_read_ex s (cap - length data))) = (r, e)"
    by fastforce
  show ?case
  proof (cases "rc r = 1 \<and> \<not> (want \<le> length (data @ bytes r) \<or> blocking) \<and>
      length (data @ bytes r) = cap")
    case True
    define newcap where "newcap = (if cap \<le> want div 2 then cap * 2 else want)"
    obtain c e' where c: "extern E e (Mem (zend_string_realloc buf newcap)) = (c, e')"
      by fastforce
    define v where "v = w\<lparr>engine := e', trace := (Mem (zend_string_realloc buf newcap), c) #
      (Strm (SSL_read_ex s (cap - length data)), r) # trace w\<rparr>"
    have "run_state (read_loop fuel E s want blocking (hnd c) newcap (data @ bytes r)) v =
        ((Some (data', l), b), w')"
      using Suc.prems(1) True c
      by (cases "cap \<le> want div 2") (simp_all add: x v_def Let_def newcap_def)
    moreover have "length (data @ bytes r) < newcap" "newcap \<le> want"
      using True Suc.prems(2,3) by (auto simp: newcap_def)
    ultimately obtain n r' h where "history (sel_read s) (trace w') = (n, r') # h @ history (sel_read s) (trace v)"
      "data' = (data @ bytes r) @ delivered ((n, r') # h)" "l = rc r'"
      "want \<le> length data' \<or> blocking \<or> rc r' \<noteq> 1 \<or> length (bytes r') \<noteq> n"
      "delivers E s pending \<longrightarrow> rc r' = 1 \<longrightarrow> length (bytes r') \<le> n"
      using Suc.IH by blast
    then show ?thesis using True
      by (intro exI [of _ n] exI [of _ r'] exI [of _ "h @ [(cap - length data, r)]"])
        (simp add: v_def delivered_append)
  next
    case False
    then show ?thesis using Suc.prems
      by (intro exI [of _ "cap - length data"] exI [of _ r] exI [of _ "[]"])
        (auto simp: x Let_def dest: delivers_read(1) [OF _ x] split: if_splits)
  qed
qed simp

lemma read_loop_order:
  assumes "delivers E s pending"
    and "run_state (read_loop fuel E s want blocking buf cap data) w = ((Some (data', l), b), w')"
    and "length data < cap" and "cap \<le> want"
  shows "\<exists>got. data' = data @ got \<and> pending (engine w) = got @ pending (engine w') \<and>
    length data' \<le> want"
  using assms(2-)
proof (induction fuel arbitrary: buf cap data w)
  case (Suc fuel)
  obtain r e where x: "extern E (engine w) (Strm (SSL_read_ex s (cap - length data))) = (r, e)"
    by fastforce
  note d = delivers_read [OF assms(1) x]
  show ?case
  proof (cases "rc r = 1 \<and> \<not> (want \<le> length (data @ bytes r) \<or> blocking) \<and>
      length (data @ bytes r) = cap")
    case True
    define newcap where "newcap = (if cap \<le> want div 2 then cap * 2 else want)"
    obtain c e' where c: "extern E e (Mem (zend_string_realloc buf newcap)) = (c, e')"
      by fastforce
    have e': "pending e' = pending e"
      using delivers_other [OF assms(1), of "Mem (zend_string_realloc buf newcap)" e] c by simp
    define v where "v = w\<lparr>engine := e', trace := (Mem (zend_string_realloc buf newcap), c) #
      (Strm (SSL_read_ex s (cap - length data)), r) # trace w\<rparr>"
    have "run_state (read_loop fuel E s want blocking (hnd c) newcap (data @ bytes r)) v =
        ((Some (data', l), b), w')"
      using Suc.prems(1) True c
      by (cases "cap \<le> want div 2") (simp_all add: x v_def Let_def newcap_def)
    moreover have "length (data @ bytes r) < newcap" "newcap \<le> want"
      using True Suc.prems(2,3) by (auto simp: newcap_def)
    ultimately obtain got where "data' = (data @ bytes r) @ got"
      "pending (engine v) = got @ pending (engine w')" "length data' \<le> want"
      using Suc.IH by blast
    then show ?thesis using d(2) True e' by (intro exI [of _ "bytes r @ got"]) (simp add: v_def)
  next
    case False
    then have "(rc r \<noteq> 1 \<and> data' = data \<or> rc r = 1 \<and> data' = data @ bytes r) \<and> engine w' = e"
      using Suc.prems(1) by (auto simp: x Let_def split: if_splits)
    then have "\<exists>got. data' = data @ got \<and> pending (engine w) = got @ pending (engine w') \<and>
        length got \<le> cap - length data"
      using d by (elim conjE disjE) (rule exI [of _ "[]"], simp, rule exI [of _ "bytes r"], simp)
    then show ?thesis using Suc.prems(2,3) by (elim exE conjE) simp
  qed
qed simp

subsection \<open>The method read\<close>

text \<open>A read with a positive length on an open stream, as its loop and what follows it.\<close>

lemma run_read:
  assumes "0 < sint len" and "str_ssl obj = Some s"
    and "run_state (Quic_Stream_read E obj len) w = (x, w')"
  obtains a u0 b u data l buf v y where
    "run_state (ext E (Mem (zend_string_alloc (read_cap (unat len))))) w = (a, u0)"
    and "run_state (ext E (Ssl (SSL_get_blocking_mode s))) u0 = (b, u)"
    and "run_state (read_loop READ_ROUNDS E s (unat len) (rc b \<noteq> 0) (hnd a) (read_cap (unat len)) []) u =
      ((Some (data, l), buf), v)"
    and "run_state (read_result E s buf data l) v = (y, w')" and "x = Some y"
proof -
  obtain a u0 where a: "run_state (ext E (Mem (zend_string_alloc (read_cap (unat len))))) w = (a, u0)"
    by fastforce
  obtain b u where b: "run_state (ext E (Ssl (SSL_get_blocking_mode s))) u0 = (b, u)"
    by fastforce
  let ?l = "read_loop READ_ROUNDS E s (unat len) (rc b \<noteq> 0) (hnd a) (read_cap (unat len)) []"
  obtain data l buf v where l: "run_state ?l u = ((Some (data, l), buf), v)"
    by (metis option.exhaust surj_pair fst_conv yieldsD [OF read_loop_some [OF assms(1)]])
  have "\<not> sint len \<le> 0" using assms(1) by simp
  note run = assms(3) [unfolded Quic_Stream_read_def if_not_P [OF this] assms(2) option.case
      State_Monad.run_state_bind a b prod.case l]
  show thesis
    by (rule that [OF a b l, of "fst (run_state (read_result E s buf data l) v)"])
      (use run in \<open>auto split: prod.splits\<close>)
qed

definition received :: "string option outcome option \<Rightarrow> string" where
  "received x = (case x of Some (Inr (Some d)) \<Rightarrow> d | _ \<Rightarrow> [])"

lemma read_result_keeps_pending:
  assumes "delivers E s pending" and "run_state (read_result E s buf data l) w = (y, w')"
  shows "pending (engine w') = pending (engine w)" and "received (Some y) = data"
  using assms(2)
  by (auto simp: read_result_def received_def delivers_other [OF assms(1)] throw_ssl_def
      php_quic_throw_ssl_def Let_def split: if_splits prod.splits option.splits sum.splits)

text \<open>The reads of the method are those of its loop.\<close>

lemma read_history:
  assumes "0 < sint len" and "str_ssl obj = Some s"
    and "run_state (Quic_Stream_read E obj len) w = (x, w')"
  obtains n r h buf l v y b u where
    "history (sel_read s) (trace w') = (n, r) # h @ history (sel_read s) (trace w)"
    and "run_state (read_result E s buf (delivered ((n, r) # h)) l) v = (y, w')" and "x = Some y"
    and "unat len \<le> length (delivered ((n, r) # h)) \<or> rc b \<noteq> 0 \<or> rc r \<noteq> 1 \<or> length (bytes r) \<noteq> n"
    and "delivers E s pending \<longrightarrow> rc r = 1 \<longrightarrow> length (bytes r) \<le> n"
    and "run_state (ext E (Mem (zend_string_alloc (read_cap (unat len)))) \<bind>
      (\<lambda>_. ext E (Ssl (SSL_get_blocking_mode s)))) w = (b, u)"
proof -
  from run_read [OF assms] obtain a u0 b u data l buf v y where
    a: "run_state (ext E (Mem (zend_string_alloc (read_cap (unat len))))) w = (a, u0)"
    and b: "run_state (ext E (Ssl (SSL_get_blocking_mode s))) u0 = (b, u)"
    and l: "run_state (read_loop READ_ROUNDS E s (unat len) (rc b \<noteq> 0) (hnd a) (read_cap (unat len)) []) u =
      ((Some (data, l), buf), v)"
    and y: "run_state (read_result E s buf data l) v = (y, w')" "x = Some y"
    by metis
  have "length [] < read_cap (unat len)" using read_cap(1) [OF assms(1)] by simp
  from read_loop_history [OF l this read_cap(2) [OF assms(1)], of pending] obtain n r h where
    h: "history (sel_read s) (trace v) = (n, r) # h @ history (sel_read s) (trace u)"
    and d: "data = [] @ delivered ((n, r) # h)"
    and stop: "unat len \<le> length data \<or> rc b \<noteq> 0 \<or> rc r \<noteq> 1 \<or> length (bytes r) \<noteq> n"
    and fits: "delivers E s pending \<longrightarrow> rc r = 1 \<longrightarrow> length (bytes r) \<le> n"
    by blast
  from d have d: "data = delivered ((n, r) # h)" by simp
  have "history (sel_read s) (trace u) = history (sel_read s) (trace w)"
    using a b by auto
  moreover have "history (sel_read s) (trace w') = history (sel_read s) (trace v)"
    by (rule history_kept [OF read_result_no_read _ y(1)])
      (auto simp: sel_read_def split: call.splits stream_call.splits)
  ultimately have h': "history (sel_read s) (trace w') = (n, r) # h @ history (sel_read s) (trace w)"
    using h by simp
  have b': "run_state (ext E (Mem (zend_string_alloc (read_cap (unat len)))) \<bind>
      (\<lambda>_. ext E (Ssl (SSL_get_blocking_mode s)))) w = (b, u)"
    using a b by auto
  show thesis using that [OF h' y(1) [unfolded d] y(2) stop [unfolded d] fits b'] .
qed

subsection \<open>What the methods do\<close>

text \<open>
  Reading always comes back: whatever the peer and OpenSSL answer, the loop of
  \<open>Quic\Stream::read\<close> ends after at most 48 reads and the method returns or throws.
\<close>

lemma read_returns: "fst (run_state (Quic_Stream_read E obj len) w) \<noteq> None"
proof (cases "0 < sint len \<and> str_ssl obj \<noteq> None")
  case True
  then obtain s where "str_ssl obj = Some s" by auto
  then show ?thesis using True by (metis prod.collapse run_read option.distinct(1))
next
  case False
  then show ?thesis by (auto simp: Quic_Stream_read_def)
qed

fun read_may_call :: "php_quic_stream \<Rightarrow> call \<Rightarrow> bool" where
  "read_may_call obj (Strm (SSL_read_ex s _)) = (str_ssl obj = Some s)"
| "read_may_call obj (Strm (SSL_get_stream_read_state s)) = (str_ssl obj = Some s)"
| "read_may_call obj (Ssl (SSL_get_blocking_mode s)) = (str_ssl obj = Some s)"
| "read_may_call obj (Ssl (SSL_get_error s _)) = (str_ssl obj = Some s)"
| "read_may_call obj (Mem (zend_string_alloc _)) = True"
| "read_may_call obj (Mem (zend_string_realloc _ _)) = True"
| "read_may_call obj (Mem (zend_string_truncate _ _)) = True"
| "read_may_call obj (Mem (zend_string_efree _)) = True"
| "read_may_call obj (Mem (RETURN_STR _)) = True"
| "read_may_call obj (Err _) = True"
| "read_may_call obj _ = False"

lemma makes_read_loop:
  "str_ssl obj = Some s \<Longrightarrow> makes (read_may_call obj) (read_loop fuel E s want blocking buf cap data)"
  by (induction fuel arbitrary: buf cap data) (auto simp: Let_def intro!: makes_rules)

lemma makes_read: "makes (read_may_call obj) (Quic_Stream_read E obj len)"
  unfolding Quic_Stream_read_def read_result_def
  by (auto intro!: makes_rules makes_read_loop)

text \<open>
  C17. The buffer is never overrun and never handed over full: replaying the allocations of the
  string and the bytes received, every \<open>SSL_read_ex\<close> of the method asks for at least one byte and
  for no more than the string has room for behind the bytes it holds, and the string never gets
  larger than the requested length; every call is on the object's own stream, and the method writes
  nothing, concludes nothing and resets nothing.
\<close>

theorem read_room:
  "\<exists>t. trace (snd (run_state (Quic_Stream_read E obj len) w)) = t @ trace w \<and>
    room_ok (str_ssl obj) (nat (sint len)) t \<and> list_all (\<lambda>e. read_may_call obj (fst e)) t"
proof (cases "0 < sint len \<and> str_ssl obj \<noteq> None")
  case True
  then obtain s where s: "str_ssl obj = Some s" and len: "0 < sint len" by auto
  obtain x w' where x: "run_state (Quic_Stream_read E obj len) w = (x, w')" by fastforce
  from run_read [OF len s x] obtain a u0 b u data l buf v y where
    a: "run_state (ext E (Mem (zend_string_alloc (read_cap (unat len))))) w = (a, u0)"
    and b: "run_state (ext E (Ssl (SSL_get_blocking_mode s))) u0 = (b, u)"
    and l: "run_state (read_loop READ_ROUNDS E s (unat len) (rc b \<noteq> 0) (hnd a) (read_cap (unat len)) []) u =
      ((Some (data, l), buf), v)"
    and y: "run_state (read_result E s buf data l) v = (y, w')"
    by metis
  let ?t = "[(Ssl (SSL_get_blocking_mode s), b), (Mem (zend_string_alloc (read_cap (unat len))), a)]"
  have "trace u = ?t @ trace w" using a b by auto
  from read_loop_room [OF _ read_cap(2) [OF len] this, of "[]" "hnd a" s READ_ROUNDS E "rc b \<noteq> 0"]
  obtain t where t: "trace v = t @ trace w" "room_ok (Some s) (unat len) t"
    using read_cap(1) [OF len] by (auto simp: l)
  obtain t' where t': "trace w' = t' @ trace v" "list_all (\<lambda>e. no_read (fst e)) t'"
    using makesD [OF read_result_no_read y] by metis
  obtain t'' where t'': "trace w' = t'' @ trace w" "list_all (\<lambda>e. read_may_call obj (fst e)) t''"
    using makesD [OF makes_read x] by metis
  have "t'' = t' @ t" using t(1) t'(1) t''(1) by simp
  then show ?thesis
    using room_ok_append [OF t'(2) t(2)] t'' x s len by (simp add: unat_nonneg_64)
next
  case False
  then show ?thesis by (auto simp: Quic_Stream_read_def)
qed

lemma read_conserves:
  assumes "delivers E s pending" and "str_ssl obj = Some s" and "0 < sint len"
    and "run_state (Quic_Stream_read E obj len) w = (x, w')"
  shows "pending (engine w) = received x @ pending (engine w')"
    and "length (received x) \<le> nat (sint len)"
proof -
  from run_read [OF assms(3,2,4)] obtain a u0 b u data l buf v y where
    a: "run_state (ext E (Mem (zend_string_alloc (read_cap (unat len))))) w = (a, u0)"
    and b: "run_state (ext E (Ssl (SSL_get_blocking_mode s))) u0 = (b, u)"
    and l: "run_state (read_loop READ_ROUNDS E s (unat len) (rc b \<noteq> 0) (hnd a) (read_cap (unat len)) []) u =
      ((Some (data, l), buf), v)"
    and y: "run_state (read_result E s buf data l) v = (y, w')" "x = Some y"
    by metis
  have "pending (engine u) = pending (engine w)"
    using a b by (auto simp: delivers_other [OF assms(1)])
  moreover have "pending (engine u) = data @ pending (engine v)" "length data \<le> unat len"
    using read_loop_order [OF assms(1) l] read_cap [OF assms(3)] by auto
  moreover have "unat len = nat (sint len)" using assms(3) by (simp add: unat_nonneg_64)
  ultimately show "pending (engine w) = received x @ pending (engine w')"
    and "length (received x) \<le> nat (sint len)"
    using read_result_keeps_pending [OF assms(1) y(1)] y(2) by simp_all
qed

text \<open>
  C15. No byte is lost, repeated or reordered: what \<open>read\<close> returns, followed by what is still
  pending, is what was pending before, and no more than the requested length is returned.
\<close>

theorem read_in_order:
  assumes "delivers E s pending" and "str_ssl obj = Some s"
    and "run_state (Quic_Stream_read E obj len) w = (x, w')"
  shows "pending (engine w) = received x @ pending (engine w') \<and>
    length (received x) \<le> nat (sint len)"
proof (cases "0 < sint len")
  case True
  then show ?thesis using read_conserves [OF assms(1,2) _ assms(3)] by blast
next
  case False
  then show ?thesis using assms(2,3) by (auto simp: Quic_Stream_read_def received_def)
qed

text \<open>
  The witnesses' engine: stream 7 is a queue of bytes, a read with room \<open>n\<close> takes up to
  \<open>limit n\<close> of them.
\<close>

definition queue_env :: "(nat \<Rightarrow> nat) \<Rightarrow> bool \<Rightarrow> string env" where
  "queue_env limit blocking = answering (\<lambda>q c. case c of
     Strm (SSL_read_ex s n) \<Rightarrow>
       if s \<noteq> 7 \<or> q = [] then (no_reply, q)
       else (no_reply\<lparr>rc := 1, bytes := take (limit n) q\<rparr>, drop (limit n) q)
   | Ssl (SSL_get_blocking_mode s) \<Rightarrow> (no_reply\<lparr>rc := (if blocking then 1 else 0)\<rparr>, q)
   | Ssl (SSL_get_error s e) \<Rightarrow> (no_reply\<lparr>rc := SSL_ERROR_WANT_READ\<rparr>, q)
   | _ \<Rightarrow> (no_reply, q))"

lemma queue_env_simps [simp]:
  "extern (queue_env limit blocking) q (Strm (SSL_read_ex 7 n)) =
     (if q = [] then (no_reply, q)
      else (no_reply\<lparr>rc := 1, bytes := take (limit n) q\<rparr>, drop (limit n) q))"
  "extern (queue_env limit blocking) q (Ssl (SSL_get_blocking_mode s)) =
     (no_reply\<lparr>rc := (if blocking then 1 else 0)\<rparr>, q)"
  "extern (queue_env limit blocking) q (Ssl (SSL_get_error s e)) =
     (no_reply\<lparr>rc := SSL_ERROR_WANT_READ\<rparr>, q)"
  "extern (queue_env limit blocking) q (Mem c) = (no_reply, q)"
  by (simp_all add: queue_env_def)

lemma queue_env_delivers:
  assumes "\<And>n. limit n \<le> n"
  shows "delivers (queue_env limit blocking) 7 (\<lambda>q. q)"
  unfolding delivers_def queue_env_def using assms
  by (auto simp: Let_def no_reply_def min_le_iff_disj split: call.splits stream_call.splits ssl_call.splits)

lemma read_in_order_witness:
  "\<exists>x w'. run_state (Quic_Stream_read (queue_env (min 2) False) (php_quic_stream_init_object 7 1) 3)
      \<lparr>engine = ''abcd'', trace = []\<rparr> = (x, w') \<and> received x = ''ab'' \<and>
    ''abcd'' = received x @ engine w' \<and> length (received x) \<le> 3"
proof -
  let ?o = "php_quic_stream_init_object 7 1" and ?w = "\<lparr>engine = ''abcd'', trace = []\<rparr>"
  obtain x w' where r: "run_state (Quic_Stream_read (queue_env (min 2) False) ?o 3) ?w = (x, w')"
    by fastforce
  have "str_ssl ?o = Some 7" by (simp add: php_quic_stream_init_object_def quic_stream_create_def)
  from read_in_order [OF queue_env_delivers this r]
  have "''abcd'' = received x @ engine w' \<and> length (received x) \<le> 3" by simp
  moreover have "received x = ''ab''"
    using r by (auto simp: Quic_Stream_read_def read_loop_first [unfolded read_loop.simps] php_quic_stream_init_object_def
        quic_stream_create_def read_cap_def read_result_def received_def)
  ultimately show ?thesis using r by blast
qed

text \<open>
  C16. In non-blocking mode \<open>read\<close> goes on as long as there is reason to: it returns fewer bytes than
  asked for only when the last \<open>SSL_read_ex\<close> it made failed or gave less than the room it was
  offered, however often the buffer had to grow; it never stops because the buffer is full.
\<close>

theorem read_until_short:
  assumes "delivers E s pending" and "str_ssl obj = Some s" and "0 < sint len"
    and "\<And>v. rc (fst (extern E v (Ssl (SSL_get_blocking_mode s)))) = 0"
    and "run_state (Quic_Stream_read E obj len) w = (x, w')"
  shows "length (received x) = nat (sint len) \<or>
    length (received x) < nat (sint len) \<and>
    (\<exists>n r h. history (sel_read s) (trace w') = (n, r) # h @ history (sel_read s) (trace w) \<and>
      received x = delivered ((n, r) # h) \<and> (rc r \<noteq> 1 \<or> length (bytes r) < n))"
proof -
  from read_history [OF assms(3,2,5), of pending] obtain n r h buf l v y b u where
    h: "history (sel_read s) (trace w') = (n, r) # h @ history (sel_read s) (trace w)"
    and y: "run_state (read_result E s buf (delivered ((n, r) # h)) l) v = (y, w')" "x = Some y"
    and stop: "unat len \<le> length (delivered ((n, r) # h)) \<or> rc b \<noteq> 0 \<or> rc r \<noteq> 1 \<or> length (bytes r) \<noteq> n"
    and fits: "delivers E s pending \<longrightarrow> rc r = 1 \<longrightarrow> length (bytes r) \<le> n"
    and b: "run_state (ext E (Mem (zend_string_alloc (read_cap (unat len)))) \<bind>
      (\<lambda>_. ext E (Ssl (SSL_get_blocking_mode s)))) w = (b, u)"
    by metis
  have rec: "received x = delivered ((n, r) # h)"
    using read_result_keeps_pending(2) [OF assms(1) y(1)] y(2) by simp
  have "rc b = 0" using b assms(4) by (auto split: prod.splits)
  moreover have "length (received x) \<le> nat (sint len)"
    using read_conserves(2) [OF assms(1-3,5)] .
  ultimately show ?thesis
    using stop fits rec h assms(1,3) by (fastforce simp: unat_nonneg_64)
qed

lemma read_until_short_witness:
  "let r = run_state (Quic_Stream_read (queue_env (min 2) False) (php_quic_stream_init_object 7 1) 3)
      \<lparr>engine = ''abcd'', trace = []\<rparr>
   in received (fst r) = ''ab'' \<and>
     (\<exists>n a h. history (sel_read 7) (trace (snd r)) = (n, a) # h \<and>
       received (fst r) = delivered ((n, a) # h) \<and> (rc a \<noteq> 1 \<or> length (bytes a) < n))"
proof -
  let ?o = "php_quic_stream_init_object 7 1" and ?w = "\<lparr>engine = ''abcd'', trace = []\<rparr>"
  obtain x w' where r: "run_state (Quic_Stream_read (queue_env (min 2) False) ?o 3) ?w = (x, w')"
    by fastforce
  have o: "str_ssl ?o = Some 7" by (simp add: php_quic_stream_init_object_def quic_stream_create_def)
  have "received x = ''ab''"
    using r by (auto simp: Quic_Stream_read_def read_loop_first [unfolded read_loop.simps] php_quic_stream_init_object_def
        quic_stream_create_def read_cap_def read_result_def received_def)
  then show ?thesis
    using read_until_short [OF queue_env_delivers o _ _ r] unfolding r Let_def by force
qed

text \<open>The last thing asked was why the read failed, and the answer was: nothing is there yet.\<close>

definition wants_more :: "(call \<times> reply) list \<Rightarrow> bool" where
  "wants_more tr = (case tr of
     (Ssl (SSL_get_error _ _), r) # _ \<Rightarrow> rc r = SSL_ERROR_WANT_READ \<or> rc r = SSL_ERROR_WANT_WRITE
   | _ \<Rightarrow> False)"

text \<open>
  C18. A reset or dead stream ends a read loop and cannot abort it: when OpenSSL reports the read
  side as reset by either end or the connection as closed, \<open>read\<close> with a positive length throws
  nothing and returns what its reads delivered; when they delivered nothing it returns null, the
  end of the stream, and the empty string only if OpenSSL's last word was that it wants to be
  called again.
\<close>

theorem read_reset_is_eof:
  assumes "str_ssl obj = Some s" and "0 < sint len"
    and "\<And>w. rc (fst (extern E w (Strm (SSL_get_stream_read_state s)))) \<in>
      {SSL_STREAM_STATE_RESET_LOCAL, SSL_STREAM_STATE_RESET_REMOTE, SSL_STREAM_STATE_CONN_CLOSED}"
    and "run_state (Quic_Stream_read E obj len) w = (x, w')"
  shows "\<exists>h. history (sel_read s) (trace w') = h @ history (sel_read s) (trace w) \<and> h \<noteq> [] \<and>
    x = Some (Inr (if delivered h \<noteq> [] then Some (delivered h)
                   else if wants_more (trace w') then Some [] else None))"
proof -
  from read_history [OF assms(2,1,4)] obtain n r h buf l v y where
    h: "history (sel_read s) (trace w') = (n, r) # h @ history (sel_read s) (trace w)"
    and y: "run_state (read_result E s buf (delivered ((n, r) # h)) l) v = (y, w')" "x = Some y"
    by metis
  define d where "d = delivered ((n, r) # h)"
  from y(1) [folded d_def] assms(3)
  have "y = Inr (if d \<noteq> [] then Some d else if wants_more (trace w') then Some [] else None)"
    by (auto simp: read_result_def wants_more_def split: if_splits prod.splits)
  then show ?thesis using h y(2) by (intro exI [of _ "(n, r) # h"]) (simp add: d_def)
qed

lemma read_reset_is_eof_witness:
  "let w = run_state (Quic_Stream_read
      (answering (\<lambda>u c. (no_reply\<lparr>rc := SSL_STREAM_STATE_RESET_REMOTE\<rparr>, u)))
      (php_quic_stream_init_object 7 1) 10) \<lparr>engine = (), trace = []\<rparr>
   in fst w = Some (Inr None) \<and> history (sel_read 7) (trace (snd w)) \<noteq> []"
proof -
  let ?E = "answering (\<lambda>u c. (no_reply\<lparr>rc := SSL_STREAM_STATE_RESET_REMOTE\<rparr>, u))"
    and ?o = "php_quic_stream_init_object 7 1" and ?w = "\<lparr>engine = (), trace = []\<rparr>"
  obtain x w' where r: "run_state (Quic_Stream_read ?E ?o 10) ?w = (x, w')" by fastforce
  have o: "str_ssl ?o = Some 7" by (simp add: php_quic_stream_init_object_def quic_stream_create_def)
  have "trace w' \<noteq> [] \<and> history (sel_read 7) (trace w') = [(10, no_reply\<lparr>rc := 5\<rparr>)] \<and> \<not> wants_more (trace w')"
    using r by (auto simp: Quic_Stream_read_def read_loop_first [unfolded read_loop.simps] php_quic_stream_init_object_def
        quic_stream_create_def read_cap_def read_result_def wants_more_def)
  then show ?thesis using read_reset_is_eof [OF o _ _ r] unfolding r Let_def by simp
qed

fun write_may_call :: "php_quic_stream \<Rightarrow> string \<Rightarrow> bool \<Rightarrow> call \<Rightarrow> bool" where
  "write_may_call obj data fin (Strm (SSL_write_ex2 s d flags)) =
     (str_ssl obj = Some s \<and> d = data \<and> data \<noteq> [] \<and>
      flags = (if fin then SSL_WRITE_FLAG_CONCLUDE else 0))"
| "write_may_call obj data fin (Strm (SSL_stream_conclude s)) =
     (str_ssl obj = Some s \<and> fin \<and> data = [])"
| "write_may_call obj data fin (Ssl (SSL_get_error s _)) = (str_ssl obj = Some s)"
| "write_may_call obj data fin (Err _) = True"
| "write_may_call obj data fin _ = False"

text \<open>
  A write sends the caller's data and nothing else: one \<open>SSL_write_ex2\<close> with exactly
  the bytes given, concluding the stream only when \<open>fin\<close> was asked for; with no bytes no write
  is made, and the stream is concluded exactly when \<open>fin\<close> was asked for.
\<close>

lemma write_sends_data: "makes (write_may_call obj data fin) (Quic_Stream_write E obj data fin)"
  unfolding Quic_Stream_write_def by (auto intro!: makes_rules)

text \<open>
  An object without a stream (never opened, or released) reaches OpenSSL through none of
  its methods: writing, ending, resetting, asking for the id or the \<open>php_stream\<close> view throws,
  reading is at end of stream, and the other queries answer null and false.
\<close>

lemma unopened_stream:
  assumes "str_ssl obj = None"
  shows "Quic_Stream_write E obj data fin = ret (Inl (Quic_Exception ''stream is closed''))
    \<and> Quic_Stream_end E obj = ret (Inl (Quic_Exception ''stream is closed''))
    \<and> Quic_Stream_reset E obj code = ret (Inl (Quic_Exception ''stream is closed''))
    \<and> Quic_Stream_getId E obj = ret (Inl (Quic_Exception ''stream is closed''))
    \<and> Quic_Stream_asStream E self obj = ret (Inl (Quic_Exception ''stream is closed''))
    \<and> Quic_Stream_read E obj len = ret (Some (if 0 < sint len then Inr None
        else Inl (php_quic_throw (''read length must be positive, got '' @ show_long len))))
    \<and> Quic_Stream_getResetCode E obj = ret None
    \<and> Quic_Stream_isBidirectional E obj = ret False"
  using assms
  by (simp add: Quic_Stream_write_def Quic_Stream_end_def Quic_Stream_reset_def Quic_Stream_getId_def
      Quic_Stream_asStream_def Quic_Stream_read_def Quic_Stream_getResetCode_def
      Quic_Stream_isBidirectional_def php_quic_throw_def snprintf_def MESSAGE_SIZE_def c_str_def
      NUL_def)

end
