(* ===== verification/Quic_Connection.thy ===== *)
theory Quic_Connection
  imports Quic_Stream Quic_Udp Quic_Tls Quic_Fingerprint
begin

text \<open>
  \<open>src/src/quic_connection.c\<close>: the class \<open>Quic\Connection\<close>.  The constructor keeps its C
  locals in a record, so that every \<open>goto\<close> to its cleanup block is a value: why it jumps and
  what it holds when it does.
\<close>

subsection \<open>The object\<close>

definition quic_connection_create :: php_quic_connection where
  "quic_connection_create = \<lparr>conn_ssl = None, conn_fd = -1, conn_owns_fd = False,
     conn_closed = False, conn_listener = None\<rparr>"

definition quic_connection_free ::
  "'w env \<Rightarrow> php_quic_connection \<Rightarrow> ('w, php_quic_connection \<times> nat option) quic" where
  "quic_connection_free E obj = do {
     free_ssl E (conn_ssl obj);
     let obj = obj\<lparr>conn_ssl := None\<rparr>;
     obj \<leftarrow> (if conn_owns_fd obj \<and> conn_fd obj \<noteq> -1 then do {
         emit E (Net (BIO_closesocket (conn_fd obj)));
         ret (obj\<lparr>conn_fd := -1\<rparr>)
       } else ret obj);
     case conn_listener obj of
       None \<Rightarrow> ret (obj, None)
     | Some l \<Rightarrow> ret (obj\<lparr>conn_listener := None\<rparr>, Some l)
   }"

definition quic_connection_get_gc :: "php_quic_connection \<Rightarrow> nat list" where
  "quic_connection_get_gc obj = (case conn_listener obj of None \<Rightarrow> [] | Some l \<Rightarrow> [l])"

definition php_quic_connection_configure :: "'w env \<Rightarrow> nat \<Rightarrow> ('w, unit) quic" where
  "php_quic_connection_configure E ssl = do {
     emit E (Ssl (SSL_set_default_stream_mode_none ssl));
     emit E (Ssl (SSL_set_incoming_stream_policy_accept ssl))
   }"

definition php_quic_connection_init_object ::
  "nat \<Rightarrow> int \<Rightarrow> bool \<Rightarrow> nat option \<Rightarrow> php_quic_connection" where
  "php_quic_connection_init_object ssl fd owns_fd listener_zv =
     quic_connection_create\<lparr>conn_ssl := Some ssl, conn_fd := fd, conn_owns_fd := owns_fd,
       conn_closed := False, conn_listener := listener_zv\<rparr>"

subsection \<open>The constructor\<close>

record client_locals =
  cl_alpn :: zstr
  cl_peer :: nat
  cl_fd :: int
  cl_ctx :: "nat option"
  cl_ssl :: "nat option"

text \<open>
  The locals live from line 231 on, when the address list has been resolved: \<open>peer\<close> is not NULL.
  Why the body is left: \<open>goto ssl_error\<close>, a throw and \<open>goto cleanup\<close>, or (in the model only)
  the handshake loop running out of the rounds it was given.
\<close>

datatype client_exit = Ssl_error | Cleanup exn | Unfinished

definition client_alpn_spec :: "hashtable option \<Rightarrow> zval option" where
  "client_alpn_spec options =
     (case options of None \<Rightarrow> None
      | Some ht \<Rightarrow> (case zend_hash_str_find ht ''alpn'' of
          None \<Rightarrow> zend_hash_str_find ht ''alpn_protocols'' | Some v \<Rightarrow> Some v))"

text \<open>Lines 251--296: everything set on the \<open>SSL\<close> object before the handshake.\<close>

definition prepare_ssl ::
  "'w env \<Rightarrow> string \<Rightarrow> 64 word \<Rightarrow> php_quic_tls_setup \<Rightarrow> client_locals \<Rightarrow> nat \<Rightarrow>
     ('w, client_exit + unit) quic" where
  "prepare_ssl E host idle_timeout_ms setup L ssl = do {
     b \<leftarrow> ext E (Net (BIO_new_dgram (cl_fd L)));
     case ptr b of
       None \<Rightarrow> ret (Inl Ssl_error)
     | Some bio \<Rightarrow> do {
         emit E (Ssl (SSL_set_bio ssl bio));
         r \<leftarrow> ext E (Ssl (SSL_set_alpn_protos ssl (zs_val (cl_alpn L))));
         if rc r \<noteq> 0 then ret (Inl Ssl_error)
         else do {
           r \<leftarrow> ext E (Ssl (SSL_set1_initial_peer_addr ssl (cl_peer L)));
           if rc r = 0 then ret (Inl Ssl_error)
           else do {
             let peer_name = (case peer_name setup of Some n \<Rightarrow> n | None \<Rightarrow> host);
             hostname_ok \<leftarrow> (if verify_peer setup \<and> verify_peer_name setup then do {
                 r \<leftarrow> ext E (Ssl (SSL_set1_host ssl peer_name)); ret (rc r \<noteq> 0) }
               else ret True);
             if \<not> hostname_ok then ret (Inl Ssl_error)
             else do {
               sni_ok \<leftarrow> (if sni_enabled setup then do {
                   r \<leftarrow> ext E (Ssl (SSL_set_tlsext_host_name ssl peer_name)); ret (rc r \<noteq> 0) }
                 else ret True);
               if \<not> sni_ok then ret (Inl Ssl_error)
               else do {
                 whenM (HAVE_QUIC_IDLE_TIMEOUT E \<and> 0 < sint idle_timeout_ms)
                   (emit E (Ssl (SSL_set_feature_request_uint ssl idle_timeout_ms)));
                 php_quic_connection_configure E ssl;
                 ret (Inr ())
               }
             }
           }
         }
       }
   }"

definition handshake_failed :: "'w env \<Rightarrow> string \<Rightarrow> 64 word \<Rightarrow> ('w, client_exit + unit) quic" where
  "handshake_failed E host port = do {
     e \<leftarrow> php_quic_throw_ssl E (''QUIC handshake with '' @ host @ '':'' @ show_long port @ '' failed'');
     ret (Inl (Cleanup e))
   }"

definition handshake ::
  "nat \<Rightarrow> 'w env \<Rightarrow> string \<Rightarrow> 64 word \<Rightarrow> 64 word \<Rightarrow> nat \<Rightarrow> int \<Rightarrow> ('w, client_exit + unit) quic" where
  "handshake fuel E host port connect_timeout_ms ssl fd =
     (if 0 < sint connect_timeout_ms then do {
        hs \<leftarrow> php_quic_connect_timed fuel E ssl fd connect_timeout_ms;
        case hs of
          None \<Rightarrow> ret (Inl Unfinished)
        | Some h \<Rightarrow>
            if h = -1 then ret (Inl (Cleanup (php_quic_throw (''QUIC handshake with '' @ host @ '':'' @
              show_long port @ '' timed out after '' @ show_long connect_timeout_ms @ ''ms''))))
            else if h = 0 then handshake_failed E host port
            else ret (Inr ())
      } else do {
        r \<leftarrow> ext E (Ssl (SSL_connect ssl));
        if rc r \<noteq> 1 then handshake_failed E host port else ret (Inr ())
      })"

definition pin_certificate ::
  "'w env \<Rightarrow> hashtable option \<Rightarrow> nat \<Rightarrow> ('w, client_exit + unit) quic" where
  "pin_certificate E options ssl =
     (case options of None \<Rightarrow> ret (Inr ())
      | Some ht \<Rightarrow> (case zend_hash_str_find ht ''peer_fingerprint'' of
          None \<Rightarrow> ret (Inr ())
        | Some fp \<Rightarrow> do {
            r \<leftarrow> php_quic_check_fingerprint E ssl fp;
            case r of Inl e \<Rightarrow> ret (Inl (Cleanup (php_quic_throw e))) | Inr _ \<Rightarrow> ret (Inr ())
          }))"

text \<open>Lines 231--328, from the socket to a verified connection.\<close>

definition establish ::
  "nat \<Rightarrow> 'w env \<Rightarrow> string \<Rightarrow> 64 word \<Rightarrow> hashtable option \<Rightarrow> 64 word \<Rightarrow> 64 word \<Rightarrow>
     client_locals \<Rightarrow> ('w, client_exit option \<times> client_locals) quic" where
  "establish fuel E host port options idle_timeout_ms connect_timeout_ms L = do {
     r \<leftarrow> ext E (Ctx (SSL_CTX_new False));
     case ptr r of
       None \<Rightarrow> ret (Some Ssl_error, L)
     | Some ctx \<Rightarrow> do {
         let L = L\<lparr>cl_ctx := Some ctx\<rparr>;
         c \<leftarrow> php_quic_configure_ctx E ctx options False;
         case c of
           Inl e \<Rightarrow> ret (Some (Cleanup (php_quic_throw e)), L)
         | Inr setup \<Rightarrow> do {
             r \<leftarrow> ext E (Ssl (SSL_new ctx));
             case ptr r of
               None \<Rightarrow> ret (Some Ssl_error, L)
             | Some ssl \<Rightarrow> do {
                 let L = L\<lparr>cl_ssl := Some ssl\<rparr>;
                 emit E (Ctx (SSL_CTX_free ctx));
                 let L = L\<lparr>cl_ctx := None\<rparr>;
                 x \<leftarrow> and_then (prepare_ssl E host idle_timeout_ms setup L ssl) (\<lambda>_.
                      and_then (handshake fuel E host port connect_timeout_ms ssl (cl_fd L)) (\<lambda>_.
                      pin_certificate E options ssl));
                 case x of Inl e \<Rightarrow> ret (Some e, L) | Inr _ \<Rightarrow> ret (None, L)
               }
           }
       }
   }"

text \<open>The \<open>cleanup\<close> label.\<close>

definition client_cleanup :: "'w env \<Rightarrow> client_locals \<Rightarrow> ('w, unit) quic" where
  "client_cleanup E L = do {
     emit E (Mem (zend_string_release (zs_ptr (cl_alpn L))));
     emit E (Net (BIO_ADDR_free (cl_peer L)));
     free_ssl E (cl_ssl L);
     (case cl_ctx L of None \<Rightarrow> ret () | Some c \<Rightarrow> emit E (Ctx (SSL_CTX_free c)));
     close_fd E (cl_fd L)
   }"

text \<open>Lines 330--359: what follows the body, whichever way it was left.\<close>

definition client_finish ::
  "'w env \<Rightarrow> php_quic_connection \<Rightarrow> client_exit option \<Rightarrow> client_locals \<Rightarrow>
     ('w, client_locals + unit outcome \<times> php_quic_connection) quic" where
  "client_finish E obj x L =
     (case x of
        Some Unfinished \<Rightarrow> ret (Inl L)
      | Some (Cleanup e) \<Rightarrow> do { client_cleanup E L; ret (Inr (Inl e, obj)) }
      | Some Ssl_error \<Rightarrow> do {
          e \<leftarrow> php_quic_throw_ssl E ''failed to set up QUIC client connection'';
          client_cleanup E L;
          ret (Inr (Inl e, obj))
        }
      | None \<Rightarrow> do {
          emit E (Mem (zend_string_release (zs_ptr (cl_alpn L))));
          emit E (Net (BIO_ADDR_free (cl_peer L)));
          ret (Inr (Inr (), obj\<lparr>conn_ssl := cl_ssl L, conn_fd := cl_fd L,
            conn_owns_fd := True, conn_closed := False\<rparr>))
        })"

text \<open>
  The result: the locals still held, if the model's rounds ran out in the handshake, or what
  the constructor throws or returns, with the object.
\<close>

definition Quic_Connection_construct ::
  "nat \<Rightarrow> 'w env \<Rightarrow> php_quic_connection \<Rightarrow> string \<Rightarrow> 64 word \<Rightarrow> hashtable option \<Rightarrow>
     ('w, client_locals + unit outcome \<times> php_quic_connection) quic" where
  "Quic_Connection_construct fuel E obj host port options =
     (if sint port < 1 \<or> sint port > 65535 then
        ret (Inr (Inl (php_quic_throw (''port must be between 1 and 65535, got '' @ show_long port)), obj))
      else if strlen host \<noteq> length host then
        ret (Inr (Inl (php_quic_throw ''host must not contain null bytes''), obj))
      else if conn_ssl obj \<noteq> None then
        ret (Inr (Inl (php_quic_throw ''connection is already established''), obj))
      else let idle_timeout_ms = opt_long E options ''idle_timeout_ms'' 0;
               connect_timeout_ms = opt_long E options ''connect_timeout_ms'' 0
      in case client_alpn_spec options of
        None \<Rightarrow> ret (Inr (Inl (php_quic_throw (''the '' @ quoted ''alpn'' @ '' option is required'')), obj))
      | Some alpn_spec \<Rightarrow> do {
          a \<leftarrow> php_quic_alpn_from_zval E alpn_spec;
          case a of
            Inl e \<Rightarrow> ret (Inr (Inl (php_quic_throw e), obj))
          | Inr alpn \<Rightarrow> do {
              let portbuf = snprintf 16 (show_long port);
              u \<leftarrow> php_quic_udp_client E host portbuf;
              case u of
                Inl e \<Rightarrow> do {
                  emit E (Mem (zend_string_release (zs_ptr alpn)));
                  ret (Inr (Inl (php_quic_throw e), obj))
                }
              | Inr (fd, peer) \<Rightarrow> do {
                  (x, L) \<leftarrow> establish fuel E host port options idle_timeout_ms connect_timeout_ms
                    \<lparr>cl_alpn = alpn, cl_peer = peer, cl_fd = fd, cl_ctx = None, cl_ssl = None\<rparr>;
                  client_finish E obj x L
                }
            }
        })"

subsection \<open>Streams\<close>

definition Quic_Connection_openStream ::
  "'w env \<Rightarrow> nat \<Rightarrow> php_quic_connection \<Rightarrow> bool \<Rightarrow> ('w, php_quic_stream outcome) quic" where
  "Quic_Connection_openStream E this obj bidirectional =
     (case conn_ssl obj of
        None \<Rightarrow> ret (Inl (php_quic_throw ''connection is closed''))
      | Some s \<Rightarrow> do {
          r \<leftarrow> ext E (Strm (SSL_new_stream s (if bidirectional then 0 else SSL_STREAM_FLAG_UNI)));
          case ptr r of
            None \<Rightarrow> throw_ssl E ''failed to open QUIC stream''
          | Some stream \<Rightarrow> ret (Inr (php_quic_stream_init_object stream this))
        })"

definition Quic_Connection_acceptStream ::
  "'w env \<Rightarrow> nat \<Rightarrow> php_quic_connection \<Rightarrow> ('w, php_quic_stream option) quic" where
  "Quic_Connection_acceptStream E this obj =
     (case conn_ssl obj of
        None \<Rightarrow> ret None
      | Some s \<Rightarrow> do {
          r \<leftarrow> ext E (Strm (SSL_accept_stream s));
          case ptr r of
            None \<Rightarrow> ret None
          | Some stream \<Rightarrow> ret (Some (php_quic_stream_init_object stream this))
        })"

subsection \<open>Closing\<close>

definition Quic_Connection_close ::
  "'w env \<Rightarrow> php_quic_connection \<Rightarrow> 64 word \<Rightarrow> string \<Rightarrow> ('w, php_quic_connection) quic" where
  "Quic_Connection_close E obj error_code reason =
     (case conn_ssl obj of
        None \<Rightarrow> ret obj
      | Some s \<Rightarrow>
          if \<not> conn_closed obj then do {
            emit E (Info (SSL_shutdown_ex s error_code
              (if 0 < length reason then Some (c_str reason) else None)));
            ret (obj\<lparr>conn_closed := True\<rparr>)
          } else ret obj)"

record close_info =
  ci_error_code :: "64 word"
  ci_frame_type :: "64 word"
  ci_reason :: string
  ci_local :: bool
  ci_transport :: bool

definition SSL_CONN_CLOSE_FLAG_LOCAL :: "32 word" where [simp]: "SSL_CONN_CLOSE_FLAG_LOCAL = 1"
definition SSL_CONN_CLOSE_FLAG_TRANSPORT :: "32 word" where [simp]: "SSL_CONN_CLOSE_FLAG_TRANSPORT = 2"

definition Quic_Connection_getCloseInfo ::
  "'w env \<Rightarrow> php_quic_connection \<Rightarrow> ('w, close_info option) quic" where
  "Quic_Connection_getCloseInfo E obj =
     (case conn_ssl obj of
        None \<Rightarrow> ret None
      | Some s \<Rightarrow> do {
          r \<leftarrow> ext E (Info (SSL_get_conn_close_info s));
          if rc r \<noteq> 1 then ret None
          else ret (Some \<lparr>ci_error_code = u64 r, ci_frame_type = u64b r,
            ci_reason = (case cstr r of None \<Rightarrow> [] | Some reason \<Rightarrow> reason),
            ci_local = (and (u32 r) SSL_CONN_CLOSE_FLAG_LOCAL \<noteq> 0),
            ci_transport = (and (u32 r) SSL_CONN_CLOSE_FLAG_TRANSPORT \<noteq> 0)\<rparr>)
        })"

subsection \<open>Event loop integration\<close>

definition Quic_Connection_getFd :: "php_quic_connection \<Rightarrow> int" where
  "Quic_Connection_getFd obj = conn_fd obj"

definition Quic_Connection_setBlocking ::
  "'w env \<Rightarrow> php_quic_connection \<Rightarrow> bool \<Rightarrow> ('w, unit outcome) quic" where
  "Quic_Connection_setBlocking E obj blocking =
     (case conn_ssl obj of
        None \<Rightarrow> ret (Inl (php_quic_throw ''connection is closed''))
      | Some s \<Rightarrow> do {
          r \<leftarrow> ext E (Ssl (SSL_set_blocking_mode s blocking));
          if rc r = 0 then throw_ssl E ''failed to set blocking mode'' else ret (Inr ())
        })"

definition Quic_Connection_wantsRead :: "'w env \<Rightarrow> php_quic_connection \<Rightarrow> ('w, bool) quic" where
  "Quic_Connection_wantsRead E obj =
     (case conn_ssl obj of
        None \<Rightarrow> ret False
      | Some s \<Rightarrow> do { r \<leftarrow> ext E (Ssl (SSL_net_read_desired s)); ret (rc r \<noteq> 0) })"

definition Quic_Connection_wantsWrite :: "'w env \<Rightarrow> php_quic_connection \<Rightarrow> ('w, bool) quic" where
  "Quic_Connection_wantsWrite E obj =
     (case conn_ssl obj of
        None \<Rightarrow> ret False
      | Some s \<Rightarrow> do { r \<leftarrow> ext E (Ssl (SSL_net_write_desired s)); ret (rc r \<noteq> 0) })"

definition Quic_Connection_getTimeout ::
  "'w env \<Rightarrow> php_quic_connection \<Rightarrow> ('w, double option outcome) quic" where
  "Quic_Connection_getTimeout E obj =
     (case conn_ssl obj of
        None \<Rightarrow> ret (Inr None)
      | Some s \<Rightarrow> do {
          r \<leftarrow> ext E (Ssl (SSL_get_event_timeout s));
          if rc r = 0 then throw_ssl E ''failed to query QUIC event timeout''
          else if flag r then ret (Inr None)
          else ret (Inr (Some (timeval_double E (tv_sec r) (tv_usec r))))
        })"

definition Quic_Connection_handleEvents :: "'w env \<Rightarrow> php_quic_connection \<Rightarrow> ('w, unit) quic" where
  "Quic_Connection_handleEvents E obj =
     (case conn_ssl obj of None \<Rightarrow> ret () | Some s \<Rightarrow> emit E (Ssl (SSL_handle_events s)))"

subsection \<open>TLS information\<close>

text \<open>Appending an association to the array under construction.\<close>

definition add_assoc :: "string \<Rightarrow> zval \<Rightarrow> hashtable \<Rightarrow> hashtable" where
  "add_assoc k v ht = ht @ [(KStr k, v)]"

text \<open>
  \<open>SSL_CIPHER_info\<close> stands for the three accessors of a cipher: its name (\<open>cstr\<close>), bits (\<open>rc\<close>)
  and version (\<open>bytes\<close>).
\<close>

definition Quic_Connection_getCryptoInfo ::
  "'w env \<Rightarrow> php_quic_connection \<Rightarrow> ('w, hashtable outcome) quic" where
  "Quic_Connection_getCryptoInfo E obj =
     (case conn_ssl obj of
        None \<Rightarrow> ret (Inl (php_quic_throw ''connection is closed''))
      | Some s \<Rightarrow> do {
          let info = [];
          p \<leftarrow> ext E (Info (SSL_get_version s));
          let info = (case cstr p of None \<Rightarrow> info
            | Some protocol \<Rightarrow> add_assoc ''protocol'' (ZString protocol) info);
          c \<leftarrow> ext E (Info (SSL_get_current_cipher s));
          info \<leftarrow> (case ptr c of None \<Rightarrow> ret info
            | Some cipher \<Rightarrow> do {
                i \<leftarrow> ext E (Info (SSL_CIPHER_info cipher));
                ret (add_assoc ''cipher_version'' (ZString (bytes i))
                      (add_assoc ''cipher_bits'' (ZLong (word_of_int (rc i)))
                        (add_assoc ''cipher_name''
                          (ZString (case cstr i of None \<Rightarrow> [] | Some n \<Rightarrow> n)) info)))
              });
          a \<leftarrow> ext E (Info (SSL_get0_alpn_selected s));
          ret (Inr (if 0 < length (bytes a) then add_assoc ''alpn_protocol'' (ZString (bytes a)) info
                    else info))
        })"

definition Quic_Connection_getNegotiatedAlpn ::
  "'w env \<Rightarrow> php_quic_connection \<Rightarrow> ('w, string option) quic" where
  "Quic_Connection_getNegotiatedAlpn E obj =
     (case conn_ssl obj of
        None \<Rightarrow> ret None
      | Some s \<Rightarrow> do {
          a \<leftarrow> ext E (Info (SSL_get0_alpn_selected s));
          ret (if length (bytes a) = 0 then None else Some (bytes a))
        })"

definition php_quic_x509_to_pem :: "'w env \<Rightarrow> nat \<Rightarrow> ('w, string option) quic" where
  "php_quic_x509_to_pem E cert = do {
     b \<leftarrow> ext E (Info BIO_new_mem);
     case ptr b of
       None \<Rightarrow> ret None
     | Some bio \<Rightarrow> do {
         r \<leftarrow> ext E (Info (PEM_write_bio_X509 bio cert));
         if rc r = 0 then do { emit E (Info (BIO_free bio)); ret None }
         else do {
           d \<leftarrow> ext E (Info (BIO_get_mem_data bio));
           let out = bytes d;
           emit E (Info (BIO_free bio));
           ret (Some out)
         }
       }
   }"

definition Quic_Connection_getPeerCertificate ::
  "'w env \<Rightarrow> php_quic_connection \<Rightarrow> ('w, string option outcome) quic" where
  "Quic_Connection_getPeerCertificate E obj =
     (case conn_ssl obj of
        None \<Rightarrow> ret (Inr None)
      | Some s \<Rightarrow> do {
          r \<leftarrow> ext E (Info (SSL_get1_peer_certificate s));
          case ptr r of
            None \<Rightarrow> ret (Inr None)
          | Some cert \<Rightarrow> do {
              pem \<leftarrow> php_quic_x509_to_pem E cert;
              emit E (Info (X509_free cert));
              case pem of
                None \<Rightarrow> throw_ssl E ''failed to encode peer certificate''
              | Some p \<Rightarrow> ret (Inr (Some p))
            }
        })"

fun chain_to_pem :: "'w env \<Rightarrow> nat list \<Rightarrow> ('w, string list) quic" where
  "chain_to_pem E [] = ret []"
| "chain_to_pem E (cert # chain) = do {
     pem \<leftarrow> php_quic_x509_to_pem E cert;
     rest \<leftarrow> chain_to_pem E chain;
     ret (case pem of None \<Rightarrow> rest | Some p \<Rightarrow> p # rest)
   }"

definition Quic_Connection_getPeerCertificateChain ::
  "'w env \<Rightarrow> php_quic_connection \<Rightarrow> ('w, string list) quic" where
  "Quic_Connection_getPeerCertificateChain E obj =
     (case conn_ssl obj of
        None \<Rightarrow> ret []
      | Some s \<Rightarrow> do {
          r \<leftarrow> ext E (Info (SSL_get_peer_cert_chain s));
          if ptr r = None then ret [] else chain_to_pem E (handles r)
        })"

definition Quic_Connection_getVerifyResult ::
  "'w env \<Rightarrow> php_quic_connection \<Rightarrow> ('w, 64 word outcome) quic" where
  "Quic_Connection_getVerifyResult E obj =
     (case conn_ssl obj of
        None \<Rightarrow> ret (Inl (php_quic_throw ''connection is closed''))
      | Some s \<Rightarrow> do { r \<leftarrow> ext E (Info (SSL_get_verify_result s)); ret (Inr (u64 r)) })"

definition Quic_Connection_getVerifyResultString ::
  "'w env \<Rightarrow> php_quic_connection \<Rightarrow> ('w, string outcome) quic" where
  "Quic_Connection_getVerifyResultString E obj =
     (case conn_ssl obj of
        None \<Rightarrow> ret (Inl (php_quic_throw ''connection is closed''))
      | Some s \<Rightarrow> do {
          r \<leftarrow> ext E (Info (SSL_get_verify_result s));
          t \<leftarrow> ext E (Info (X509_verify_cert_error_string (u64 r)));
          ret (Inr (bytes t))
        })"

subsection \<open>The contracts\<close>

interpretation connections: handle_owner quic_connection_create quic_connection_free res_connection
  quic_connection_get_gc
proof unfold_locales
  show "res_connection quic_connection_create = {#}" and "quic_connection_get_gc quic_connection_create = []"
    by (simp_all add: res_connection_def quic_connection_get_gc_def quic_connection_create_def)
next
  fix E :: "'w env" and x
  show "owns (res_connection x) (quic_connection_free E x) (\<lambda>_. {#})"
    unfolding quic_connection_free_def res_connection_def Let_def
    by (rule owns_call [OF owns_free_ssl]) (auto intro!: own_rules owns_ret)
  have "yields (\<lambda>obj. (conn_owns_fd obj \<longrightarrow> conn_fd obj = -1) \<and> conn_ssl obj = None \<and>
      conn_listener obj = conn_listener x) (if conn_owns_fd y \<and> conn_fd y \<noteq> -1 then do {
        emit E (Net (BIO_closesocket (conn_fd y))); ret (y\<lparr>conn_fd := -1\<rparr>) } else ret y)"
    if "y = x\<lparr>conn_ssl := None\<rparr>" for y
    using that by (intro yields_rules) auto
  note closed = yields_call [OF this [OF refl]]
  show "yields (\<lambda>(y, d). res_connection y = {#} \<and> quic_connection_get_gc y = [] \<and>
      opt_list d = quic_connection_get_gc x) (quic_connection_free E x)"
    unfolding quic_connection_free_def Let_def
    by (rule yields_bind, rule closed, intro yields_rules)
      (auto simp: res_connection_def quic_connection_get_gc_def opt_list_def)
qed

interpretation connection_events: event_source conn_ssl "''connection is closed''"
  Quic_Connection_setBlocking Quic_Connection_wantsRead Quic_Connection_wantsWrite
  Quic_Connection_getTimeout Quic_Connection_handleEvents
  by unfold_locales
    (simp_all add: Quic_Connection_setBlocking_def Quic_Connection_wantsRead_def
      Quic_Connection_wantsWrite_def Quic_Connection_getTimeout_def Quic_Connection_handleEvents_def
      php_quic_throw_def snprintf_def MESSAGE_SIZE_def c_str_def NUL_def)

subsection \<open>Ownership\<close>

definition res_locals :: "client_locals \<Rightarrow> res multiset" where
  "res_locals L = {#RStr (zs_ptr (cl_alpn L)), RAddr (cl_peer L)#} + opt_res RSsl (cl_ssl L) +
     opt_res RCtx (cl_ctx L) + fd_res (cl_fd L)"

lemma owns_client_cleanup: "owns (res_locals L) (client_cleanup E L) (\<lambda>_. {#})"
  unfolding client_cleanup_def res_locals_def free_ssl_def close_fd_def
  by (auto intro!: own_rules owns_ret)

lemma owns_prepare_ssl:
  assumes "cl_fd L \<noteq> -1"
  shows "keeps {#RSsl ssl, RFd (cl_fd L), RAddr (cl_peer L)#}
    (prepare_ssl E host idle setup L ssl)"
  unfolding prepare_ssl_def php_quic_connection_configure_def Let_def
  by (auto intro!: own_rules owns_ret)

lemma owns_handshake: "keeps {#RSsl ssl, RFd fd#} (handshake fuel E host port t ssl fd)"
  unfolding handshake_def handshake_failed_def
  by (auto intro!: own_rules owns_ret owns_keeps_call [OF owns_connect_timed])

lemma owns_pin_certificate: "keeps {#RSsl ssl#} (pin_certificate E options ssl)"
  unfolding pin_certificate_def
  by (auto intro!: own_rules owns_ret owns_keeps_call [OF owns_check_fingerprint])

lemma keeps_more: "keeps P m \<Longrightarrow> P \<subseteq># P' \<Longrightarrow> keeps P' m"
  by (rule owns_call_last) auto

lemma owns_client_steps:
  assumes "cl_fd L \<noteq> -1"
  shows "keeps {#RSsl ssl, RFd (cl_fd L), RAddr (cl_peer L)#}
    (and_then (prepare_ssl E host idle setup L ssl) (\<lambda>_.
     and_then (handshake fuel E host port t ssl (cl_fd L)) (\<lambda>_. pin_certificate E options ssl)))"
  by (rule owns_and_then [OF owns_prepare_ssl [OF assms]],
      rule owns_and_then [OF keeps_more [OF owns_handshake]],
      simp, rule keeps_more [OF owns_pin_certificate], simp_all)

lemma owns_establish:
  assumes "cl_fd L \<noteq> -1" and "cl_ctx L = None" and "cl_ssl L = None"
  shows "owns (res_locals L) (establish fuel E host port options idle t L) (\<lambda>(_, L'). res_locals L')"
  unfolding establish_def Let_def res_locals_def
  using assms by (auto intro!: own_rules owns_ret owns_keeps_call [OF owns_configure_ctx]
      owns_keeps_call [OF owns_client_steps])

lemma yields_establish:
  assumes "cl_ctx L = None" and "cl_ssl L = None"
  shows "yields (\<lambda>(x, L'). cl_fd L' = cl_fd L \<and> cl_peer L' = cl_peer L \<and> cl_alpn L' = cl_alpn L \<and>
      (x = None \<longrightarrow> (\<exists>s. cl_ssl L' = Some s) \<and> cl_ctx L' = None))
    (establish fuel E host port options idle t L)"
  unfolding establish_def Let_def by (intro yields_rules) auto

definition connection_wf :: "php_quic_connection \<Rightarrow> bool" where
  "connection_wf c \<longleftrightarrow> (conn_ssl c = None \<longrightarrow> \<not> conn_owns_fd c \<or> conn_fd c = -1)"

lemma owns_client_finish:
  assumes "res_connection obj = {#}" and "x = None \<Longrightarrow> cl_ctx L = None"
  shows "owns (res_locals L) (client_finish E obj x L)
    (\<lambda>y. case y of Inl L \<Rightarrow> res_locals L | Inr (_, obj') \<Rightarrow> res_connection obj')"
proof (cases x)
  case None
  then show ?thesis
    using assms(2) unfolding client_finish_def
    by (auto intro!: own_rules owns_ret simp: res_connection_def res_locals_def)
next
  case (Some y)
  have last: "owns (res_locals L) (client_cleanup E L \<bind> (\<lambda>_. ret (Inr (Inl e, obj))))
      (\<lambda>y. case y of Inl L \<Rightarrow> res_locals L | Inr (_, obj') \<Rightarrow> res_connection obj')" for e
    by (rule owns_bind [OF owns_client_cleanup]) (simp add: owns_ret assms(1))
  show ?thesis
    unfolding client_finish_def Some
    by (cases y) (auto intro!: owns_throw_ssl_bind last owns_ret)
qed

lemma owns_connection_construct:
  assumes "connection_wf obj"
  shows "owns (res_connection obj) (Quic_Connection_construct fuel E obj host port options)
    (\<lambda>x. case x of Inl L \<Rightarrow> res_connection obj + res_locals L | Inr (_, obj') \<Rightarrow> res_connection obj')"
proof (cases "sint port < 1 \<or> sint port > 65535 \<or> strlen host \<noteq> length host \<or> conn_ssl obj \<noteq> None")
  case True
  then show ?thesis unfolding Quic_Connection_construct_def by (auto intro!: owns_ret)
next
  case False
  then have obj: "res_connection obj = {#}"
    using assms by (auto simp: res_connection_def connection_wf_def)
  show ?thesis
    unfolding Quic_Connection_construct_def Let_def obj
    using False
    by (auto intro!: own_rules owns_ret owns_call [OF owns_alpn_from_zval]
        owns_yields_call [OF owns_udp_client yields_udp_client]
        owns_yields_call [OF owns_establish yields_establish]
        owns_call_last [OF owns_client_finish [OF obj]]
        simp: obj) (auto simp: res_locals_def split: sum.splits)
qed

lemma owns_open_stream [own_specs]:
  "owns (res_connection obj) (Quic_Connection_openStream E this obj bidi)
     (\<lambda>x. res_connection obj + (case x of Inl _ \<Rightarrow> {#} | Inr s \<Rightarrow> res_stream s))"
  unfolding Quic_Connection_openStream_def res_connection_def
  by (auto intro!: own_rules owns_ret simp: init_object_owns)

lemma owns_accept_stream [own_specs]:
  "owns (res_connection obj) (Quic_Connection_acceptStream E this obj)
     (\<lambda>x. res_connection obj + (case x of None \<Rightarrow> {#} | Some s \<Rightarrow> res_stream s))"
  unfolding Quic_Connection_acceptStream_def res_connection_def
  by (auto intro!: own_rules owns_ret simp: init_object_owns)

lemma owns_connection_close [own_specs]:
  "owns (res_connection obj) (Quic_Connection_close E obj code reason) res_connection"
  unfolding Quic_Connection_close_def res_connection_def
  by (auto intro!: own_rules owns_ret)

lemma owns_x509_to_pem [own_specs]: "keeps {#} (php_quic_x509_to_pem E cert)"
  unfolding php_quic_x509_to_pem_def Let_def by (auto intro!: own_rules owns_ret)

lemma owns_chain_to_pem: "keeps {#} (chain_to_pem E chain)"
  by (induction chain) (auto intro!: owns_keeps_call [OF owns_x509_to_pem] owns_ret owns_keeps_call)

lemma owns_peer_certificate [own_specs]:
  "keeps (opt_res RSsl (conn_ssl obj)) (Quic_Connection_getPeerCertificate E obj)"
  unfolding Quic_Connection_getPeerCertificate_def
  by (auto intro!: own_rules owns_ret owns_keeps_call [OF owns_x509_to_pem])

lemma owns_connection_queries [own_specs]:
  "keeps (opt_res RSsl (conn_ssl obj)) (Quic_Connection_getCloseInfo E obj)"
  "keeps (opt_res RSsl (conn_ssl obj)) (Quic_Connection_getCryptoInfo E obj)"
  "keeps (opt_res RSsl (conn_ssl obj)) (Quic_Connection_getNegotiatedAlpn E obj)"
  "keeps (opt_res RSsl (conn_ssl obj)) (Quic_Connection_getPeerCertificateChain E obj)"
  "keeps (opt_res RSsl (conn_ssl obj)) (Quic_Connection_getVerifyResult E obj)"
  "keeps (opt_res RSsl (conn_ssl obj)) (Quic_Connection_getVerifyResultString E obj)"
  unfolding Quic_Connection_getCloseInfo_def Quic_Connection_getCryptoInfo_def
    Quic_Connection_getNegotiatedAlpn_def Quic_Connection_getPeerCertificateChain_def
    Quic_Connection_getVerifyResult_def Quic_Connection_getVerifyResultString_def Let_def
  by (auto intro!: own_rules owns_ret keeps_more [OF owns_chain_to_pem])

subsection \<open>What the constructor has done when it succeeds\<close>

lemma construct_Inr:
  assumes "run_state (Quic_Connection_construct fuel E obj host port options) w =
    (Inr (Inr (), obj'), w')"
  obtains L0 L w1 w2 where "cl_ctx L0 = None" and "cl_ssl L0 = None" and "cl_fd L0 \<noteq> -1"
    and "run_state (establish fuel E host port options (opt_long E options ''idle_timeout_ms'' 0)
      (opt_long E options ''connect_timeout_ms'' 0) L0) w1 = ((None, L), w2)"
    and "run_state (client_finish E obj None L) w2 = (Inr (Inr (), obj'), w')"
proof -
  obtain spec where spec: "client_alpn_spec options = Some spec"
    and pre: "\<not> (sint port < 1 \<or> 65535 < sint port)" "strlen host = length host" "conn_ssl obj = None"
    using assms by (auto simp: Quic_Connection_construct_def Let_def split: if_splits option.splits)
  obtain a v1 where a: "run_state (php_quic_alpn_from_zval E spec) w = (a, v1)" by fastforce
  then obtain alpn where alpn: "a = Inr alpn"
    using assms pre spec by (cases a) (auto simp: Quic_Connection_construct_def Let_def)
  obtain u v2 where u: "run_state (php_quic_udp_client E host (snprintf 16 (show_long port))) v1 = (u, v2)"
    by fastforce
  then obtain fd peer where fd: "u = Inr (fd, peer)"
    using assms pre spec a alpn
    by (cases u) (auto simp: Quic_Connection_construct_def Let_def)
  have "fd \<noteq> -1" using yieldsD [OF yields_udp_client u] fd by simp
  let ?L0 = "\<lparr>cl_alpn = alpn, cl_peer = peer, cl_fd = fd, cl_ctx = None, cl_ssl = None\<rparr>"
  obtain x L v3 where e: "run_state (establish fuel E host port options
      (opt_long E options ''idle_timeout_ms'' 0) (opt_long E options ''connect_timeout_ms'' 0) ?L0) v2
      = ((x, L), v3)" by (metis prod.exhaust)
  have f: "run_state (client_finish E obj x L) v3 = (Inr (Inr (), obj'), w')"
    using assms pre spec a alpn u fd e by (simp add: Quic_Connection_construct_def Let_def)
  then have "x = None"
    by (auto simp: client_finish_def split: option.splits client_exit.splits prod.splits)
  with e f \<open>fd \<noteq> -1\<close> show thesis by (intro that [of ?L0 v2 L v3]) auto
qed

lemma establish_None:
  assumes "run_state (establish fuel E host port options idle t L0) w = ((None, L), w')"
  obtains ctx cfg ssl w1 w2 w3 w4 u where
    "run_state (php_quic_configure_ctx E ctx options False) w1 = (Inr cfg, w2)"
    and "run_state (ext E (Ssl (SSL_new ctx))) w2 = (u, w3)" and "ptr u = Some ssl"
    and "run_state (emit E (Ctx (SSL_CTX_free ctx))) w3 = ((), w4)"
    and "run_state (and_then (prepare_ssl E host idle cfg (L0\<lparr>cl_ssl := Some ssl, cl_ctx := None\<rparr>) ssl)
      (\<lambda>_. and_then (handshake fuel E host port t ssl (cl_fd L0)) (\<lambda>_. pin_certificate E options ssl)))
      w4 = (Inr (), w')"
    and "L = L0\<lparr>cl_ssl := Some ssl, cl_ctx := None\<rparr>"
  using assms unfolding establish_def Let_def
  by (auto split: prod.splits option.splits sum.splits)

text \<open>The calls that decide how the peer is verified, and steps that make none of them.\<close>

definition sel_host :: "nat \<Rightarrow> call \<Rightarrow> string option" where
  "sel_host ssl c =
     (case c of Ssl (SSL_set1_host x n) \<Rightarrow> if x = ssl then Some n else None | _ \<Rightarrow> None)"

fun no_policy_call :: "call \<Rightarrow> bool" where
  "no_policy_call (Ssl (SSL_set1_host _ _)) = False"
| "no_policy_call (Ctx (SSL_CTX_set_verify _ _ _)) = False"
| "no_policy_call _ = True"

lemma no_policy_call_sel: "no_policy_call c \<Longrightarrow> sel_host s c = None \<and> sel_verify ctx c = None"
  by (cases c rule: no_policy_call.cases) (auto simp: sel_host_def sel_verify_def)

lemma connect_loop_no_policy:
  "makes no_policy_call (connect_loop fuel E ssl fd t start)"
  by (induction fuel) (auto intro!: makes_rules simp: Let_def php_quic_monotonic_ms_def)

lemma later_no_policy:
  "makes no_policy_call (handshake fuel E host port t ssl fd)"
  "makes no_policy_call (pin_certificate E options ssl)"
  "makes no_policy_call (client_finish E obj None L)"
  unfolding handshake_def handshake_failed_def php_quic_connect_timed_def php_quic_monotonic_ms_def
    pin_certificate_def php_quic_check_fingerprint_def client_finish_def Let_def option.case
  by (auto intro!: makes_rules connect_loop_no_policy)

lemma prepare_no_verify:
  "makes (\<lambda>c. sel_verify ctx c = None) (prepare_ssl E host idle cfg L ssl)"
  unfolding prepare_ssl_def php_quic_connection_configure_def Let_def
  by (auto intro!: makes_rules simp: sel_verify_def)

text \<open>
  The name OpenSSL checks the certificate against, by the documentation of \<open>SSL_set1_host\<close>: a call
  that succeeds replaces the one before, and the empty name switches the check off.
\<close>

fun checked_name :: "(string \<times> reply) list \<Rightarrow> string option" where
  "checked_name [] = None"
| "checked_name ((n, r) # h) =
     (if rc r = 0 then checked_name h else if n = [] then None else Some n)"

definition name_check :: "nat \<Rightarrow> (call \<times> reply) list \<Rightarrow> string option" where
  "name_check ssl tr = checked_name (history (sel_host ssl) tr)"

definition expected_name :: "php_quic_tls_setup \<Rightarrow> string \<Rightarrow> string" where
  "expected_name cfg host = (case peer_name cfg of None \<Rightarrow> host | Some n \<Rightarrow> n)"

lemma prepare_host:
  assumes "run_state (prepare_ssl E host idle cfg L ssl) w = (Inr u, w')"
    and "verify_peer cfg" and "verify_peer_name cfg"
  shows "name_check ssl (trace w') =
    (if expected_name cfg host = [] then None else Some (expected_name cfg host))"
  using assms
  by (auto simp: prepare_ssl_def php_quic_connection_configure_def Let_def sel_host_def whenM_def
      name_check_def expected_name_def split: prod.splits option.splits if_splits)

text \<open>The runs behind a constructor that returned.\<close>

lemma client_success:
  assumes "run_state (Quic_Connection_construct fuel E obj host port options) w =
      (Inr (Inr (), obj'), w')"
  obtains ctx L u ssl w1 w2 w3 w4 w5 w6 w7 where
    "run_state (php_quic_configure_ctx E ctx options False) w1 =
      (Inr (o_setup (read_tls_options E options False)), w2)"
    and "run_state (ext E (Ssl (SSL_new ctx))) w2 = (u, w3)" and "ptr u = Some ssl"
    and "run_state (emit E (Ctx (SSL_CTX_free ctx))) w3 = ((), w4)"
    and "run_state (prepare_ssl E host (opt_long E options ''idle_timeout_ms'' 0)
      (o_setup (read_tls_options E options False)) L ssl) w4 = (Inr (), w5)"
    and "run_state (handshake fuel E host port (opt_long E options ''connect_timeout_ms'' 0) ssl
      (cl_fd L)) w5 = (Inr (), w6)"
    and "run_state (pin_certificate E options ssl) w6 = (Inr (), w7)"
    and "run_state (client_finish E obj None L) w7 = (Inr (Inr (), obj'), w')"
    and "cl_ssl L = Some ssl" and "cl_fd L \<noteq> -1"
proof -
  from construct_Inr [OF assms(1)] obtain L0 L v1 v2 where fd: "cl_fd L0 \<noteq> -1"
    and e: "run_state (establish fuel E host port options (opt_long E options ''idle_timeout_ms'' 0)
      (opt_long E options ''connect_timeout_ms'' 0) L0) v1 = ((None, L), v2)"
    and f: "run_state (client_finish E obj None L) v2 = (Inr (Inr (), obj'), w')"
    by metis
  from establish_None [OF e] obtain ctx s ssl w1 w2 w3 w4 u where
    cfg: "run_state (php_quic_configure_ctx E ctx options False) w1 = (Inr s, w2)"
    and new: "run_state (ext E (Ssl (SSL_new ctx))) w2 = (u, w3)" "ptr u = Some ssl"
    and free: "run_state (emit E (Ctx (SSL_CTX_free ctx))) w3 = ((), w4)"
    and steps: "run_state (and_then (prepare_ssl E host (opt_long E options ''idle_timeout_ms'' 0) s
        (L0\<lparr>cl_ssl := Some ssl, cl_ctx := None\<rparr>) ssl)
      (\<lambda>_. and_then (handshake fuel E host port (opt_long E options ''connect_timeout_ms'' 0) ssl
        (cl_fd L0)) (\<lambda>_. pin_certificate E options ssl))) w4 = (Inr (), v2)"
    and L: "L = L0\<lparr>cl_ssl := Some ssl, cl_ctx := None\<rparr>" by metis
  have "s = o_setup (read_tls_options E options False)"
    using configure_ctx_Inr [OF cfg] by metis
  with steps obtain w5 w6 where
    prep: "run_state (prepare_ssl E host (opt_long E options ''idle_timeout_ms'' 0)
        (o_setup (read_tls_options E options False)) L ssl) w4 = (Inr (), w5)"
    and hs: "run_state (handshake fuel E host port (opt_long E options ''connect_timeout_ms'' 0) ssl
        (cl_fd L)) w5 = (Inr (), w6)"
    and pin: "run_state (pin_certificate E options ssl) w6 = (Inr (), v2)"
    using L by (auto elim!: and_then_Inr)
  show thesis
    using that [OF _ new free prep hs pin f] cfg \<open>s = _\<close> L fd by simp
qed

lemma trace_grows:
  "makes p m \<Longrightarrow> run_state m w = (a, w') \<Longrightarrow> set (trace w) \<subseteq> set (trace w')"
  by (metis makesD set_append Un_upper2)

text \<open>
  C1. A client that asks for verification gets it.  When the constructor returns and the
  options ask for \<open>verify_peer\<close> (the default), the connection's \<open>SSL\<close> object was made from a context
  whose last verification setting is \<open>SSL_VERIFY_PEER\<close> with the extension's callback, and
  with \<open>verify_peer_name\<close> OpenSSL has accepted the \<open>peer_name\<close> option, or the host, as the name it
  checks the certificate against; when that name is empty OpenSSL checks no name, although the
  options ask for it.
\<close>

theorem connected_peer_verified:
  assumes run: "run_state (Quic_Connection_construct fuel E obj host port options) w =
      (Inr (Inr (), obj'), w')"
    and cfg: "cfg = o_setup (read_tls_options E options False)" "verify_peer cfg"
  shows "\<exists>ctx ssl r. conn_ssl obj' = Some ssl \<and> (Ssl (SSL_new ctx), r) \<in> set (trace w') \<and>
    ptr r = Some ssl \<and> last_setting (sel_verify ctx) (trace w') = Some (SSL_VERIFY_PEER, True) \<and>
    (verify_peer_name cfg \<longrightarrow> name_check ssl (trace w') =
       (if expected_name cfg host = [] then None else Some (expected_name cfg host)))"
  using run
proof (rule client_success)
  fix ctx L r ssl w1 w2 w3 w4 w5 w6 w7
  assume c: "run_state (php_quic_configure_ctx E ctx options False) w1 =
      (Inr (o_setup (read_tls_options E options False)), w2)"
    and new: "run_state (ext E (Ssl (SSL_new ctx))) w2 = (r, w3)" "ptr r = Some ssl"
    and free: "run_state (emit E (Ctx (SSL_CTX_free ctx))) w3 = ((), w4)"
    and prep: "run_state (prepare_ssl E host (opt_long E options ''idle_timeout_ms'' 0)
      (o_setup (read_tls_options E options False)) L ssl) w4 = (Inr (), w5)"
    and hs: "run_state (handshake fuel E host port (opt_long E options ''connect_timeout_ms'' 0) ssl
      (cl_fd L)) w5 = (Inr (), w6)"
    and pin: "run_state (pin_certificate E options ssl) w6 = (Inr (), w7)"
    and fin: "run_state (client_finish E obj None L) w7 = (Inr (Inr (), obj'), w')"
    and ssl: "cl_ssl L = Some ssl"
  note kept = setting_kept [OF later_no_policy(1) _ hs] setting_kept [OF later_no_policy(2) _ pin]
    setting_kept [OF later_no_policy(3) _ fin]
  have "last_setting (sel_verify ctx) (trace w4) = Some (SSL_VERIFY_PEER, True)"
    using configured_verify [OF c] new(1) free cfg by (auto simp: sel_verify_def verify_mode_def)
  then have "last_setting (sel_verify ctx) (trace w') = Some (SSL_VERIFY_PEER, True)"
    by (simp add: kept no_policy_call_sel setting_kept [OF prepare_no_verify _ prep])
  moreover have "name_check ssl (trace w') = name_check ssl (trace w5)"
    using history_kept [OF later_no_policy(1) _ hs, of "sel_host ssl"]
      history_kept [OF later_no_policy(2) _ pin, of "sel_host ssl"]
      history_kept [OF later_no_policy(3) _ fin, of "sel_host ssl"]
    by (simp add: no_policy_call_sel name_check_def)
  then have "name_check ssl (trace w') =
      (if expected_name cfg host = [] then None else Some (expected_name cfg host))"
    if "verify_peer_name cfg"
    using prepare_host [OF prep] cfg that by simp
  moreover have "conn_ssl obj' = Some ssl"
    using fin ssl by (auto simp: client_finish_def split: prod.splits)
  moreover have "(Ssl (SSL_new ctx), r) \<in> set (trace w4)"
    using new(1) free by auto
  then have "(Ssl (SSL_new ctx), r) \<in> set (trace w')"
    using trace_grows [OF prepare_no_verify prep] trace_grows [OF later_no_policy(1) hs]
      trace_grows [OF later_no_policy(2) pin] trace_grows [OF later_no_policy(3) fin] by blast
  ultimately show ?thesis using new(2) by auto
qed

text \<open>
  For the witnesses: a library in which everything succeeds, with one address to try and
  handle 3 for every object it makes.
\<close>

definition obliging :: "unit env" where
  "obliging = answering (\<lambda>u c. (no_reply\<lparr>rc := (case c of Ssl (SSL_set_alpn_protos _ _) \<Rightarrow> 0 | _ \<Rightarrow> 1),
     ptr := Some 3, hnd := 4, addrs := [(2, 5)]\<rparr>, u))"

lemma obliging_simps [simp]:
  "extern obliging u c = (no_reply\<lparr>rc := (case c of Ssl (SSL_set_alpn_protos _ _) \<Rightarrow> 0 | _ \<Rightarrow> 1),
     ptr := Some 3, hnd := 4, addrs := [(2, 5)]\<rparr>, u)"
  "zend_is_true obliging v = (v = ZBool True)"
  "zval_get_long obliging v = (case v of ZLong x \<Rightarrow> x | _ \<Rightarrow> 0)"
  "zval_get_string obliging v = (case v of ZString s \<Rightarrow> s | _ \<Rightarrow> [])"
  "HAVE_QUIC_IDLE_TIMEOUT obliging"
  "X509_digest obliging cert m = (if m = 1 then Some (replicate 32 CHR 0xAB) else None)"
  "EVP_sha256 obliging = 1"
  by (simp_all add: obliging_def)

definition example_options :: "hashtable option" where
  "example_options = Some [(KStr ''alpn'', ZArray [(KIdx 0, ZString ''h3'')]),
     (KStr ''peer_fingerprint'', ZString (hex (replicate 32 CHR 0xAB)))]"

lemma example_verdict:
  "fingerprint_verdict obliging 3 (ZString (hex (replicate 32 CHR 0xAB))) = Inr ()"
  by (simp add: fingerprint_verdict_def length_hex php_quic_md_for_hexlen_def
      php_quic_fp_matches_def strcasecmp_eq_def)

lemma obliging_construct:
  obtains w' where "run_state (Quic_Connection_construct 1 obliging quic_connection_create ''h'' 443
      example_options) \<lparr>engine = (), trace = []\<rparr> =
    (Inr (Inr (), php_quic_connection_init_object 3 1 True None), w')"
proof -
  have "fst (run_state (Quic_Connection_construct 1 obliging quic_connection_create ''h'' 443
      example_options) \<lparr>engine = (), trace = []\<rparr>) =
    Inr (Inr (), php_quic_connection_init_object 3 1 True None)"
    by (simp add: Quic_Connection_construct_def Let_def strlen_def c_str_def NUL_def
        quic_connection_create_def client_alpn_spec_def zend_hash_str_find_def
        php_quic_alpn_from_zval_def alpn_buffer_def php_quic_alpn_append_def
        php_quic_udp_client_def establish_def opt_long_def example_options_def)
      (simp add: php_quic_configure_ctx_def and_then_def load_identity_def
        set_peer_verification_def Let_def set_tls_tuning_def set_list_option_def
        php_quic_opt_string_def zend_hash_str_find_def read_tls_options_def opt_bool_def
        opt_long_def handshake_def pin_certificate_def php_quic_check_fingerprint_def
        example_verdict client_finish_def prepare_ssl_def php_quic_connection_configure_def
        php_quic_connection_init_object_def quic_connection_create_def)
  then show thesis using that by (metis prod.collapse)
qed

lemma example_verifies:
  "verify_peer (o_setup (read_tls_options obliging example_options False))"
  "verify_peer_name (o_setup (read_tls_options obliging example_options False))"
  "peer_name (o_setup (read_tls_options obliging example_options False)) = None"
  by (simp_all add: read_tls_options_def Let_def opt_bool_def example_options_def
      php_quic_opt_string_def zend_hash_str_find_def)

lemma connected_peer_verified_witness:
  "\<exists>w' ctx. run_state (Quic_Connection_construct 1 obliging quic_connection_create ''h'' 443
      example_options) \<lparr>engine = (), trace = []\<rparr> =
      (Inr (Inr (), php_quic_connection_init_object 3 1 True None), w') \<and>
    last_setting (sel_verify ctx) (trace w') = Some (SSL_VERIFY_PEER, True) \<and>
    name_check 3 (trace w') = Some ''h''"
proof (rule obliging_construct)
  fix w'
  assume r: "run_state (Quic_Connection_construct 1 obliging quic_connection_create ''h'' 443
      example_options) \<lparr>engine = (), trace = []\<rparr> =
    (Inr (Inr (), php_quic_connection_init_object 3 1 True None), w')"
  show ?thesis
    using connected_peer_verified [OF r refl example_verifies(1)] r
    by (auto simp: example_verifies expected_name_def php_quic_connection_init_object_def)
qed

text \<open>
  C2. A pin is enforced: when the constructor returns and the options hold a \<open>peer_fingerprint\<close>,
  the peer of the connection's \<open>SSL\<close> object presented a certificate and the pin was accepted
  for it.
\<close>

theorem connected_peer_pinned:
  assumes run: "run_state (Quic_Connection_construct fuel E obj host port options) w =
      (Inr (Inr (), obj'), w')"
    and pin: "options = Some ht" "zend_hash_str_find ht ''peer_fingerprint'' = Some fp"
  shows "\<exists>ssl r cert. conn_ssl obj' = Some ssl \<and>
    (Info (SSL_get1_peer_certificate ssl), r) \<in> set (trace w') \<and> ptr r = Some cert \<and>
    fingerprint_verdict E cert fp = SUCCESS ()"
  using run
proof (rule client_success)
  fix ctx L r ssl w6 w7
  assume p: "run_state (pin_certificate E options ssl) w6 = (Inr (), w7)"
    and fin: "run_state (client_finish E obj None L) w7 = (Inr (Inr (), obj'), w')"
    and ssl: "cl_ssl L = Some ssl"
  have "conn_ssl obj' = Some ssl"
    using fin ssl by (auto simp: client_finish_def split: prod.splits)
  moreover define r where "r = fst (extern E (engine w6) (Info (SSL_get1_peer_certificate ssl)))"
  have "(Info (SSL_get1_peer_certificate ssl), r) \<in> set (trace w7) \<and>
      (\<exists>cert. ptr r = Some cert \<and> fingerprint_verdict E cert fp = SUCCESS ())"
    unfolding r_def using p pin by (auto simp: pin_certificate_def php_quic_check_fingerprint_def
        split: prod.splits option.splits sum.splits)
  ultimately show ?thesis
    using trace_grows [OF later_no_policy(3) fin] by blast
qed

lemma connected_peer_pinned_witness:
  "\<exists>w' r cert. run_state (Quic_Connection_construct 1 obliging quic_connection_create ''h'' 443
      example_options) \<lparr>engine = (), trace = []\<rparr> =
      (Inr (Inr (), php_quic_connection_init_object 3 1 True None), w') \<and>
    (Info (SSL_get1_peer_certificate 3), r) \<in> set (trace w') \<and> ptr r = Some cert \<and>
    fingerprint_verdict obliging cert (ZString (hex (replicate 32 CHR 0xAB))) = SUCCESS ()"
proof (rule obliging_construct)
  fix w'
  assume r: "run_state (Quic_Connection_construct 1 obliging quic_connection_create ''h'' 443
      example_options) \<lparr>engine = (), trace = []\<rparr> =
    (Inr (Inr (), php_quic_connection_init_object 3 1 True None), w')"
  show ?thesis
    using connected_peer_pinned [OF r example_options_def, of "ZString (hex (replicate 32 CHR 0xAB))"] r
    by (auto simp: zend_hash_str_find_def php_quic_connection_init_object_def)
qed

text \<open>
  C13. The constructor leaks nothing and frees nothing twice: on every path out of it, each
  early return, each \<open>goto\<close> and success, whatever the library answers, what is owned
  afterwards is exactly what the object holds (or, when the model's rounds run out during
  the handshake, the object and the constructor's locals).
\<close>

theorem connection_construct_balanced:
  assumes "connection_wf obj"
  shows "owns (res_connection obj) (Quic_Connection_construct fuel E obj host port options)
    (\<lambda>x. case x of Inl L \<Rightarrow> res_connection obj + res_locals L | Inr (_, obj') \<Rightarrow> res_connection obj')"
  using assms by (rule owns_connection_construct)

lemma connection_construct_balanced_witness:
  "ledger (trace (snd (run_state (Quic_Connection_construct 1 obliging quic_connection_create ''h'' 443
      example_options) \<lparr>engine = (), trace = []\<rparr>))) = Some {#RSsl 3, RFd 1#}"
proof (rule obliging_construct)
  fix w'
  assume r: "run_state (Quic_Connection_construct 1 obliging quic_connection_create ''h'' 443
      example_options) \<lparr>engine = (), trace = []\<rparr> =
    (Inr (Inr (), php_quic_connection_init_object 3 1 True None), w')"
  have "connection_wf quic_connection_create"
    by (simp add: connection_wf_def quic_connection_create_def)
  from ownsD [OF connection_construct_balanced [OF this] _ r, of "{#}"]
  have "ledger (trace w') = Some {#RSsl 3, RFd 1#}"
    by (simp add: connections.create_owns_nothing)
      (simp add: php_quic_connection_init_object_def quic_connection_create_def res_connection_def)
  then show ?thesis by (simp only: r snd_conv)
qed

lemma yields_client_finish:
  "yields (\<lambda>y. (\<exists>e. y = Inr (Inl e, obj)) \<or> (\<exists>L'. y = Inl L') \<or>
      (x = None \<and> y = Inr (Inr (), obj\<lparr>conn_ssl := cl_ssl L, conn_fd := cl_fd L,
        conn_owns_fd := True, conn_closed := False\<rparr>)))
    (client_finish E obj x L)"
  unfolding client_finish_def
  by (cases x) (auto intro!: yields_rules split: client_exit.splits)

definition newly_connected :: "php_quic_connection \<Rightarrow> php_quic_connection \<Rightarrow> bool" where
  "newly_connected obj obj' \<longleftrightarrow> conn_ssl obj = None \<and> conn_ssl obj' \<noteq> None \<and> conn_fd obj' \<noteq> -1 \<and>
     conn_owns_fd obj' \<and> \<not> conn_closed obj' \<and> conn_listener obj' = conn_listener obj"

lemma yields_connection_construct:
  "yields (\<lambda>x. case x of Inr (Inl e, obj') \<Rightarrow> obj' = obj
     | Inr (Inr _, obj') \<Rightarrow> newly_connected obj obj' | Inl L \<Rightarrow> conn_ssl obj = None)
    (Quic_Connection_construct fuel E obj host port options)"
proof -
  let ?V = "\<lambda>x. case x of Inr (Inl e, obj') \<Rightarrow> obj' = obj | Inr (Inr _, obj') \<Rightarrow> newly_connected obj obj'
    | Inl L \<Rightarrow> conn_ssl obj = None"
  have fin: "yields ?V (client_finish E obj x L)"
    if "conn_ssl obj = None" "cl_fd L \<noteq> -1" "x = None \<Longrightarrow> cl_ssl L \<noteq> None" for x L
    by (rule yields_mono [OF yields_client_finish], elim disjE exE conjE)
      (simp_all add: that newly_connected_def del: not_None_eq)
  let ?est = "\<lambda>alpn fd peer. establish fuel E host port options
    (opt_long E options ''idle_timeout_ms'' 0) (opt_long E options ''connect_timeout_ms'' 0)
    \<lparr>cl_alpn = alpn, cl_peer = peer, cl_fd = fd, cl_ctx = None, cl_ssl = None\<rparr>"
  have est: "yields ?V (?est alpn fd peer \<bind> (\<lambda>(x, L). client_finish E obj x L))"
    if "conn_ssl obj = None" "fd \<noteq> -1" for alpn fd peer
    by (rule yields_call [OF yields_establish], simp, simp, rule yields_prod, rule fin [OF that(1)])
      (use that in auto)
  have udp: "yields ?V (php_quic_udp_client E host p \<bind> (\<lambda>u. case u of
        Inl e \<Rightarrow> emit E (Mem (zend_string_release (zs_ptr alpn))) \<bind>
          (\<lambda>_. ret (Inr (Inl (php_quic_throw e), obj)))
      | Inr (fd, peer) \<Rightarrow> ?est alpn fd peer \<bind> (\<lambda>(x, L). client_finish E obj x L)))"
    if "conn_ssl obj = None" for alpn p
    by (rule yields_call [OF yields_udp_client], rule yields_sum)
      (simp add: yields_bind yields_ret, rule yields_prod, rule est [OF that], simp)
  show ?thesis
    unfolding Quic_Connection_construct_def Let_def
    by (intro yields_if yields_option yields_ret, simp_all (no_asm) only: sum.case prod.case simp_thms)
      (rule yields_bind, rule yields_sum, rule yields_ret, simp, rule udp, simp)
qed

text \<open>
  C37. The object changes only on success: a constructor that throws leaves it as it was, one
  that returns has found it unconnected and has given it an \<open>SSL\<close> object, a socket it owns
  and the open state.
\<close>

theorem construct_changes_on_success:
  "case fst (run_state (Quic_Connection_construct fuel E obj host port options) w) of
     Inr (Inl e, obj') \<Rightarrow> obj' = obj
   | Inr (Inr _, obj') \<Rightarrow> newly_connected obj obj'
   | Inl L \<Rightarrow> conn_ssl obj = None"
  using yields_connection_construct [of obj fuel E host port options] by (simp add: yields_def)

subsection \<open>The constructor comes back\<close>

abbreviation not_cut :: "client_exit + unit \<Rightarrow> bool" where
  "not_cut x \<equiv> x \<noteq> Inl Unfinished"

lemma handshake_not_cut:
  assumes "steady_clock E ns" and "nat (sint t) * 1000000 < fuel"
  shows "yields not_cut (handshake fuel E host port t ssl fd)"
proof (cases "0 < sint t")
  case True
  then have timed: "yields (\<lambda>x. x \<noteq> None) (php_quic_connect_timed fuel E ssl fd t)"
    using connect_timed_some [OF assms(1) _ assms(2)] by simp
  show ?thesis
    unfolding handshake_def handshake_failed_def if_P [OF True]
    by (rule yields_call [OF timed]) (auto intro!: yields_rules)
next
  case False
  then show ?thesis
    unfolding handshake_def handshake_failed_def by (auto intro!: yields_rules)
qed

lemma steps_not_cut:
  "yields not_cut (prepare_ssl E host idle cfg L ssl)"
  "yields not_cut (pin_certificate E options ssl)"
  unfolding prepare_ssl_def pin_certificate_def Let_def by (auto intro!: yields_rules)

lemma establish_not_cut:
  assumes "steady_clock E ns" and "nat (sint t) * 1000000 < fuel"
  shows "yields (\<lambda>x. fst x \<noteq> Some Unfinished) (establish fuel E host port options idle t L)"
proof -
  have "yields not_cut (and_then (prepare_ssl E host idle cfg L' ssl) (\<lambda>_.
      and_then (handshake fuel E host port t ssl (cl_fd L')) (\<lambda>_. pin_certificate E options ssl)))"
    for cfg L' ssl
    by (intro yields_and_then [OF steps_not_cut(1)] yields_and_then [OF handshake_not_cut [OF assms]]
        steps_not_cut)
  note steps = yields_call [OF this]
  show ?thesis
    unfolding establish_def Let_def
    by (intro yields_bind yields_option yields_sum yields_ret steps) auto
qed

text \<open>
  With a clock that advances, the constructor always comes back: the loop of a timed
  handshake ends, so that given one round per nanosecond of \<open>connect_timeout_ms\<close> the constructor
  returns or throws, whatever else the library answers.
\<close>

lemma construct_returns:
  assumes "steady_clock E ns"
    and "nat (sint (opt_long E options ''connect_timeout_ms'' 0)) * 1000000 < fuel"
  shows "\<exists>y. fst (run_state (Quic_Connection_construct fuel E obj host port options) w) = Inr y"
proof -
  have fin: "yields (\<lambda>y. \<not> isl y) (client_finish E obj x L)" if "x \<noteq> Some Unfinished" for x L
    unfolding client_finish_def using that
    by (auto intro!: yields_rules split: option.split client_exit.split)
  note est = yields_call [OF establish_not_cut [OF assms]]
  have "yields (\<lambda>y. \<not> isl y) (Quic_Connection_construct fuel E obj host port options)"
    unfolding Quic_Connection_construct_def Let_def
    by (intro yields_if yields_option yields_ret, simp_all)
      (rule yields_bind, rule yields_sum, simp add: yields_ret, rule yields_bind, rule yields_sum,
       simp add: yields_ret yields_bind, rule yields_prod, rule est, rule yields_prod, rule fin, simp)
  then have "\<not> isl (fst (run_state (Quic_Connection_construct fuel E obj host port options) w))"
    by (simp only: yields_def) blast
  then show ?thesis by (metis sum.collapse(2))
qed

lemma construct_returns_witness:
  "\<exists>y. fst (run_state (Quic_Connection_construct 5000001 ticking quic_connection_create ''h'' 443
      (Some [(KStr ''alpn'', ZString ''h3''), (KStr ''connect_timeout_ms'', ZLong 5)]))
      \<lparr>engine = 7, trace = []\<rparr>) = Inr y"
  by (rule construct_returns [OF steady_ticking])
    (simp add: opt_long_def zend_hash_str_find_def ticking_def)

text \<open>
  Closing is idempotent: a second \<open>close\<close> changes nothing and makes no call, whatever code
  and reason it is given, so that the peer sees one \<open>CONNECTION_CLOSE\<close> with the first of them.
\<close>

lemma close_once:
  "Quic_Connection_close E obj code reason \<bind>
     (\<lambda>obj'. Quic_Connection_close E obj' code' reason') = Quic_Connection_close E obj code reason"
  by (rule state_ext)
    (auto simp: Quic_Connection_close_def split: option.split)

end
