(* ===== verification/Quic_Listener.thy ===== *)
theory Quic_Listener
  imports Quic_Connection
begin

text \<open>
  \<open>src/src/quic_listener.c\<close>: the class \<open>Quic\Listener\<close>.  As for the connection, the constructor's C
  locals are a record and every \<open>goto\<close> to its cleanup a value.
\<close>

subsection \<open>ALPN selection\<close>

definition OPENSSL_NPN_NEGOTIATED :: int where [simp]: "OPENSSL_NPN_NEGOTIATED = 1"
definition SSL_TLSEXT_ERR_OK :: int where [simp]: "SSL_TLSEXT_ERR_OK = 0"
definition SSL_TLSEXT_ERR_ALERT_FATAL :: int where [simp]: "SSL_TLSEXT_ERR_ALERT_FATAL = 2"

text \<open>The result and, when it is \<open>SSL_TLSEXT_ERR_OK\<close>, the protocol left in \<open>out\<close>.\<close>

definition quic_alpn_select_cb :: "'w env \<Rightarrow> string \<Rightarrow> string \<Rightarrow> int \<times> string option" where
  "quic_alpn_select_cb E alpn client =
     (case SSL_select_next_proto E alpn client of (status, out) \<Rightarrow>
        if status \<noteq> OPENSSL_NPN_NEGOTIATED then (SSL_TLSEXT_ERR_ALERT_FATAL, None)
        else (SSL_TLSEXT_ERR_OK, Some out))"

subsection \<open>The object\<close>

definition quic_listener_create :: php_quic_listener where
  "quic_listener_create = \<lparr>lis_ssl = None, lis_ctx = None, lis_fd = -1, lis_alpn_cb_arg = None\<rparr>"

definition free_alpn_data :: "'w env \<Rightarrow> (nat \<times> zstr) option \<Rightarrow> ('w, unit) quic" where
  "free_alpn_data E arg =
     (case arg of None \<Rightarrow> ret ()
      | Some (data, alpn) \<Rightarrow> do {
          emit E (Mem (zend_string_release (zs_ptr alpn)));
          emit E (Mem (efree data))
        })"

definition free_ctx :: "'w env \<Rightarrow> nat option \<Rightarrow> ('w, unit) quic" where
  "free_ctx E ctx = (case ctx of None \<Rightarrow> ret () | Some c \<Rightarrow> emit E (Ctx (SSL_CTX_free c)))"

definition quic_listener_release ::
  "'w env \<Rightarrow> php_quic_listener \<Rightarrow> ('w, php_quic_listener) quic" where
  "quic_listener_release E obj = do {
     free_ssl E (lis_ssl obj);
     let obj = obj\<lparr>lis_ssl := None\<rparr>;
     close_fd E (lis_fd obj);
     let obj = obj\<lparr>lis_fd := -1\<rparr>;
     free_ctx E (lis_ctx obj);
     let obj = obj\<lparr>lis_ctx := None\<rparr>;
     free_alpn_data E (lis_alpn_cb_arg obj);
     ret (obj\<lparr>lis_alpn_cb_arg := None\<rparr>)
   }"

text \<open>A listener embeds no zval, so its handler drops no reference.\<close>

definition quic_listener_free ::
  "'w env \<Rightarrow> php_quic_listener \<Rightarrow> ('w, php_quic_listener \<times> nat option) quic" where
  "quic_listener_free E obj = do { obj \<leftarrow> quic_listener_release E obj; ret (obj, None) }"

subsection \<open>The constructor\<close>

record listener_locals =
  ll_alpn :: "zstr option"
  ll_adata :: "(nat \<times> zstr) option"
  ll_fd :: int
  ll_ctx :: "nat option"
  ll_listener :: "nat option"

datatype listener_exit = Setup_error | Cleanup_error exn

text \<open>Lines 174--209, from the socket to a listening server.\<close>

definition listen ::
  "'w env \<Rightarrow> string \<Rightarrow> 64 word \<Rightarrow> hashtable \<Rightarrow> zstr \<Rightarrow> int \<Rightarrow>
     ('w, listener_exit option \<times> listener_locals) quic" where
  "listen E host port options alpn fd = do {
     let L = \<lparr>ll_alpn = Some alpn, ll_adata = None, ll_fd = fd, ll_ctx = None, ll_listener = None\<rparr>;
     r \<leftarrow> ext E (Ctx (SSL_CTX_new True));
     case ptr r of
       None \<Rightarrow> ret (Some Setup_error, L)
     | Some ctx \<Rightarrow> do {
         let L = L\<lparr>ll_ctx := Some ctx\<rparr>;
         c \<leftarrow> php_quic_configure_ctx E ctx (Some options) True;
         case c of
           Inl e \<Rightarrow> ret (Some (Cleanup_error (php_quic_throw e)), L)
         | Inr _ \<Rightarrow> do {
             m \<leftarrow> ext E (Mem (emalloc 8));
             let adata = hnd m;
             let L = L\<lparr>ll_adata := Some (adata, alpn), ll_alpn := None\<rparr>;
             emit E (Ctx (SSL_CTX_set_alpn_select_cb ctx adata));
             r \<leftarrow> ext E (Ssl (SSL_new_listener ctx));
             case ptr r of
               None \<Rightarrow> ret (Some Setup_error, L)
             | Some listener \<Rightarrow> do {
                 let L = L\<lparr>ll_listener := Some listener\<rparr>;
                 b \<leftarrow> ext E (Net (BIO_new_dgram fd));
                 case ptr b of
                   None \<Rightarrow> ret (Some Setup_error, L)
                 | Some bio \<Rightarrow> do {
                     emit E (Ssl (SSL_set_bio listener bio));
                     r \<leftarrow> ext E (Ssl (SSL_listen listener));
                     if rc r \<le> 0 then do {
                       e \<leftarrow> php_quic_throw_ssl E (''failed to start QUIC listener on '' @
                         (if 0 < length host then host else ''*'') @ '':'' @ show_long port);
                       ret (Some (Cleanup_error e), L)
                     } else ret (None, L)
                   }
               }
           }
       }
   }"

text \<open>The \<open>cleanup_error\<close> label.\<close>

definition listener_cleanup :: "'w env \<Rightarrow> listener_locals \<Rightarrow> ('w, unit) quic" where
  "listener_cleanup E L = do {
     (case ll_alpn L of None \<Rightarrow> ret () | Some z \<Rightarrow> emit E (Mem (zend_string_release (zs_ptr z))));
     free_alpn_data E (ll_adata L);
     free_ssl E (ll_listener L);
     free_ctx E (ll_ctx L);
     close_fd E (ll_fd L)
   }"

definition listener_finish ::
  "'w env \<Rightarrow> php_quic_listener \<Rightarrow> listener_exit option \<Rightarrow> listener_locals \<Rightarrow>
     ('w, unit outcome \<times> php_quic_listener) quic" where
  "listener_finish E obj x L =
     (case x of
        Some (Cleanup_error e) \<Rightarrow> do { listener_cleanup E L; ret (Inl e, obj) }
      | Some Setup_error \<Rightarrow> do {
          e \<leftarrow> php_quic_throw_ssl E ''failed to set up QUIC listener'';
          listener_cleanup E L;
          ret (Inl e, obj)
        }
      | None \<Rightarrow> ret (Inr (), obj\<lparr>lis_ssl := ll_listener L, lis_ctx := ll_ctx L,
          lis_fd := ll_fd L, lis_alpn_cb_arg := ll_adata L\<rparr>))"

definition Quic_Listener_construct ::
  "'w env \<Rightarrow> php_quic_listener \<Rightarrow> string \<Rightarrow> 64 word \<Rightarrow> hashtable \<Rightarrow>
     ('w, unit outcome \<times> php_quic_listener) quic" where
  "Quic_Listener_construct E obj host port options =
     (if sint port < 1 \<or> sint port > 65535 then
        ret (Inl (php_quic_throw (''port must be between 1 and 65535, got '' @ show_long port)), obj)
      else if strlen host \<noteq> length host then
        ret (Inl (php_quic_throw ''host must not contain null bytes''), obj)
      else if lis_ssl obj \<noteq> None then
        ret (Inl (php_quic_throw ''listener is already listening''), obj)
      else case client_alpn_spec (Some options) of
        None \<Rightarrow> ret (Inl (php_quic_throw (''the '' @ quoted ''alpn'' @ '' option is required'')), obj)
      | Some alpn_spec \<Rightarrow> do {
          a \<leftarrow> php_quic_alpn_from_zval E alpn_spec;
          case a of
            Inl e \<Rightarrow> ret (Inl (php_quic_throw e), obj)
          | Inr alpn \<Rightarrow> do {
              let portbuf = snprintf 16 (show_long port);
              let reuse_port = (case zend_hash_str_find options ''reuse_port'' of
                None \<Rightarrow> False | Some rp \<Rightarrow> zend_is_true E rp);
              u \<leftarrow> php_quic_udp_server E host portbuf reuse_port;
              case u of
                Inl e \<Rightarrow> do {
                  emit E (Mem (zend_string_release (zs_ptr alpn)));
                  ret (Inl (php_quic_throw e), obj)
                }
              | Inr fd \<Rightarrow> do {
                  (x, L) \<leftarrow> listen E host port options alpn fd;
                  listener_finish E obj x L
                }
            }
        })"

subsection \<open>The methods\<close>

definition Quic_Listener_accept ::
  "'w env \<Rightarrow> nat \<Rightarrow> php_quic_listener \<Rightarrow> ('w, php_quic_connection option) quic" where
  "Quic_Listener_accept E this obj =
     (case lis_ssl obj of
        None \<Rightarrow> ret None
      | Some s \<Rightarrow> do {
          r \<leftarrow> ext E (Ssl (SSL_accept_connection s));
          case ptr r of
            None \<Rightarrow> ret None
          | Some conn \<Rightarrow> do {
              php_quic_connection_configure E conn;
              ret (Some (php_quic_connection_init_object conn (lis_fd obj) False (Some this)))
            }
        })"

definition Quic_Listener_close :: "'w env \<Rightarrow> php_quic_listener \<Rightarrow> ('w, php_quic_listener) quic" where
  "Quic_Listener_close E obj = quic_listener_release E obj"

definition Quic_Listener_getFd :: "php_quic_listener \<Rightarrow> int" where
  "Quic_Listener_getFd obj = lis_fd obj"

definition Quic_Listener_setBlocking ::
  "'w env \<Rightarrow> php_quic_listener \<Rightarrow> bool \<Rightarrow> ('w, unit outcome) quic" where
  "Quic_Listener_setBlocking E obj blocking =
     (case lis_ssl obj of
        None \<Rightarrow> ret (Inl (php_quic_throw ''listener is closed''))
      | Some s \<Rightarrow> do {
          r \<leftarrow> ext E (Ssl (SSL_set_blocking_mode s blocking));
          if rc r = 0 then throw_ssl E ''failed to set blocking mode'' else ret (Inr ())
        })"

definition Quic_Listener_wantsRead :: "'w env \<Rightarrow> php_quic_listener \<Rightarrow> ('w, bool) quic" where
  "Quic_Listener_wantsRead E obj =
     (case lis_ssl obj of
        None \<Rightarrow> ret False
      | Some s \<Rightarrow> do { r \<leftarrow> ext E (Ssl (SSL_net_read_desired s)); ret (rc r \<noteq> 0) })"

definition Quic_Listener_wantsWrite :: "'w env \<Rightarrow> php_quic_listener \<Rightarrow> ('w, bool) quic" where
  "Quic_Listener_wantsWrite E obj =
     (case lis_ssl obj of
        None \<Rightarrow> ret False
      | Some s \<Rightarrow> do { r \<leftarrow> ext E (Ssl (SSL_net_write_desired s)); ret (rc r \<noteq> 0) })"

definition Quic_Listener_getTimeout ::
  "'w env \<Rightarrow> php_quic_listener \<Rightarrow> ('w, double option outcome) quic" where
  "Quic_Listener_getTimeout E obj =
     (case lis_ssl obj of
        None \<Rightarrow> ret (Inr None)
      | Some s \<Rightarrow> do {
          r \<leftarrow> ext E (Ssl (SSL_get_event_timeout s));
          if rc r = 0 then throw_ssl E ''failed to query QUIC event timeout''
          else if flag r then ret (Inr None)
          else ret (Inr (Some (timeval_double E (tv_sec r) (tv_usec r))))
        })"

definition Quic_Listener_handleEvents :: "'w env \<Rightarrow> php_quic_listener \<Rightarrow> ('w, unit) quic" where
  "Quic_Listener_handleEvents E obj =
     (case lis_ssl obj of None \<Rightarrow> ret () | Some s \<Rightarrow> emit E (Ssl (SSL_handle_events s)))"

subsection \<open>The contracts\<close>

definition res_alpn_arg :: "(nat \<times> zstr) option \<Rightarrow> res multiset" where
  "res_alpn_arg a = (case a of None \<Rightarrow> {#} | Some (p, z) \<Rightarrow> {#RMem p, RStr (zs_ptr z)#})"

lemma res_alpn_arg_simps [simp]:
  "res_alpn_arg None = {#}" "res_alpn_arg (Some (p, z)) = {#RMem p, RStr (zs_ptr z)#}"
  by (simp_all add: res_alpn_arg_def)

lemma owns_free_alpn_data: "owns (res_alpn_arg a) (free_alpn_data E a) (\<lambda>_. {#})"
  unfolding free_alpn_data_def
  by (cases a) (auto intro!: own_rules owns_ret)

lemma owns_free_ctx: "owns (opt_res RCtx c) (free_ctx E c) (\<lambda>_. {#})"
  unfolding free_ctx_def by (auto intro!: own_rules owns_ret)

lemma owns_release:
  "owns (res_listener obj) (quic_listener_release E obj) (\<lambda>_. {#})"
  unfolding quic_listener_release_def Let_def res_listener_def res_alpn_arg_def [symmetric]
  by (rule owns_call [OF owns_free_ssl], simp,
      rule owns_call [OF owns_close_fd], simp,
      rule owns_call [OF owns_free_ctx], simp,
      rule owns_call [OF owns_free_alpn_data], simp, simp add: owns_ret)

lemma released_owns_nothing: "yields (\<lambda>y. y = quic_listener_create) (quic_listener_release E obj)"
  unfolding quic_listener_release_def Let_def
  by (intro yields_rules) (simp add: quic_listener_create_def)

interpretation listeners: handle_owner quic_listener_create quic_listener_free res_listener "\<lambda>_. []"
proof unfold_locales
  show none: "res_listener quic_listener_create = {#}"
    by (simp add: res_listener_def quic_listener_create_def)
  fix E :: "'w env" and x
  show "owns (res_listener x) (quic_listener_free E x) (\<lambda>_. {#})"
    unfolding quic_listener_free_def by (rule owns_bind [OF owns_release]) (simp add: owns_ret)
  show "yields (\<lambda>(y, d). res_listener y = {#} \<and> [] = [] \<and> opt_list d = []) (quic_listener_free E x)"
    unfolding quic_listener_free_def
    by (rule yields_call [OF released_owns_nothing]) (simp add: none yields_ret)
qed (rule refl)

interpretation listener_events: event_source lis_ssl "''listener is closed''"
  Quic_Listener_setBlocking Quic_Listener_wantsRead Quic_Listener_wantsWrite
  Quic_Listener_getTimeout Quic_Listener_handleEvents
  by unfold_locales
    (simp_all add: Quic_Listener_setBlocking_def Quic_Listener_wantsRead_def
      Quic_Listener_wantsWrite_def Quic_Listener_getTimeout_def Quic_Listener_handleEvents_def
      php_quic_throw_def snprintf_def MESSAGE_SIZE_def c_str_def NUL_def)

subsection \<open>Ownership\<close>

definition res_listener_locals :: "listener_locals \<Rightarrow> res multiset" where
  "res_listener_locals L =
     (case ll_alpn L of None \<Rightarrow> {#} | Some z \<Rightarrow> {#RStr (zs_ptr z)#}) + res_alpn_arg (ll_adata L) +
     opt_res RSsl (ll_listener L) + opt_res RCtx (ll_ctx L) + fd_res (ll_fd L)"

lemma owns_listener_cleanup:
  "owns (res_listener_locals L) (listener_cleanup E L) (\<lambda>_. {#})"
proof -
  have alpn: "owns (case z of None \<Rightarrow> {#} | Some z \<Rightarrow> {#RStr (zs_ptr z)#})
      (case z of None \<Rightarrow> ret () | Some z \<Rightarrow> emit E (Mem (zend_string_release (zs_ptr z)))) (\<lambda>_. {#})" for z
    by (auto intro!: own_rules owns_ret split: option.split)
  show ?thesis
    unfolding listener_cleanup_def res_listener_locals_def
    by (rule owns_call [OF alpn], simp, rule owns_call [OF owns_free_alpn_data], simp,
        rule owns_call [OF owns_free_ssl], simp, rule owns_call [OF owns_free_ctx], simp,
        simp add: owns_close_fd)
qed

lemma owns_listen:
  assumes "fd \<noteq> -1"
  shows "owns {#RStr (zs_ptr alpn), RFd fd#} (listen E host port options alpn fd)
    (\<lambda>(_, L). res_listener_locals L)"
  unfolding listen_def Let_def
  using assms by (auto intro!: own_rules owns_ret owns_keeps_call [OF owns_configure_ctx]
      simp: res_listener_locals_def)

lemma yields_listen:
  "yields (\<lambda>(x, L). ll_fd L = fd \<and> (x = None \<longrightarrow> ll_alpn L = None \<and> (\<exists>s. ll_listener L = Some s) \<and>
      (\<exists>c. ll_ctx L = Some c) \<and> (\<exists>p. ll_adata L = Some (p, alpn))))
    (listen E host port options alpn fd)"
  unfolding listen_def Let_def by (intro yields_rules) auto

definition listener_wf :: "php_quic_listener \<Rightarrow> bool" where
  "listener_wf l \<longleftrightarrow> (lis_ssl l = None \<longrightarrow> l = quic_listener_create)"

lemma owns_listener_finish:
  assumes "res_listener obj = {#}" and "x = None \<Longrightarrow> ll_alpn L = None"
  shows "owns (res_listener_locals L) (listener_finish E obj x L) (\<lambda>(_, obj'). res_listener obj')"
proof (cases x)
  case None
  then show ?thesis
    using assms(2) unfolding listener_finish_def
    by (auto intro!: owns_ret simp: res_listener_def res_listener_locals_def res_alpn_arg_def
        split: option.split)
next
  case (Some y)
  have last: "owns (res_listener_locals L) (listener_cleanup E L \<bind> (\<lambda>_. ret (Inl e, obj)))
      (\<lambda>(_, obj'). res_listener obj')" for e
    by (rule owns_bind [OF owns_listener_cleanup]) (simp add: owns_ret assms(1))
  show ?thesis
    unfolding listener_finish_def Some
    by (cases y) (auto intro!: owns_throw_ssl_bind last)
qed

lemma owns_listener_construct:
  assumes "listener_wf obj"
  shows "owns (res_listener obj) (Quic_Listener_construct E obj host port options)
    (\<lambda>(_, obj'). res_listener obj')"
proof (cases "sint port < 1 \<or> sint port > 65535 \<or> strlen host \<noteq> length host \<or> lis_ssl obj \<noteq> None")
  case True
  then show ?thesis unfolding Quic_Listener_construct_def by (auto intro!: owns_ret)
next
  case False
  then have obj: "res_listener obj = {#}"
    using assms listeners.create_owns_nothing by (auto simp: listener_wf_def)
  show ?thesis
    unfolding Quic_Listener_construct_def Let_def obj
    using False
    by (auto intro!: own_rules owns_ret owns_call [OF owns_alpn_from_zval]
        owns_yields_call [OF owns_udp_server yields_udp_server]
        owns_yields_call [OF owns_listen yields_listen]
        owns_call_last [OF owns_listener_finish [OF obj]] simp: obj)
qed

lemma owns_accept [own_specs]:
  "owns (res_listener obj) (Quic_Listener_accept E this obj)
    (\<lambda>x. res_listener obj + (case x of None \<Rightarrow> {#} | Some c \<Rightarrow> res_connection c))"
  unfolding Quic_Listener_accept_def php_quic_connection_configure_def res_listener_def
  by (auto intro!: own_rules owns_ret
      simp: php_quic_connection_init_object_def res_connection_def)

lemma owns_listener_close: "owns (res_listener obj) (Quic_Listener_close E obj) (\<lambda>_. {#})"
  unfolding Quic_Listener_close_def by (rule owns_release)

subsection \<open>What the listener does\<close>

text \<open>
  C14. The listener's constructor leaks nothing and frees nothing twice: on every path out of it
  what is owned afterwards is exactly what the object holds.  In particular the encoded ALPN
  list changes owner exactly once, from the local variable to the callback data.
\<close>

theorem listener_construct_balanced:
  assumes "listener_wf obj"
  shows "owns (res_listener obj) (Quic_Listener_construct E obj host port options)
    (\<lambda>(_, obj'). res_listener obj')"
  using assms by (rule owns_listener_construct)

definition server_options :: hashtable where
  "server_options = [(KStr ''alpn'', ZArray [(KIdx 0, ZString ''h3'')]),
     (KStr ''local_cert'', ZString ''cert.pem'')]"

definition example_listener :: php_quic_listener where
  "example_listener = \<lparr>lis_ssl = Some 3, lis_ctx = Some 3, lis_fd = 1,
     lis_alpn_cb_arg = Some (4, \<lparr>zs_ptr = 4, zs_val = char_of (2::nat) # ''h3''\<rparr>)\<rparr>"

lemma obliging_listen:
  obtains w' where "run_state (Quic_Listener_construct obliging quic_listener_create ''h'' 443
      server_options) \<lparr>engine = (), trace = []\<rparr> = ((Inr (), example_listener), w')"
proof -
  have "fst (run_state (Quic_Listener_construct obliging quic_listener_create ''h'' 443 server_options)
      \<lparr>engine = (), trace = []\<rparr>) = (Inr (), example_listener)"
    by (simp add: Quic_Listener_construct_def Let_def strlen_def c_str_def NUL_def
        quic_listener_create_def client_alpn_spec_def zend_hash_str_find_def
        php_quic_alpn_from_zval_def alpn_buffer_def php_quic_alpn_append_def
        php_quic_udp_server_def listen_def server_options_def)
      (simp add: php_quic_configure_ctx_def and_then_def load_identity_def
        set_peer_verification_def Let_def set_tls_tuning_def set_list_option_def strlen_def c_str_def
        php_quic_opt_string_def zend_hash_str_find_def read_tls_options_def opt_bool_def
        opt_long_def listener_finish_def example_listener_def NUL_def numeral_2_eq_2)
  then show thesis using that by (metis prod.collapse)
qed

lemma listener_construct_balanced_witness:
  "ledger (trace (snd (run_state (Quic_Listener_construct obliging quic_listener_create ''h'' 443
      server_options) \<lparr>engine = (), trace = []\<rparr>))) = Some {#RSsl 3, RFd 1, RCtx 3, RMem 4, RStr 4#}"
proof (rule obliging_listen)
  fix w'
  assume r: "run_state (Quic_Listener_construct obliging quic_listener_create ''h'' 443
      server_options) \<lparr>engine = (), trace = []\<rparr> = ((Inr (), example_listener), w')"
  have "listener_wf quic_listener_create" by (simp add: listener_wf_def)
  from ownsD [OF listener_construct_balanced [OF this] _ r, of "{#}"]
  have "ledger (trace w') = Some {#RSsl 3, RFd 1, RCtx 3, RMem 4, RStr 4#}"
    by (simp add: listeners.create_owns_nothing) (simp add: example_listener_def res_listener_def)
  then show ?thesis by (simp only: r snd_conv)
qed

definition newly_listening :: "'w env \<Rightarrow> hashtable \<Rightarrow> php_quic_listener \<Rightarrow> php_quic_listener \<Rightarrow> bool" where
  "newly_listening E options obj obj' \<longleftrightarrow> lis_ssl obj = None \<and> lis_ssl obj' \<noteq> None \<and>
     lis_ctx obj' \<noteq> None \<and> lis_fd obj' \<noteq> -1 \<and>
     (case (client_alpn_spec (Some options), lis_alpn_cb_arg obj') of
        (Some spec, Some (_, z)) \<Rightarrow> alpn_buffer E spec = SUCCESS (zs_val z) | _ \<Rightarrow> False)"

lemma yields_alpn_from_zval:
  "yields (\<lambda>x. case x of Inl e \<Rightarrow> alpn_buffer E v = Inl e | Inr z \<Rightarrow> alpn_buffer E v = Inr (zs_val z))
    (php_quic_alpn_from_zval E v)"
  unfolding php_quic_alpn_from_zval_def by (auto intro!: yields_rules)

lemma yields_listener_construct:
  "yields (\<lambda>x. case x of (Inl e, obj') \<Rightarrow> obj' = obj | (Inr _, obj') \<Rightarrow> newly_listening E options obj obj')
    (Quic_Listener_construct E obj host port options)"
proof -
  let ?V = "\<lambda>x. case x of (Inl e, obj') \<Rightarrow> obj' = obj | (Inr _, obj') \<Rightarrow> newly_listening E options obj obj'"
  have fin: "yields ?V (listener_finish E obj x L)"
    if "x = None \<Longrightarrow> newly_listening E options obj (obj\<lparr>lis_ssl := ll_listener L, lis_ctx := ll_ctx L,
          lis_fd := ll_fd L, lis_alpn_cb_arg := ll_adata L\<rparr>)" for x L
    unfolding listener_finish_def using that
    by (auto intro!: yields_rules split: option.split listener_exit.split)
  have listen: "yields ?V (listen E host port options alpn fd \<bind> (\<lambda>(x, L). listener_finish E obj x L))"
    if "lis_ssl obj = None" "fd \<noteq> -1" "client_alpn_spec (Some options) = Some spec"
      "alpn_buffer E spec = Inr (zs_val alpn)" for alpn fd spec
    by (rule yields_call [OF yields_listen], rule yields_prod, rule fin)
      (use that in \<open>auto simp: newly_listening_def\<close>)
  have udp: "yields ?V (php_quic_udp_server E host p rp \<bind> (\<lambda>u. case u of
        Inl e \<Rightarrow> emit E (Mem (zend_string_release (zs_ptr alpn))) \<bind>
          (\<lambda>_. ret (Inl (php_quic_throw e), obj))
      | Inr fd \<Rightarrow> listen E host port options alpn fd \<bind> (\<lambda>(x, L). listener_finish E obj x L)))"
    if "lis_ssl obj = None" "client_alpn_spec (Some options) = Some spec"
      "alpn_buffer E spec = Inr (zs_val alpn)" for alpn p rp spec
    by (rule yields_call [OF yields_udp_server], rule yields_sum)
      (simp add: yields_bind yields_ret, rule listen [OF that(1) _ that(2,3)], simp)
  show ?thesis
    unfolding Quic_Listener_construct_def Let_def
    by (intro yields_if yields_option yields_ret, simp_all (no_asm) only: sum.case prod.case simp_thms)
      (rule yields_call [OF yields_alpn_from_zval], rule yields_sum, rule yields_ret, simp, rule udp, simp_all)
qed

text \<open>
  The listener changes only on success: a constructor that throws leaves it as it was, one
  that returns has found it closed and has given it an \<open>SSL\<close> object, a context, a socket and
  the callback data with the ALPN list of the options.
\<close>

lemma listen_changes_on_success:
  "case fst (run_state (Quic_Listener_construct E obj host port options) w) of
     (Inl e, obj') \<Rightarrow> obj' = obj
   | (Inr _, obj') \<Rightarrow> newly_listening E options obj obj'"
  using yields_listener_construct [of obj E options host port] by (simp add: yields_def)

definition release_calls :: "php_quic_listener \<Rightarrow> call list" where
  "release_calls obj =
     (case lis_ssl obj of None \<Rightarrow> [] | Some s \<Rightarrow> [Ssl (SSL_free s)]) @
     (if lis_fd obj = -1 then [] else [Net (BIO_closesocket (lis_fd obj))]) @
     (case lis_ctx obj of None \<Rightarrow> [] | Some c \<Rightarrow> [Ctx (SSL_CTX_free c)]) @
     (case lis_alpn_cb_arg obj of None \<Rightarrow> []
      | Some (p, z) \<Rightarrow> [Mem (zend_string_release (zs_ptr z)), Mem (efree p)])"

text \<open>
  C34. Closing gives everything back once, in the order OpenSSL needs: the listener object, the
  socket, the context, and only then the callback data the context points to.  A closed
  listener is a fresh one: it can listen again, and closing it again makes no call.
\<close>

theorem listener_close_releases:
  "fst (run_state (Quic_Listener_close E obj) w) = quic_listener_create \<and>
   map fst (trace (snd (run_state (Quic_Listener_close E obj) w))) =
     rev (release_calls obj) @ map fst (trace w) \<and>
   release_calls quic_listener_create = []"
  by (auto simp: Quic_Listener_close_def quic_listener_release_def free_ssl_def close_fd_def
      free_ctx_def free_alpn_data_def release_calls_def quic_listener_create_def Let_def
      split: option.split)

text \<open>
  C35. Closing a listener leaves the connections accepted from it with a socket number that is
  no longer theirs: the descriptor is closed, while \<open>getFd\<close> of an accepted connection still
  returns it.
\<close>

theorem accepted_fd_dangles:
  assumes "lis_ssl obj = Some s" and "lis_fd obj \<noteq> -1"
    and "ledger (trace w) = Some (res_listener obj)"
    and "run_state (Quic_Listener_accept E this obj) w = (Some c, w1)"
    and "run_state (Quic_Listener_close E obj) w1 = (obj', w2)"
  shows "Quic_Connection_getFd c = lis_fd obj \<and> Quic_Connection_getFd c \<noteq> -1 \<and>
    (\<exists>M. ledger (trace w2) = Some M \<and> RFd (Quic_Connection_getFd c) \<notin># M)"
proof -
  have "ledger (trace w1) = Some (res_listener obj + res_connection c)"
    using ownsD [OF owns_accept _ assms(4), of "{#}"] assms(3) by simp
  then have "ledger (trace w2) = Some (res_connection c)"
    using ownsD [OF owns_listener_close _ assms(5), of "res_connection c"] by (simp add: add.commute)
  moreover obtain conn where "c = php_quic_connection_init_object conn (lis_fd obj) False (Some this)"
    using assms(1,4) by (auto simp: Quic_Listener_accept_def split: option.splits prod.splits)
  then have "conn_fd c = lis_fd obj" "res_connection c = {#RSsl conn#}"
    by (simp_all add: php_quic_connection_init_object_def res_connection_def)
  ultimately show ?thesis using assms(2) by (simp add: Quic_Connection_getFd_def)
qed

lemma accepted_fd_dangles_witness:
  "\<exists>w w1 w2 c obj'. run_state (Quic_Listener_accept obliging 0 example_listener) w = (Some c, w1) \<and>
     run_state (Quic_Listener_close obliging example_listener) w1 = (obj', w2) \<and>
     Quic_Connection_getFd c = 1 \<and> (\<exists>M. ledger (trace w2) = Some M \<and> RFd 1 \<notin># M)"
proof (rule obliging_listen)
  fix w
  assume r: "run_state (Quic_Listener_construct obliging quic_listener_create ''h'' 443
      server_options) \<lparr>engine = (), trace = []\<rparr> = ((Inr (), example_listener), w)"
  have "listener_wf quic_listener_create" by (simp add: listener_wf_def)
  from ownsD [OF owns_listener_construct [OF this] _ r, of "{#}"]
  have l: "ledger (trace w) = Some (res_listener example_listener)"
    by (simp add: listeners.create_owns_nothing)
  obtain c w1 where a: "run_state (Quic_Listener_accept obliging 0 example_listener) w = (Some c, w1)"
    by (simp add: Quic_Listener_accept_def example_listener_def php_quic_connection_configure_def)
  obtain obj' w2 where b: "run_state (Quic_Listener_close obliging example_listener) w1 = (obj', w2)"
    by fastforce
  have "lis_ssl example_listener = Some 3" "lis_fd example_listener = 1"
    by (simp_all add: example_listener_def)
  then have "Quic_Connection_getFd c = 1 \<and> (\<exists>M. ledger (trace w2) = Some M \<and> RFd 1 \<notin># M)"
    using accepted_fd_dangles [OF _ _ l a b] by auto
  with a b show ?thesis by blast
qed

definition selects_server_preference :: "'w env \<Rightarrow> bool" where
  "selects_server_preference E \<longleftrightarrow>
     (\<forall>server client. list_all alpn_name server \<longrightarrow> list_all alpn_name client \<longrightarrow>
        (case find (\<lambda>p. p \<in> set client) server of
           Some p \<Rightarrow> SSL_select_next_proto E (alpn_wire server) (alpn_wire client) = (1, p)
         | None \<Rightarrow> fst (SSL_select_next_proto E (alpn_wire server) (alpn_wire client)) \<noteq> 1))"

text \<open>
  C24. The server's preference decides.  Let \<open>SSL_select_next_proto\<close> pick, from lists in wire
  format, the first protocol of the server's list that the client offers; then the callback
  accepts exactly the clients offering a protocol the \<open>alpn\<close> string names, with the first of the
  string they offer, and refuses every other with a fatal alert.
\<close>

theorem alpn_negotiation:
  assumes "selects_server_preference E" and "alpn_buffer E (ZString s) = SUCCESS alpn"
    and "list_all alpn_name client"
  shows "quic_alpn_select_cb E alpn (alpn_wire client) =
    (case find (\<lambda>p. p \<in> set client) (alpn_tokens s) of
       Some p \<Rightarrow> (SSL_TLSEXT_ERR_OK, Some p) | None \<Rightarrow> (SSL_TLSEXT_ERR_ALERT_FATAL, None))"
proof -
  have "find (\<lambda>p. \<not> alpn_name p) (alpn_tokens s) = None" and alpn: "alpn = alpn_wire (alpn_tokens s)"
    using assms(2) by (auto simp: alpn_buffer_string alpn_string_spec_def split: option.splits if_splits)
  then have "list_all alpn_name (alpn_tokens s)" by (simp add: find_None_iff list_all_iff)
  with assms(1,3) have "case find (\<lambda>p. p \<in> set client) (alpn_tokens s) of
      Some p \<Rightarrow> SSL_select_next_proto E alpn (alpn_wire client) = (1, p)
    | None \<Rightarrow> fst (SSL_select_next_proto E alpn (alpn_wire client)) \<noteq> 1"
    unfolding alpn selects_server_preference_def by blast
  then show ?thesis
    unfolding quic_alpn_select_cb_def by (auto split: option.splits prod.splits)
qed

definition preferring :: "unit env" where
  "preferring = (answering (\<lambda>u c. (no_reply, u)))\<lparr>SSL_select_next_proto := (\<lambda>server client.
     case (alpn_read server, alpn_read client) of
       (Some ss, Some cs) \<Rightarrow> (case find (\<lambda>p. p \<in> set cs) ss of Some p \<Rightarrow> (1, p) | None \<Rightarrow> (2, []))
     | _ \<Rightarrow> (2, []))\<rparr>"

lemma alpn_negotiation_witness:
  "quic_alpn_select_cb preferring (alpn_wire [''h3'', ''hq'']) (alpn_wire [''x'', ''hq'']) = (0, Some ''hq'')"
proof -
  have "selects_server_preference preferring"
    by (auto simp: selects_server_preference_def preferring_def alpn_read_wire split: option.split)
  moreover have "alpn_tokens ''h3, hq'' = [''h3'', ''hq'']"
    by (simp add: alpn_tokens_def trim_right_def trim_left_def blank_def)
  then have "alpn_buffer preferring (ZString ''h3, hq'') = SUCCESS (alpn_wire [''h3'', ''hq''])"
    by (simp add: alpn_buffer_string alpn_string_spec_def alpn_name_def)
  ultimately show ?thesis
    using alpn_negotiation [of preferring "''h3, hq''" "alpn_wire [''h3'', ''hq'']" "[''x'', ''hq'']"]
      \<open>alpn_tokens _ = _\<close> by (simp add: alpn_name_def)
qed

end
