(* ===== verification/Quic_Poll.thy ===== *)
theory Quic_Poll
  imports Quic_Object
begin

text \<open>
  \<open>src/src/quic_poll.c\<close>: the function \<open>Quic\poll\<close>.  It validates the items, converts the timeout,
  makes one \<open>SSL_poll\<close> and maps the events back to the caller's keys.  \<open>store\<close> resolves the objects
  the items name.
\<close>

subsection \<open>The items\<close>

definition php_quic_obj_ssl :: "(nat \<Rightarrow> php_object) \<Rightarrow> zval \<Rightarrow> nat option" where
  "php_quic_obj_ssl store zv =
     (case zv of
        ZObject p \<Rightarrow> (case store p of
            OConnection c \<Rightarrow> conn_ssl c
          | OListener l \<Rightarrow> lis_ssl l
          | OStream s \<Rightarrow> str_ssl s
          | OForeign \<Rightarrow> None)
      | _ \<Rightarrow> None)"

definition zval_deref :: "zval \<Rightarrow> zval" where
  "zval_deref v = (case v of ZRef u \<Rightarrow> u | _ \<Rightarrow> v)"

definition BACKSLASH :: char where
  "BACKSLASH = CHR 0x5C"

definition not_live :: "nat \<Rightarrow> string" where
  "not_live i = 
     ''poll item #'' @ show_nat i @ '' is not a live Quic'' @ [BACKSLASH] @ ''Connection, Quic'' @
     [BACKSLASH] @ ''Listener, or Quic'' @ [BACKSLASH] @ ''Stream''"

text \<open>The first loop: descriptors and requested events, or the exception of the first bad item.\<close>

fun poll_items :: "'w env \<Rightarrow> (nat \<Rightarrow> php_object) \<Rightarrow> nat \<Rightarrow> zval list \<Rightarrow> exn + (nat \<times> 64 word) list" where
  "poll_items E store i [] = Inr []"
| "poll_items E store i (entry # rest) =
     (case zval_deref entry of
        ZArray a \<Rightarrow>
          (case (zend_hash_index_find a 0, zend_hash_index_find a 1) of
             (Some obj_zv, Some events_zv) \<Rightarrow>
               (case php_quic_obj_ssl store obj_zv of
                  None \<Rightarrow> Inl (php_quic_throw (not_live i))
                | Some ssl \<Rightarrow>
                    (case poll_items E store (i + 1) rest of
                       Inl e \<Rightarrow> Inl e
                     | Inr items \<Rightarrow> Inr ((ssl, zval_get_long E events_zv) # items)))
           | _ \<Rightarrow> Inl (php_quic_throw ''each poll item must be [object, events]''))
      | _ \<Rightarrow> Inl (php_quic_throw ''each poll item must be an array [object, events]''))"

subsection \<open>The timeout\<close>

text \<open>\<open>(long)x\<close> truncates; of a NaN or an infinity it is undefined (\<open>None\<close>).\<close>

definition c_long :: "double \<Rightarrow> int option" where
  "c_long x = (case x of Fin q \<Rightarrow> Some (if 0 \<le> q then \<lfloor>q\<rfloor> else \<lceil>q\<rceil>) | _ \<Rightarrow> None)"

definition poll_timeval :: "'w env \<Rightarrow> double \<Rightarrow> (64 word \<times> 64 word) option" where
  "poll_timeval E timeout =
     (let timeout = (if timeout < Fin 0 then Fin 0
                     else if Fin 100000000 < timeout then Fin 100000000 else timeout)
      in case timeout of
           Fin q \<Rightarrow>
             (case c_long (Fin q) of
                None \<Rightarrow> None
              | Some sec \<Rightarrow>
                  (case c_long (Fin (fl E (fl E (q - of_int sec) * 1000000))) of
                     None \<Rightarrow> None
                   | Some usec \<Rightarrow> Some (word_of_int sec, word_of_int usec)))
         | _ \<Rightarrow> None)"

subsection \<open>The results\<close>

text \<open>The second loop: the caller's keys, in order, with the events that are not zero.\<close>

fun poll_results :: "zkey list \<Rightarrow> 64 word list \<Rightarrow> hashtable" where
  "poll_results (k # ks) (e # es) =
     (if e \<noteq> 0 then (k, ZLong e) # poll_results ks es else poll_results ks es)"
| "poll_results _ _ = []"

subsection \<open>The function\<close>

text \<open>
  \<open>sizeof (SSL_POLL_ITEM)\<close> is 32; up to 16 items live on the stack.  The outer \<open>None\<close> is a call
  whose timeout conversion is undefined; \<open>revents\<close> starts as zeros.
\<close>

definition free_items :: "'w env \<Rightarrow> nat option \<Rightarrow> ('w, unit) quic" where
  "free_items E buf = (case buf of None \<Rightarrow> ret () | Some p \<Rightarrow> emit E (Mem (efree p)))"

definition Quic_poll ::
  "'w env \<Rightarrow> (nat \<Rightarrow> php_object) \<Rightarrow> hashtable \<Rightarrow> double option \<Rightarrow> ('w, hashtable outcome option) quic" where
  "Quic_poll E store items timeout =
     (let n = length items in
      if n = 0 then ret (Some (Inr []))
      else do {
        buf \<leftarrow> (if n \<le> 16 then ret None
               else do { m \<leftarrow> ext E (Mem (emalloc (n * 32))); ret (Some (hnd m)) });
        case poll_items E store 0 (map snd items) of
          Inl e \<Rightarrow> do { free_items E buf; ret (Some (Inl e)) }
        | Inr descs \<Rightarrow>
            (case (case timeout of None \<Rightarrow> Some None | Some t \<Rightarrow> map_option Some (poll_timeval E t)) of
               None \<Rightarrow> do { free_items E buf; ret None }
             | Some tvp \<Rightarrow> do {
                 r \<leftarrow> ext E (Ssl (SSL_poll descs tvp));
                 if rc r = 0 then do {
                   free_items E buf;
                   e \<leftarrow> throw_ssl E ''SSL_poll failed'';
                   ret (Some e)
                 } else do {
                   let revents = take n (revents r @ replicate n 0);
                   let result = poll_results (map fst items) revents;
                   free_items E buf;
                   ret (Some (Inr result))
                 }
               })
      })"

subsection \<open>The results belong to their keys\<close>

lemma poll_results_keys: "set (map fst (poll_results ks es)) \<subseteq> set ks"
  by (induction ks es rule: poll_results.induct) auto

lemma poll_results_lookup:
  "distinct ks \<Longrightarrow> length es = length ks \<Longrightarrow> i < length ks \<Longrightarrow>
     map_of (poll_results ks es) (ks ! i) = (if es ! i = 0 then None else Some (ZLong (es ! i)))"
proof (induction ks es arbitrary: i rule: poll_results.induct)
  case (1 k ks e es)
  have "k \<notin> fst ` set (poll_results ks es)"
    using poll_results_keys [of ks es] "1.prems"(1) by auto
  then have "map_of (poll_results ks es) k = None" by (simp add: map_of_eq_None_iff)
  with 1 show ?case by (cases i) (auto simp: nth_eq_iff_index_eq)
qed auto

subsection \<open>Ownership\<close>

lemma poll_items_live:
  assumes "\<And>p s. php_quic_obj_ssl store (ZObject p) = Some s \<Longrightarrow> RSsl s \<in># P"
  shows "poll_items E store i zs = Inr descs \<Longrightarrow> list_all (\<lambda>d. RSsl (fst d) \<in># P) descs"
proof (induction zs arbitrary: i descs)
  case (Cons entry rest)
  have live: "RSsl s \<in># P" if "php_quic_obj_ssl store zv = Some s" for zv s
    using that assms by (cases zv) (auto simp: php_quic_obj_ssl_def)
  from Cons show ?case
    by (auto split: zval.splits option.splits sum.splits simp: live)
qed simp

lemma owns_free_items: "owns (opt_res RMem buf) (free_items E buf) (\<lambda>_. {#})"
  unfolding free_items_def by (auto intro!: own_rules owns_ret)

lemma owns_poll:
  assumes "\<And>p s. php_quic_obj_ssl store (ZObject p) = Some s \<Longrightarrow> RSsl s \<in># P"
  shows "keeps P (Quic_poll E store items timeout)"
proof -
  let ?tail = "\<lambda>buf. case poll_items E store 0 (map snd items) of
          Inl e \<Rightarrow> do { free_items E buf; ret (Some (Inl e)) }
        | Inr descs \<Rightarrow>
            (case (case timeout of None \<Rightarrow> Some None | Some t \<Rightarrow> map_option Some (poll_timeval E t)) of
               None \<Rightarrow> do { free_items E buf; ret None }
             | Some tvp \<Rightarrow> do {
                 r \<leftarrow> ext E (Ssl (SSL_poll descs tvp));
                 if rc r = 0 then do {
                   free_items E buf;
                   e \<leftarrow> throw_ssl E ''SSL_poll failed'';
                   ret (Some e)
                 } else do {
                   free_items E buf;
                   ret (Some (Inr (poll_results (map fst items)
                     (take (length items) (revents r @ replicate (length items) 0)))))
                 }
               })"
  have live: "list_all (\<lambda>d. RSsl (fst d) \<in># P + M) descs"
    if "poll_items E store 0 (map snd items) = Inr descs" for descs M
    using poll_items_live [of store P, OF assms that] by (auto simp: list_all_iff)
  have free: "owns (P + opt_res RMem buf) (free_items E buf \<bind> f) Q"
    if "\<And>u. owns P (f u) Q" for buf f and Q :: "hashtable outcome option \<Rightarrow> res multiset"
    by (rule owns_call [OF owns_free_items]) (simp_all add: that)
  have tail: "owns (P + opt_res RMem buf) (?tail buf) (\<lambda>_. P)" for buf
    by (auto intro!: owns_sum owns_option owns_if free owns_ret owns_bind_ext
        simp: list_all_length live [unfolded list_all_length]
          live [of _ "{#}", unfolded list_all_length, simplified] throw_ssl_def State_Monad.bind_assoc
        intro: owns_throw_ssl_bind)
  have some: "owns (add_mset (RMem p) P) (?tail (Some p)) (\<lambda>_. P)" for p
    using tail [of "Some p"] by simp
  have none: "owns P (?tail None) (\<lambda>_. P)"
    using tail [of None] by simp
  show ?thesis
  proof (cases "items = []")
    case False
    then have *: "length items \<noteq> 0" by simp
    show ?thesis
      unfolding Quic_poll_def Let_def if_not_P [OF *]
      by (rule owns_bind_if; unfold State_Monad.bind_assoc State_Monad.bind_left_identity)
        (rule none, rule owns_bind_ext, simp, simp, simp, rule some)
  qed (simp add: Quic_poll_def owns_ret)
qed

subsection \<open>What the function does\<close>

text \<open>
  C28. \<open>Quic\poll\<close> returns everything it takes: on every path (no items, a bad item, a failing
  \<open>SSL_poll\<close>, success), with the items on the stack or on the heap, what is owned afterwards is
  what was owned before, and OpenSSL is only handed objects that are alive.
\<close>

theorem poll_balanced:
  assumes "\<And>p s. php_quic_obj_ssl store (ZObject p) = Some s \<Longrightarrow> RSsl s \<in># P"
  shows "keeps P (Quic_poll E store items timeout)"
  using assms by (rule owns_poll)

definition example_store :: "nat \<Rightarrow> php_object" where
  "example_store p = (if p = 1 then OStream \<lparr>str_ssl = Some 7, str_connection = Some 2\<rparr> else OForeign)"

lemma poll_balanced_witness:
  "ledger (trace (snd (run_state (Quic_poll scripted example_store
      (replicate 20 (KIdx 0, ZArray [(KIdx 0, ZObject 1), (KIdx 1, ZLong 3)])) None)
      \<lparr>engine = [], trace = [(Strm (SSL_accept_stream 2), no_reply\<lparr>ptr := Some 7\<rparr>),
         (Ssl (SSL_new 1), no_reply\<lparr>ptr := Some 2\<rparr>), (Ctx (SSL_CTX_new False), no_reply\<lparr>ptr := Some 1\<rparr>)]\<rparr>)))
   = Some {#RCtx 1, RSsl 2, RSsl 7#}"
proof -
  let ?items = "replicate 20 (KIdx 0, ZArray [(KIdx 0, ZObject 1), (KIdx 1, ZLong 3)])"
  let ?w = "\<lparr>engine = [], trace = [(Strm (SSL_accept_stream 2), no_reply\<lparr>ptr := Some 7\<rparr>),
    (Ssl (SSL_new 1), no_reply\<lparr>ptr := Some 2\<rparr>), (Ctx (SSL_CTX_new False), no_reply\<lparr>ptr := Some 1\<rparr>)]\<rparr>"
  have "keeps {#RSsl 7#} (Quic_poll scripted example_store ?items None)"
    by (rule poll_balanced) (auto simp: php_quic_obj_ssl_def example_store_def split: if_splits)
  from ownsD [OF this _ prod.collapse [symmetric], of ?w "{#RCtx 1, RSsl 2#}"]
  show ?thesis by (simp add: ledger_step_def)
qed

text \<open>
  C29. Events belong to the caller's keys: with the distinct keys of a PHP array, the result maps
  each key to the events of the item at its place, and holds no key whose item has none.
\<close>

theorem poll_results_by_key:
  assumes "distinct ks" and "length es = length ks" and "i < length ks"
  shows "map_of (poll_results ks es) (ks ! i) = (if es ! i = 0 then None else Some (ZLong (es ! i)))"
  using assms by (rule poll_results_lookup)

lemma poll_results_by_key_witness:
  "map_of (poll_results [KStr ''a'', KIdx 4] [0, 9]) (KIdx 4) = Some (ZLong 9)"
  using poll_results_by_key [of "[KStr ''a'', KIdx 4]" "[0, 9]" 1] by simp

definition item_desc :: "'w env \<Rightarrow> (nat \<Rightarrow> php_object) \<Rightarrow> zval \<Rightarrow> (nat \<times> 64 word) option" where
  "item_desc E store entry =
     (case zval_deref entry of
        ZArray a \<Rightarrow> Option.bind (zend_hash_index_find a 0) (\<lambda>ob.
          Option.bind (zend_hash_index_find a 1) (\<lambda>e.
          Option.bind (php_quic_obj_ssl store ob) (\<lambda>s. Some (s, zval_get_long E e))))
      | _ \<Rightarrow> None)"

lemma poll_items_Cons:
  "poll_items E store i (z # zs) = Inr ds \<longleftrightarrow>
     (\<exists>d ds'. item_desc E store z = Some d \<and> poll_items E store (i + 1) zs = Inr ds' \<and> ds = d # ds')"
  by (auto simp: item_desc_def split: zval.splits option.splits sum.splits Option.bind_splits)

lemma poll_items_desc:
  "poll_items E store i zs = Inr ds \<longleftrightarrow> map (item_desc E store) zs = map Some ds"
proof (induction zs arbitrary: i ds)
  case (Cons z zs)
  show ?case unfolding poll_items_Cons Cons.IH by (cases ds) auto
qed auto

fun poll_call_ok :: "'w env \<Rightarrow> (nat \<Rightarrow> php_object) \<Rightarrow> hashtable \<Rightarrow> call \<Rightarrow> bool" where
  "poll_call_ok E store items (Ssl (SSL_poll ds _)) =
     (items \<noteq> [] \<and> map (item_desc E store) (map snd items) = map Some ds)"
| "poll_call_ok E store items (Mem (emalloc n)) = (16 < length items \<and> n = length items * 32)"
| "poll_call_ok E store items (Mem (efree _)) = (16 < length items)"
| "poll_call_ok E store items (Err _) = True"
| "poll_call_ok E store items _ = False"

text \<open>
  C30. One bad item fails the whole call before OpenSSL is reached: when \<open>SSL_poll\<close> is called at all,
  every item was an array of a live object and an event mask, and OpenSSL gets their \<open>SSL\<close>
  objects and masks in the caller's order.
\<close>

theorem poll_all_or_nothing: "makes (poll_call_ok E store items) (Quic_poll E store items timeout)"
proof (cases "items = []")
  case False
  have "makes (poll_call_ok E store items) (free_items E buf)" if "buf \<noteq> None \<Longrightarrow> 16 < length items" for buf
    unfolding free_items_def using that by (auto intro!: makes_rules)
  then show ?thesis
    unfolding Quic_poll_def Let_def free_items_def
    by (cases "length items \<le> 16")
      (auto intro!: makes_rules simp: poll_items_desc False split: option.split)
qed (simp add: Quic_poll_def makes_ret)

text \<open>
  The finite doubles are the numbers \<open>m * 2 ^ (k - 1074)\<close> with a significand of at most 53 bits.
  Rounding to nearest is the only thing assumed of the arithmetic: within the range, no double is
  nearer to \<open>x\<close> than \<open>f x\<close> is; how ties are broken does not matter.
\<close>

definition binary64 :: "rat \<Rightarrow> bool" where
  "binary64 x \<longleftrightarrow> (\<exists>m k. x = of_int m * 2 ^ k / 2 ^ 1074 \<and> \<bar>m\<bar> < 2 ^ 53 \<and> k \<le> 2045)"

definition rounds :: "(rat \<Rightarrow> rat) \<Rightarrow> bool" where
  "rounds f \<longleftrightarrow> (\<forall>x y. \<bar>x\<bar> \<le> 2 ^ 1023 \<longrightarrow> binary64 y \<longrightarrow> \<bar>f x - x\<bar> \<le> \<bar>y - x\<bar>)"

fun is_double :: "double \<Rightarrow> bool" where
  "is_double (Fin q) = binary64 q"
| "is_double _ = True"

lemma binary64I: "\<bar>m\<bar> < 2 ^ 53 \<Longrightarrow> d \<le> 1074 \<Longrightarrow> binary64 (of_int m / 2 ^ d)"
  unfolding binary64_def
  by (intro exI [of _ m] exI [of _ "1074 - d"]) (simp add: field_simps flip: power_add)

lemma binary64_of_int: "\<bar>m\<bar> < 2 ^ 53 \<Longrightarrow> binary64 (of_int m)"
  using binary64I [of m 0] by simp

text \<open>What is left of a double after the point is a double again, and not the one just below 1.\<close>

lemma binary64_frac:
  assumes "binary64 q" and "0 \<le> q"
  shows "binary64 (q - of_int \<lfloor>q\<rfloor>) \<and> q - of_int \<lfloor>q\<rfloor> \<le> 1 - 1 / 2 ^ 53"
proof -
  obtain m k where q: "q = of_int m * 2 ^ k / 2 ^ 1074" and m: "\<bar>m\<bar> < 2 ^ 53"
    using assms(1) unfolding binary64_def by blast
  have "\<not> (2 :: rat) ^ k \<le> 0" by (simp add: not_le)
  then have "0 \<le> m" using assms(2) by (auto simp: q zero_le_mult_iff zero_le_divide_iff)
  show ?thesis
  proof (cases "1074 \<le> k")
    case True
    then obtain j where "k = j + 1074" by (metis le_add_diff_inverse2)
    then have "q = of_int (m * 2 ^ j)" by (simp add: q power_add)
    then have "q - of_int \<lfloor>q\<rfloor> = 0" by (simp only: floor_of_int)
    then show ?thesis using binary64_of_int [of 0] by simp
  next
    case False
    define d where "d = 1074 - k"
    have d: "d \<le> 1074" "k + d = 1074" using False by (auto simp: d_def)
    have "(2 :: rat) ^ 1074 = 2 ^ k * 2 ^ d" using d(2) by (metis power_add)
    with q have "q = of_int m * 2 ^ k / (2 ^ k * 2 ^ d)" by (simp only:)
    then have q: "q = of_int m / 2 ^ d" by simp
    have fl: "\<lfloor>q\<rfloor> = m div 2 ^ d" using floor_divide_of_int_eq [of m "2 ^ d"] by (simp add: q)
    have "rat_of_int (m div 2 ^ d * 2 ^ d + m mod 2 ^ d) = of_int m"
      by (simp only: div_mult_mod_eq)
    then have e: "of_int m = of_int (m div 2 ^ d) * 2 ^ d + rat_of_int (m mod 2 ^ d)"
      by (simp only: of_int_add of_int_mult of_int_power of_int_numeral)
    have "q = of_int (m div 2 ^ d) + of_int (m mod 2 ^ d) / 2 ^ d"
      by (simp only: q e add_divide_distrib) simp
    then have r: "q - of_int \<lfloor>q\<rfloor> = of_int (m mod 2 ^ d) / 2 ^ d"
      by (metis fl add_diff_cancel_left')
    have a: "0 \<le> m mod 2 ^ d" "m mod 2 ^ d \<le> m" "m mod 2 ^ d \<le> 2 ^ d - 1"
      using \<open>0 \<le> m\<close> by (simp_all add: zmod_le_nonneg_dividend)
    have "m mod 2 ^ d * 2 ^ 53 \<le> (2 ^ 53 - 1) * 2 ^ d"
    proof (cases "d \<le> 53")
      case True
      then have "(2 :: int) ^ d \<le> 2 ^ 53" by (rule power_increasing) simp
      then show ?thesis using mult_right_mono [OF a(3), of "2 ^ 53"] by (simp add: algebra_simps)
    next
      case False
      then have "(2 :: int) ^ 53 \<le> 2 ^ d" by (intro power_increasing) simp_all
      moreover have "m mod 2 ^ d \<le> 2 ^ 53 - 1" using a(2) m by simp
      ultimately show ?thesis using a(1) by (smt (verit) mult_mono mult.commute)
    qed
    then have "rat_of_int (m mod 2 ^ d * 2 ^ 53) \<le> of_int ((2 ^ 53 - 1) * 2 ^ d)"
      by (simp only: of_int_le_iff)
    then have "of_int (m mod 2 ^ d) * 2 ^ 53 \<le> ((2 ^ 53 - 1) * 2 ^ d :: rat)"
      by (simp only: of_int_mult of_int_power of_int_numeral of_int_diff of_int_1)
    then have "of_int (m mod 2 ^ d) / 2 ^ d \<le> (1 - 1 / 2 ^ 53 :: rat)"
      by (simp add: field_simps)
    moreover have "binary64 (of_int (m mod 2 ^ d) / 2 ^ d)"
      using a m d(1) by (intro binary64I) auto
    ultimately show ?thesis by (simp only: r)
  qed
qed

lemma rounds_near: "rounds f \<Longrightarrow> \<bar>x\<bar> \<le> 2 ^ 1023 \<Longrightarrow> binary64 y \<Longrightarrow> \<bar>f x - x\<bar> \<le> \<bar>y - x\<bar>"
  by (simp add: rounds_def)

lemma rounds_between:
  assumes "rounds f" and "\<bar>x\<bar> \<le> 2 ^ 1023" and "of_int a \<le> x" and "x \<le> of_int b"
    and "\<bar>a\<bar> < 2 ^ 53" and "\<bar>b\<bar> < 2 ^ 53"
  shows "of_int a \<le> f x" and "f x \<le> of_int b"
  using rounds_near [OF assms(1,2) binary64_of_int, of a] assms(3-)
    rounds_near [OF assms(1,2) binary64_of_int, of b]
  by linarith+

text \<open>
  The product with a million stays below a million: the double just below it is nearer than a
  million is.
\<close>

lemma rounds_below_million:
  assumes "rounds f" and "0 \<le> x" and "x \<le> 1 - 1 / 2 ^ 53"
  shows "f (x * 1000000) < 1000000"
proof -
  have "binary64 (of_int (1000000 * 2 ^ 33 - 1) / 2 ^ 33)" by (rule binary64I) simp_all
  then have "binary64 (1000000 - 1 / 2 ^ 33)" by (simp add: field_simps)
  moreover have "\<bar>x * 1000000\<bar> \<le> 2 ^ 1023" using assms(2,3) by simp
  ultimately have "\<bar>f (x * 1000000) - x * 1000000\<bar> \<le> \<bar>1000000 - 1 / 2 ^ 33 - x * 1000000\<bar>"
    using assms(1) by (intro rounds_near)
  then show ?thesis using assms(3) by simp
qed

lemma poll_timeval_clamped:
  assumes "rounds (fl E)" and "0 \<le> q" and "q \<le> 100000000" and "binary64 q"
  shows "\<exists>sec usec. (case c_long (Fin q) of None \<Rightarrow> None
      | Some sec \<Rightarrow> (case c_long (Fin (fl E (fl E (q - of_int sec) * 1000000))) of
          None \<Rightarrow> None | Some usec \<Rightarrow> Some (word_of_int sec :: 64 word, word_of_int usec :: 64 word))) =
      Some (sec, usec) \<and>
    0 \<le> sint sec \<and> sint sec \<le> 100000000 \<and> 0 \<le> sint usec \<and> sint usec \<le> 999999 \<and>
    \<bar>(q - of_int (sint sec)) * 1000000 - of_int (sint usec)\<bar> < 1"
proof -
  have sec: "0 \<le> \<lfloor>q\<rfloor>" "\<lfloor>q\<rfloor> \<le> 100000000" using assms(2,3) by linarith+
  define x where "x = q - of_int \<lfloor>q\<rfloor>"
  have x: "binary64 x" "0 \<le> x" "x \<le> 1 - 1 / 2 ^ 53"
    using binary64_frac [OF assms(4,2)] by (auto simp: x_def)
  have big: "\<bar>x\<bar> \<le> 2 ^ 1023" "\<bar>x * 1000000\<bar> \<le> 2 ^ 1023" using x(2,3) by simp_all
  have keep: "fl E x = x" using rounds_near [OF assms(1) big(1) x(1)] by simp
  define y where "y = fl E (x * 1000000)"
  define z where "z = x * 1000000"
  have "0 \<le> z" "z \<le> 1000000" using x(2,3) by (simp_all add: z_def)
  then have z: "0 \<le> \<lfloor>z\<rfloor>" "\<lfloor>z\<rfloor> \<le> 1000000" "0 \<le> \<lceil>z\<rceil>" "\<lceil>z\<rceil> \<le> 1000000"
    "of_int \<lfloor>z\<rfloor> \<le> z" "z \<le> of_int \<lceil>z\<rceil>"
    by linarith+
  from z have y: "of_int \<lfloor>z\<rfloor> \<le> y" "y \<le> of_int \<lceil>z\<rceil>"
    unfolding y_def
    using rounds_between [OF assms(1) big(2) [folded z_def], of "\<lfloor>z\<rfloor>" "\<lceil>z\<rceil>"]
    by (simp_all add: z_def)
  have "0 \<le> y" using y(1) z(1) by (meson of_int_0_le_iff order_trans)
  moreover have "y < 1000000" using rounds_below_million [OF assms(1) x(2,3)] by (simp add: y_def)
  ultimately have usec: "0 \<le> y" "0 \<le> \<lfloor>y\<rfloor>" "\<lfloor>y\<rfloor> \<le> 999999" by linarith+
  have "\<lfloor>z\<rfloor> \<le> \<lfloor>y\<rfloor>" "\<lfloor>y\<rfloor> \<le> \<lceil>z\<rceil>"
    using y by (simp add: le_floor_iff, metis floor_mono floor_of_int)
  then have "rat_of_int \<lfloor>z\<rfloor> \<le> of_int \<lfloor>y\<rfloor>" "rat_of_int \<lfloor>y\<rfloor> \<le> of_int \<lceil>z\<rceil>" by simp_all
  then have near: "\<bar>x * 1000000 - of_int \<lfloor>y\<rfloor>\<bar> < 1"
    using floor_correct [of z] ceiling_correct [of z] unfolding z_def [symmetric] by (simp add: abs_less_iff)
  have w: "sint (word_of_int \<lfloor>q\<rfloor> :: 64 word) = \<lfloor>q\<rfloor>"
    "sint (word_of_int \<lfloor>y\<rfloor> :: 64 word) = \<lfloor>y\<rfloor>"
    using sec usec by (intro sint_word_of_int_64; simp)+
  have "c_long (Fin q) = Some \<lfloor>q\<rfloor>"
    and "c_long (Fin (fl E (fl E (q - of_int \<lfloor>q\<rfloor>) * 1000000))) = Some \<lfloor>y\<rfloor>"
    using assms(2) usec(1) by (simp_all add: c_long_def keep y_def flip: x_def)
  then show ?thesis
    by (intro exI [of _ "word_of_int \<lfloor>q\<rfloor>"] exI [of _ "word_of_int \<lfloor>y\<rfloor>"])
      (simp only: option.case w x_def [symmetric], use sec usec near in simp)
qed

text \<open>
  C31. The timeout handed to \<open>SSL_poll\<close> is always a sane one: for every double but a NaN,
  infinities and negative values included, the seconds are between 0 and 100 million and the
  microseconds between 0 and 999999, so both are fields of a valid \<open>timeval\<close>; and a timeout
  between 0 and 100 million seconds is met to within a microsecond.  All that is asked of the
  arithmetic is rounding to nearest.  For a NaN the conversion to \<open>long\<close> is undefined: the clamps
  do not catch it.
\<close>

theorem poll_timeout_sane:
  assumes "rounds (fl E)" and "is_double t"
  shows "if t = NaN then poll_timeval E t = None
    else \<exists>sec usec. poll_timeval E t = Some (sec, usec) \<and>
      0 \<le> sint sec \<and> sint sec \<le> 100000000 \<and> 0 \<le> sint usec \<and> sint usec \<le> 999999 \<and>
      (\<forall>q. t = Fin q \<longrightarrow> 0 \<le> q \<longrightarrow> q \<le> 100000000 \<longrightarrow>
        \<bar>(q - of_int (sint sec)) * 1000000 - of_int (sint usec)\<bar> < 1)"
proof -
  have b: "binary64 0" "binary64 100000000"
    using binary64_of_int [of 0] binary64_of_int [of 100000000] by simp_all
  note c = poll_timeval_clamped [OF assms(1), of 0] poll_timeval_clamped [OF assms(1), of 100000000]
  show ?thesis
  proof (cases t)
    case NaN
    then show ?thesis by (simp add: poll_timeval_def)
  next
    case (Infinity neg)
    then show ?thesis using c b by (cases neg) (auto simp: poll_timeval_def)
  next
    case (Fin q)
    consider "q < 0" | "100000000 < q" | "0 \<le> q" "q \<le> 100000000" by linarith
    then show ?thesis
    proof cases
      case 3
      then show ?thesis using poll_timeval_clamped [OF assms(1), of q] assms(2) Fin
        by (simp add: poll_timeval_def Let_def not_less)
    qed (use c b Fin in \<open>auto simp: poll_timeval_def Let_def\<close>)
  qed
qed

lemma poll_timeout_sane_witness:
  "poll_timeval scripted NaN = None \<and>
   (\<exists>sec usec. poll_timeval scripted (Fin (3 / 2)) = Some (sec, usec) \<and> 0 \<le> sint sec \<and>
      sint sec \<le> 100000000 \<and> 0 \<le> sint usec \<and> sint usec \<le> 999999 \<and>
      \<bar>(3 / 2 - of_int (sint sec)) * 1000000 - of_int (sint usec)\<bar> < (1 :: rat))"
proof -
  have "rounds (fl (scripted :: reply list env))" by (simp add: rounds_def scripted_def)
  moreover have "is_double (Fin (3 / 2))" using binary64I [of 3 1] by simp
  moreover from calculation obtain sec usec where
    "poll_timeval scripted (Fin (3 / 2)) = Some (sec, usec)" "0 \<le> sint sec"
    "sint sec \<le> 100000000" "0 \<le> sint usec" "sint usec \<le> 999999"
    "\<bar>(3 / 2 - of_int (sint sec)) * 1000000 - of_int (sint usec)\<bar> < (1 :: rat)"
    using poll_timeout_sane [of scripted "Fin (3 / 2)"] by (auto dest!: spec [of _ "3 / 2 :: rat"])
  ultimately show ?thesis using poll_timeout_sane [of scripted NaN] by auto
qed

end
