(* ===== verification/Quic_Arginfo.thy ===== *)
theory Quic_Arginfo
  imports Quic_Prelude
begin

text \<open>
  \<open>src/src/quic_arginfo.h\<close>: what the extension tells PHP about its functions.  The declared
  parameters and return type of each, the function tables of the module and its classes, the class
  entries and the constants.  The Zend macros of the file are definitions of the same names.
\<close>

subsection \<open>Declared types\<close>

datatype type_code = IS_BOOL | IS_LONG | IS_DOUBLE | IS_STRING | IS_ARRAY | IS_VOID

text \<open>A type with its nullability; \<open>No_type\<close> where none is declared.\<close>

datatype zend_type = No_type | Simple type_code bool | Class_type string bool

record zend_arg_info =
  ai_name :: string
  ai_type :: zend_type
  ai_default :: "string option" \<comment> \<open>the PHP expression, for reflection\<close>

record zend_function_info =
  fi_return :: zend_type
  fi_required :: nat
  fi_args :: "zend_arg_info list"

definition quic_name :: "string \<Rightarrow> string" where
  "quic_name n = ''Quic'' @ [CHR 0x5C] @ n"

definition ZEND_ARG_TYPE_INFO :: "string \<Rightarrow> type_code \<Rightarrow> bool \<Rightarrow> zend_arg_info" where
  "ZEND_ARG_TYPE_INFO n t nullable = \<lparr>ai_name = n, ai_type = Simple t nullable, ai_default = None\<rparr>"

definition ZEND_ARG_TYPE_INFO_WITH_DEFAULT_VALUE ::
  "string \<Rightarrow> type_code \<Rightarrow> bool \<Rightarrow> string \<Rightarrow> zend_arg_info" where
  "ZEND_ARG_TYPE_INFO_WITH_DEFAULT_VALUE n t nullable d =
     \<lparr>ai_name = n, ai_type = Simple t nullable, ai_default = Some d\<rparr>"

definition ZEND_ARG_OBJ_INFO :: "string \<Rightarrow> string \<Rightarrow> bool \<Rightarrow> zend_arg_info" where
  "ZEND_ARG_OBJ_INFO n c nullable = \<lparr>ai_name = n, ai_type = Class_type c nullable, ai_default = None\<rparr>"

subsection \<open>The declarations\<close>

definition arginfo_Quic_poll :: zend_function_info where
  "arginfo_Quic_poll =
    \<lparr>fi_return = Simple IS_ARRAY False,
     fi_required = 1, fi_args = [
      ZEND_ARG_TYPE_INFO ''items'' IS_ARRAY False,
      ZEND_ARG_TYPE_INFO_WITH_DEFAULT_VALUE ''timeout'' IS_DOUBLE True ''null'']\<rparr>"

definition arginfo_class_Quic_Connection___construct :: zend_function_info where
  "arginfo_class_Quic_Connection___construct =
    \<lparr>fi_return = No_type,
     fi_required = 2, fi_args = [
      ZEND_ARG_TYPE_INFO ''host'' IS_STRING False,
      ZEND_ARG_TYPE_INFO ''port'' IS_LONG False,
      ZEND_ARG_TYPE_INFO_WITH_DEFAULT_VALUE ''options'' IS_ARRAY False ''[]'']\<rparr>"

definition arginfo_class_Quic_Connection_openStream :: zend_function_info where
  "arginfo_class_Quic_Connection_openStream =
    \<lparr>fi_return = Class_type (quic_name ''Stream'') False,
     fi_required = 0, fi_args = [
      ZEND_ARG_TYPE_INFO_WITH_DEFAULT_VALUE ''bidirectional'' IS_BOOL False ''true'']\<rparr>"

definition arginfo_class_Quic_Connection_acceptStream :: zend_function_info where
  "arginfo_class_Quic_Connection_acceptStream =
    \<lparr>fi_return = Class_type (quic_name ''Stream'') True,
     fi_required = 0, fi_args = []\<rparr>"

definition arginfo_class_Quic_Connection_close :: zend_function_info where
  "arginfo_class_Quic_Connection_close =
    \<lparr>fi_return = Simple IS_VOID False,
     fi_required = 0, fi_args = [
      ZEND_ARG_TYPE_INFO_WITH_DEFAULT_VALUE ''errorCode'' IS_LONG False ''0'',
      ZEND_ARG_TYPE_INFO_WITH_DEFAULT_VALUE ''reason'' IS_STRING False [CHR 0x22, CHR 0x22]]\<rparr>"

definition arginfo_class_Quic_Connection_getCloseInfo :: zend_function_info where
  "arginfo_class_Quic_Connection_getCloseInfo =
    \<lparr>fi_return = Simple IS_ARRAY True,
     fi_required = 0, fi_args = []\<rparr>"

definition arginfo_class_Quic_Connection_getFd :: zend_function_info where
  "arginfo_class_Quic_Connection_getFd =
    \<lparr>fi_return = Simple IS_LONG False,
     fi_required = 0, fi_args = []\<rparr>"

definition arginfo_class_Quic_Connection_setBlocking :: zend_function_info where
  "arginfo_class_Quic_Connection_setBlocking =
    \<lparr>fi_return = Simple IS_VOID False,
     fi_required = 1, fi_args = [
      ZEND_ARG_TYPE_INFO ''blocking'' IS_BOOL False]\<rparr>"

definition arginfo_class_Quic_Connection_wantsRead :: zend_function_info where
  "arginfo_class_Quic_Connection_wantsRead =
    \<lparr>fi_return = Simple IS_BOOL False,
     fi_required = 0, fi_args = []\<rparr>"

definition arginfo_class_Quic_Connection_wantsWrite :: zend_function_info where
  "arginfo_class_Quic_Connection_wantsWrite = arginfo_class_Quic_Connection_wantsRead"

definition arginfo_class_Quic_Connection_getTimeout :: zend_function_info where
  "arginfo_class_Quic_Connection_getTimeout =
    \<lparr>fi_return = Simple IS_DOUBLE True,
     fi_required = 0, fi_args = []\<rparr>"

definition arginfo_class_Quic_Connection_handleEvents :: zend_function_info where
  "arginfo_class_Quic_Connection_handleEvents =
    \<lparr>fi_return = Simple IS_VOID False,
     fi_required = 0, fi_args = []\<rparr>"

definition arginfo_class_Quic_Connection_getCryptoInfo :: zend_function_info where
  "arginfo_class_Quic_Connection_getCryptoInfo =
    \<lparr>fi_return = Simple IS_ARRAY False,
     fi_required = 0, fi_args = []\<rparr>"

definition arginfo_class_Quic_Connection_getNegotiatedAlpn :: zend_function_info where
  "arginfo_class_Quic_Connection_getNegotiatedAlpn =
    \<lparr>fi_return = Simple IS_STRING True,
     fi_required = 0, fi_args = []\<rparr>"

definition arginfo_class_Quic_Connection_getPeerCertificate :: zend_function_info where
  "arginfo_class_Quic_Connection_getPeerCertificate = arginfo_class_Quic_Connection_getNegotiatedAlpn"

definition arginfo_class_Quic_Connection_getPeerCertificateChain :: zend_function_info where
  "arginfo_class_Quic_Connection_getPeerCertificateChain = arginfo_class_Quic_Connection_getCryptoInfo"

definition arginfo_class_Quic_Connection_getVerifyResult :: zend_function_info where
  "arginfo_class_Quic_Connection_getVerifyResult = arginfo_class_Quic_Connection_getFd"

definition arginfo_class_Quic_Connection_getVerifyResultString :: zend_function_info where
  "arginfo_class_Quic_Connection_getVerifyResultString =
    \<lparr>fi_return = Simple IS_STRING False,
     fi_required = 0, fi_args = []\<rparr>"

definition arginfo_class_Quic_Listener___construct :: zend_function_info where
  "arginfo_class_Quic_Listener___construct =
    \<lparr>fi_return = No_type,
     fi_required = 3, fi_args = [
      ZEND_ARG_TYPE_INFO ''host'' IS_STRING False,
      ZEND_ARG_TYPE_INFO ''port'' IS_LONG False,
      ZEND_ARG_TYPE_INFO ''options'' IS_ARRAY False]\<rparr>"

definition arginfo_class_Quic_Listener_accept :: zend_function_info where
  "arginfo_class_Quic_Listener_accept =
    \<lparr>fi_return = Class_type (quic_name ''Connection'') True,
     fi_required = 0, fi_args = []\<rparr>"

definition arginfo_class_Quic_Listener_close :: zend_function_info where
  "arginfo_class_Quic_Listener_close = arginfo_class_Quic_Connection_handleEvents"

definition arginfo_class_Quic_Listener_getFd :: zend_function_info where
  "arginfo_class_Quic_Listener_getFd = arginfo_class_Quic_Connection_getFd"

definition arginfo_class_Quic_Listener_setBlocking :: zend_function_info where
  "arginfo_class_Quic_Listener_setBlocking = arginfo_class_Quic_Connection_setBlocking"

definition arginfo_class_Quic_Listener_wantsRead :: zend_function_info where
  "arginfo_class_Quic_Listener_wantsRead = arginfo_class_Quic_Connection_wantsRead"

definition arginfo_class_Quic_Listener_wantsWrite :: zend_function_info where
  "arginfo_class_Quic_Listener_wantsWrite = arginfo_class_Quic_Connection_wantsRead"

definition arginfo_class_Quic_Listener_getTimeout :: zend_function_info where
  "arginfo_class_Quic_Listener_getTimeout = arginfo_class_Quic_Connection_getTimeout"

definition arginfo_class_Quic_Listener_handleEvents :: zend_function_info where
  "arginfo_class_Quic_Listener_handleEvents = arginfo_class_Quic_Connection_handleEvents"

definition arginfo_class_Quic_Stream___construct :: zend_function_info where
  "arginfo_class_Quic_Stream___construct =
    \<lparr>fi_return = No_type,
     fi_required = 1, fi_args = [
      ZEND_ARG_OBJ_INFO ''connection'' (quic_name ''Connection'') False,
      ZEND_ARG_TYPE_INFO_WITH_DEFAULT_VALUE ''bidirectional'' IS_BOOL False ''true'']\<rparr>"

definition arginfo_class_Quic_Stream_write :: zend_function_info where
  "arginfo_class_Quic_Stream_write =
    \<lparr>fi_return = Simple IS_LONG False,
     fi_required = 1, fi_args = [
      ZEND_ARG_TYPE_INFO ''data'' IS_STRING False,
      ZEND_ARG_TYPE_INFO_WITH_DEFAULT_VALUE ''fin'' IS_BOOL False ''false'']\<rparr>"

definition arginfo_class_Quic_Stream_read :: zend_function_info where
  "arginfo_class_Quic_Stream_read =
    \<lparr>fi_return = Simple IS_STRING True,
     fi_required = 1, fi_args = [
      ZEND_ARG_TYPE_INFO ''length'' IS_LONG False]\<rparr>"

definition arginfo_class_Quic_Stream_end :: zend_function_info where
  "arginfo_class_Quic_Stream_end = arginfo_class_Quic_Connection_handleEvents"

definition arginfo_class_Quic_Stream_reset :: zend_function_info where
  "arginfo_class_Quic_Stream_reset =
    \<lparr>fi_return = Simple IS_VOID False,
     fi_required = 0, fi_args = [
      ZEND_ARG_TYPE_INFO_WITH_DEFAULT_VALUE ''errorCode'' IS_LONG False ''0'']\<rparr>"

definition arginfo_class_Quic_Stream_getResetCode :: zend_function_info where
  "arginfo_class_Quic_Stream_getResetCode =
    \<lparr>fi_return = Simple IS_LONG True,
     fi_required = 0, fi_args = []\<rparr>"

definition arginfo_class_Quic_Stream_getId :: zend_function_info where
  "arginfo_class_Quic_Stream_getId = arginfo_class_Quic_Connection_getFd"

definition arginfo_class_Quic_Stream_isBidirectional :: zend_function_info where
  "arginfo_class_Quic_Stream_isBidirectional = arginfo_class_Quic_Connection_wantsRead"

definition arginfo_class_Quic_Stream_getConnection :: zend_function_info where
  "arginfo_class_Quic_Stream_getConnection =
    \<lparr>fi_return = Class_type (quic_name ''Connection'') False,
     fi_required = 0, fi_args = []\<rparr>"

definition arginfo_class_Quic_Stream_asStream :: zend_function_info where
  "arginfo_class_Quic_Stream_asStream =
    \<lparr>fi_return = No_type,
     fi_required = 0, fi_args = []\<rparr>"

subsection \<open>The function tables\<close>

text \<open>A handler is a value naming the C function, \<open>zim_Quic_<Class>_<method>\<close> or \<open>zif_Quic_poll\<close>.\<close>

datatype connection_method =
    Cm_construct
  | Cm_openStream
  | Cm_acceptStream
  | Cm_close
  | Cm_getCloseInfo
  | Cm_getFd
  | Cm_setBlocking
  | Cm_wantsRead
  | Cm_wantsWrite
  | Cm_getTimeout
  | Cm_handleEvents
  | Cm_getCryptoInfo
  | Cm_getNegotiatedAlpn
  | Cm_getPeerCertificate
  | Cm_getPeerCertificateChain
  | Cm_getVerifyResult
  | Cm_getVerifyResultString

datatype listener_method =
    Lm_construct
  | Lm_accept
  | Lm_close
  | Lm_getFd
  | Lm_setBlocking
  | Lm_wantsRead
  | Lm_wantsWrite
  | Lm_getTimeout
  | Lm_handleEvents

datatype stream_method =
    Sm_construct
  | Sm_write
  | Sm_read
  | Sm_end
  | Sm_reset
  | Sm_getResetCode
  | Sm_getId
  | Sm_isBidirectional
  | Sm_getConnection
  | Sm_asStream

datatype handler =
    Of_connection connection_method
  | Of_listener listener_method
  | Of_stream stream_method
  | Fn_poll

record zend_function_entry =
  fe_name :: string
  fe_handler :: handler
  fe_info :: zend_function_info
  fe_public :: bool

definition ZEND_ME :: "string \<Rightarrow> handler \<Rightarrow> zend_function_info \<Rightarrow> zend_function_entry" where
  "ZEND_ME n h info = \<lparr>fe_name = n, fe_handler = h, fe_info = info, fe_public = True\<rparr>"

definition ext_functions :: "zend_function_entry list" where
  "ext_functions = [
     \<lparr>fe_name = quic_name ''poll'', fe_handler = Fn_poll, fe_info = arginfo_Quic_poll, fe_public = False\<rparr>]"

definition class_Quic_Connection_methods :: "zend_function_entry list" where
  "class_Quic_Connection_methods = [
     ZEND_ME ''__construct'' (Of_connection Cm_construct)
       arginfo_class_Quic_Connection___construct,
     ZEND_ME ''openStream'' (Of_connection Cm_openStream)
       arginfo_class_Quic_Connection_openStream,
     ZEND_ME ''acceptStream'' (Of_connection Cm_acceptStream)
       arginfo_class_Quic_Connection_acceptStream,
     ZEND_ME ''close'' (Of_connection Cm_close)
       arginfo_class_Quic_Connection_close,
     ZEND_ME ''getCloseInfo'' (Of_connection Cm_getCloseInfo)
       arginfo_class_Quic_Connection_getCloseInfo,
     ZEND_ME ''getFd'' (Of_connection Cm_getFd)
       arginfo_class_Quic_Connection_getFd,
     ZEND_ME ''setBlocking'' (Of_connection Cm_setBlocking)
       arginfo_class_Quic_Connection_setBlocking,
     ZEND_ME ''wantsRead'' (Of_connection Cm_wantsRead)
       arginfo_class_Quic_Connection_wantsRead,
     ZEND_ME ''wantsWrite'' (Of_connection Cm_wantsWrite)
       arginfo_class_Quic_Connection_wantsWrite,
     ZEND_ME ''getTimeout'' (Of_connection Cm_getTimeout)
       arginfo_class_Quic_Connection_getTimeout,
     ZEND_ME ''handleEvents'' (Of_connection Cm_handleEvents)
       arginfo_class_Quic_Connection_handleEvents,
     ZEND_ME ''getCryptoInfo'' (Of_connection Cm_getCryptoInfo)
       arginfo_class_Quic_Connection_getCryptoInfo,
     ZEND_ME ''getNegotiatedAlpn'' (Of_connection Cm_getNegotiatedAlpn)
       arginfo_class_Quic_Connection_getNegotiatedAlpn,
     ZEND_ME ''getPeerCertificate'' (Of_connection Cm_getPeerCertificate)
       arginfo_class_Quic_Connection_getPeerCertificate,
     ZEND_ME ''getPeerCertificateChain'' (Of_connection Cm_getPeerCertificateChain)
       arginfo_class_Quic_Connection_getPeerCertificateChain,
     ZEND_ME ''getVerifyResult'' (Of_connection Cm_getVerifyResult)
       arginfo_class_Quic_Connection_getVerifyResult,
     ZEND_ME ''getVerifyResultString'' (Of_connection Cm_getVerifyResultString)
       arginfo_class_Quic_Connection_getVerifyResultString]"

definition class_Quic_Listener_methods :: "zend_function_entry list" where
  "class_Quic_Listener_methods = [
     ZEND_ME ''__construct'' (Of_listener Lm_construct)
       arginfo_class_Quic_Listener___construct,
     ZEND_ME ''accept'' (Of_listener Lm_accept)
       arginfo_class_Quic_Listener_accept,
     ZEND_ME ''close'' (Of_listener Lm_close)
       arginfo_class_Quic_Listener_close,
     ZEND_ME ''getFd'' (Of_listener Lm_getFd)
       arginfo_class_Quic_Listener_getFd,
     ZEND_ME ''setBlocking'' (Of_listener Lm_setBlocking)
       arginfo_class_Quic_Listener_setBlocking,
     ZEND_ME ''wantsRead'' (Of_listener Lm_wantsRead)
       arginfo_class_Quic_Listener_wantsRead,
     ZEND_ME ''wantsWrite'' (Of_listener Lm_wantsWrite)
       arginfo_class_Quic_Listener_wantsWrite,
     ZEND_ME ''getTimeout'' (Of_listener Lm_getTimeout)
       arginfo_class_Quic_Listener_getTimeout,
     ZEND_ME ''handleEvents'' (Of_listener Lm_handleEvents)
       arginfo_class_Quic_Listener_handleEvents]"

definition class_Quic_Stream_methods :: "zend_function_entry list" where
  "class_Quic_Stream_methods = [
     ZEND_ME ''__construct'' (Of_stream Sm_construct)
       arginfo_class_Quic_Stream___construct,
     ZEND_ME ''write'' (Of_stream Sm_write)
       arginfo_class_Quic_Stream_write,
     ZEND_ME ''read'' (Of_stream Sm_read)
       arginfo_class_Quic_Stream_read,
     ZEND_ME ''end'' (Of_stream Sm_end)
       arginfo_class_Quic_Stream_end,
     ZEND_ME ''reset'' (Of_stream Sm_reset)
       arginfo_class_Quic_Stream_reset,
     ZEND_ME ''getResetCode'' (Of_stream Sm_getResetCode)
       arginfo_class_Quic_Stream_getResetCode,
     ZEND_ME ''getId'' (Of_stream Sm_getId)
       arginfo_class_Quic_Stream_getId,
     ZEND_ME ''isBidirectional'' (Of_stream Sm_isBidirectional)
       arginfo_class_Quic_Stream_isBidirectional,
     ZEND_ME ''getConnection'' (Of_stream Sm_getConnection)
       arginfo_class_Quic_Stream_getConnection,
     ZEND_ME ''asStream'' (Of_stream Sm_asStream)
       arginfo_class_Quic_Stream_asStream]"

subsection \<open>Constants\<close>

text \<open>The values of the OpenSSL macros are given by \<open>ossl\<close>.\<close>

definition register_quic_symbols :: "(string \<Rightarrow> 64 word) \<Rightarrow> (string \<times> 64 word) list" where
  "register_quic_symbols ossl = [
     (quic_name ''POLL_READ'', ossl ''SSL_POLL_EVENT_R''),
     (quic_name ''POLL_WRITE'', ossl ''SSL_POLL_EVENT_W''),
     (quic_name ''POLL_ACCEPT_CONNECTION'', ossl ''SSL_POLL_EVENT_IC''),
     (quic_name ''POLL_ACCEPT_STREAM'', ossl ''SSL_POLL_EVENT_IS''),
     (quic_name ''POLL_ERROR'', ossl ''SSL_POLL_EVENT_E''),
     (quic_name ''ERR_NO_ERROR'', ossl ''OSSL_QUIC_ERR_NO_ERROR''),
     (quic_name ''ERR_INTERNAL_ERROR'', ossl ''OSSL_QUIC_ERR_INTERNAL_ERROR''),
     (quic_name ''ERR_CONNECTION_REFUSED'', ossl ''OSSL_QUIC_ERR_CONNECTION_REFUSED''),
     (quic_name ''ERR_FLOW_CONTROL_ERROR'', ossl ''OSSL_QUIC_ERR_FLOW_CONTROL_ERROR''),
     (quic_name ''ERR_STREAM_LIMIT_ERROR'', ossl ''OSSL_QUIC_ERR_STREAM_LIMIT_ERROR''),
     (quic_name ''ERR_STREAM_STATE_ERROR'', ossl ''OSSL_QUIC_ERR_STREAM_STATE_ERROR''),
     (quic_name ''ERR_FINAL_SIZE_ERROR'', ossl ''OSSL_QUIC_ERR_FINAL_SIZE_ERROR''),
     (quic_name ''ERR_FRAME_ENCODING_ERROR'', ossl ''OSSL_QUIC_ERR_FRAME_ENCODING_ERROR''),
     (quic_name ''ERR_TRANSPORT_PARAMETER_ERROR'', ossl ''OSSL_QUIC_ERR_TRANSPORT_PARAMETER_ERROR''),
     (quic_name ''ERR_CONNECTION_ID_LIMIT_ERROR'', ossl ''OSSL_QUIC_ERR_CONNECTION_ID_LIMIT_ERROR''),
     (quic_name ''ERR_PROTOCOL_VIOLATION'', ossl ''OSSL_QUIC_ERR_PROTOCOL_VIOLATION''),
     (quic_name ''ERR_INVALID_TOKEN'', ossl ''OSSL_QUIC_ERR_INVALID_TOKEN''),
     (quic_name ''ERR_APPLICATION_ERROR'', ossl ''OSSL_QUIC_ERR_APPLICATION_ERROR''),
     (quic_name ''ERR_CRYPTO_BUFFER_EXCEEDED'', ossl ''OSSL_QUIC_ERR_CRYPTO_BUFFER_EXCEEDED''),
     (quic_name ''ERR_KEY_UPDATE_ERROR'', ossl ''OSSL_QUIC_ERR_KEY_UPDATE_ERROR''),
     (quic_name ''ERR_AEAD_LIMIT_REACHED'', ossl ''OSSL_QUIC_ERR_AEAD_LIMIT_REACHED''),
     (quic_name ''ERR_NO_VIABLE_PATH'', ossl ''OSSL_QUIC_ERR_NO_VIABLE_PATH''),
     (quic_name ''ERR_CRYPTO_BEGIN'', ossl ''OSSL_QUIC_ERR_CRYPTO_ERR_BEGIN''),
     (quic_name ''ERR_CRYPTO_END'', ossl ''OSSL_QUIC_ERR_CRYPTO_ERR_END'')]"

subsection \<open>Classes\<close>

record zend_class_entry =
  ce_name :: string
  ce_methods :: "zend_function_entry list"
  ce_parent :: "string option"
  ce_final :: bool
  ce_no_dynamic_properties :: bool
  ce_not_serializable :: bool

definition register_class_Quic_Exception :: "string \<Rightarrow> zend_class_entry" where
  "register_class_Quic_Exception class_entry_Exception =
     \<lparr>ce_name = quic_name ''Exception'', ce_methods = [], ce_parent = Some class_entry_Exception,
      ce_final = False, ce_no_dynamic_properties = False, ce_not_serializable = False\<rparr>"

definition register_class_Quic_Connection :: zend_class_entry where
  "register_class_Quic_Connection =
     \<lparr>ce_name = quic_name ''Connection'', ce_methods = class_Quic_Connection_methods, ce_parent = None,
      ce_final = True, ce_no_dynamic_properties = True, ce_not_serializable = True\<rparr>"

definition register_class_Quic_Listener :: zend_class_entry where
  "register_class_Quic_Listener =
     \<lparr>ce_name = quic_name ''Listener'', ce_methods = class_Quic_Listener_methods, ce_parent = None,
      ce_final = True, ce_no_dynamic_properties = True, ce_not_serializable = True\<rparr>"

definition register_class_Quic_Stream :: zend_class_entry where
  "register_class_Quic_Stream =
     \<lparr>ce_name = quic_name ''Stream'', ce_methods = class_Quic_Stream_methods, ce_parent = None,
      ce_final = True, ce_no_dynamic_properties = True, ce_not_serializable = True\<rparr>"

end
