(* ===== verification/Quic_Module.thy ===== *)
theory Quic_Module
  imports Quic_Listener Quic_Arginfo
begin

text \<open>
  The module, \<open>src/src/quic.c\<close>, and what the three sources fill in at start: the object handler
  tables of the classes and their class entries.  \<open>std\<close> is the table of
  \<open>zend_get_std_object_handlers\<close>, of which the extension keeps what it does not replace.
\<close>

subsection \<open>Handler tables\<close>

record 'w object_handlers =
  h_free :: "'w env \<Rightarrow> php_object \<Rightarrow> ('w, nat option) quic"
  h_clone :: "(php_object \<Rightarrow> php_object) option"
  h_get_gc :: "php_object \<Rightarrow> nat list"

text \<open>A table and the \<open>create_object\<close> of the class it belongs to.\<close>

type_synonym 'w class_hooks = "php_object \<times> 'w object_handlers"

definition php_quic_connection_init_handlers :: "'w object_handlers \<Rightarrow> 'w class_hooks" where
  "php_quic_connection_init_handlers std =
     (OConnection quic_connection_create,
      std\<lparr>h_free := (\<lambda>E ob. case ob of OConnection c \<Rightarrow> do { (_, d) \<leftarrow> quic_connection_free E c; ret d } | _ \<Rightarrow> ret None),
          h_clone := None,
          h_get_gc := (\<lambda>ob. case ob of OConnection c \<Rightarrow> quic_connection_get_gc c | _ \<Rightarrow> [])\<rparr>)"

definition php_quic_listener_init_handlers :: "'w object_handlers \<Rightarrow> 'w class_hooks" where
  "php_quic_listener_init_handlers std =
     (OListener quic_listener_create,
      std\<lparr>h_free := (\<lambda>E ob. case ob of OListener l \<Rightarrow> do { (_, d) \<leftarrow> quic_listener_free E l; ret d } | _ \<Rightarrow> ret None),
          h_clone := None\<rparr>)"

definition php_quic_stream_init_handlers :: "'w object_handlers \<Rightarrow> 'w class_hooks" where
  "php_quic_stream_init_handlers std =
     (OStream quic_stream_create,
      std\<lparr>h_free := (\<lambda>E ob. case ob of OStream s \<Rightarrow> do { (_, d) \<leftarrow> quic_stream_free E s; ret d } | _ \<Rightarrow> ret None),
          h_clone := None,
          h_get_gc := (\<lambda>ob. case ob of OStream s \<Rightarrow> quic_stream_get_gc s | _ \<Rightarrow> [])\<rparr>)"

subsection \<open>Start and stop\<close>

text \<open>
  The module's globals: the \<open>ex_data\<close> index, the four class entries with the hooks of the three
  that have some, and the constants registered.
\<close>

record 'w module =
  ctx_allow_self_signed_index :: int
  quic_ce_exception :: "zend_class_entry option"
  quic_ce_connection :: "(zend_class_entry \<times> 'w class_hooks) option"
  quic_ce_listener :: "(zend_class_entry \<times> 'w class_hooks) option"
  quic_ce_stream :: "(zend_class_entry \<times> 'w class_hooks) option"
  symbols :: "(string \<times> 64 word) list"

definition module_loaded :: "'w module" where
  "module_loaded = \<lparr>ctx_allow_self_signed_index = -1, quic_ce_exception = None,
     quic_ce_connection = None, quic_ce_listener = None, quic_ce_stream = None, symbols = []\<rparr>"

definition MINIT_quic ::
  "'w env \<Rightarrow> 'w object_handlers \<Rightarrow> (string \<Rightarrow> 64 word) \<Rightarrow> 'w module \<Rightarrow> ('w, 'w module) quic" where
  "MINIT_quic E std ossl m = do {
     r \<leftarrow> ext E (Mem SSL_CTX_get_ex_new_index);
     let m = m\<lparr>ctx_allow_self_signed_index := rc r\<rparr>;
     let m = m\<lparr>quic_ce_exception := Some (register_class_Quic_Exception ''Exception'')\<rparr>;
     let m = m\<lparr>quic_ce_connection :=
       Some (register_class_Quic_Connection, php_quic_connection_init_handlers std)\<rparr>;
     let m = m\<lparr>quic_ce_listener :=
       Some (register_class_Quic_Listener, php_quic_listener_init_handlers std)\<rparr>;
     let m = m\<lparr>quic_ce_stream :=
       Some (register_class_Quic_Stream, php_quic_stream_init_handlers std)\<rparr>;
     ret (m\<lparr>symbols := symbols m @ register_quic_symbols ossl\<rparr>)
   }"

definition MSHUTDOWN_quic :: "'w env \<Rightarrow> 'w module \<Rightarrow> ('w, 'w module) quic" where
  "MSHUTDOWN_quic E m =
     (if ctx_allow_self_signed_index m \<noteq> -1 then do {
        emit E (Mem (CRYPTO_free_ex_index (ctx_allow_self_signed_index m)));
        ret (m\<lparr>ctx_allow_self_signed_index := -1\<rparr>)
      } else ret m)"

text \<open>
  The rows \<open>phpinfo\<close> prints; the version of the OpenSSL headers is given, that of the library is
  what \<open>OpenSSL_version\<close> answers.
\<close>

definition PHP_QUIC_VERSION :: string where
  "PHP_QUIC_VERSION = ''1.0.0''"

definition MINFO_quic :: "string \<Rightarrow> string \<Rightarrow> (string \<times> string) list" where
  "MINFO_quic header_version library_version =
     [(''QUIC support'', ''enabled''),
      (''Extension version'', PHP_QUIC_VERSION),
      (''OpenSSL header version'', header_version),
      (''OpenSSL library version'', library_version)]"

record 'w zend_module_entry =
  me_name :: string
  me_functions :: "zend_function_entry list"
  me_startup :: "'w env \<Rightarrow> 'w object_handlers \<Rightarrow> (string \<Rightarrow> 64 word) \<Rightarrow> 'w module \<Rightarrow> ('w, 'w module) quic"
  me_shutdown :: "'w env \<Rightarrow> 'w module \<Rightarrow> ('w, 'w module) quic"
  me_request_startup :: "('w module \<Rightarrow> 'w module) option"
  me_request_shutdown :: "('w module \<Rightarrow> 'w module) option"
  me_info :: "string \<Rightarrow> string \<Rightarrow> (string \<times> string) list"
  me_version :: string

definition quic_module_entry :: "'w zend_module_entry" where
  "quic_module_entry =
     \<lparr>me_name = ''quic'', me_functions = ext_functions, me_startup = MINIT_quic,
      me_shutdown = MSHUTDOWN_quic, me_request_startup = None, me_request_shutdown = None,
      me_info = MINFO_quic, me_version = PHP_QUIC_VERSION\<rparr>"

definition res_module :: "'w module \<Rightarrow> res multiset" where
  "res_module m =
     (if ctx_allow_self_signed_index m = -1 then {#} else {#RIndex (ctx_allow_self_signed_index m)#})"

lemma owns_MINIT:
  assumes "ctx_allow_self_signed_index m = -1"
  shows "owns (res_module m) (MINIT_quic E std ossl m) res_module"
  using assms unfolding MINIT_quic_def res_module_def Let_def by (auto intro!: own_rules owns_ret)

lemma owns_MSHUTDOWN: "owns (res_module m) (MSHUTDOWN_quic E m) (\<lambda>_. {#})"
  unfolding MSHUTDOWN_quic_def res_module_def by (auto intro!: own_rules owns_ret)

text \<open>
  C36. The module gives its \<open>ex_data\<close> index back exactly once: starting and stopping it leaves what
  is owned as it was, also when OpenSSL had no index to give, and stopping it again does nothing.
\<close>

theorem module_cycle:
  "owns {#} (do { m \<leftarrow> MINIT_quic E std ossl module_loaded; MSHUTDOWN_quic E m }) (\<lambda>_. {#}) \<and>
   do { m' \<leftarrow> MSHUTDOWN_quic E m; MSHUTDOWN_quic E m' } = MSHUTDOWN_quic E m"
proof
  have e: "res_module module_loaded = {#}" by (simp add: res_module_def module_loaded_def)
  have "owns {#} (MINIT_quic E std ossl module_loaded) res_module"
    by (rule owns_MINIT [of module_loaded, unfolded e]) (simp add: module_loaded_def)
  then show "owns {#} (do { m \<leftarrow> MINIT_quic E std ossl module_loaded; MSHUTDOWN_quic E m }) (\<lambda>_. {#})"
    by (rule owns_bind) (rule owns_MSHUTDOWN)
  show "do { m' \<leftarrow> MSHUTDOWN_quic E m; MSHUTDOWN_quic E m' } = MSHUTDOWN_quic E m"
    by (rule state_ext) (simp add: MSHUTDOWN_quic_def)
qed

end
