(* ===== verification/Quic_Lifecycle.thy ===== *)
theory Quic_Lifecycle
  imports Quic_Module Quic_Poll "HOL-Library.Finite_Map"
begin

text \<open>
  The objects of the three classes together: a reference-counted object store as Zend keeps it,
  the userland variables and \<open>php_stream\<close> resources that refer to it, and a step relation with one
  rule per method, handler and stream operation.  The invariant relates the reference counts to
  the references there are and the ledger of the calls made to what the live objects hold;
  from it follow the absence of leaks, double frees and uses after free over every sequence of
  operations, and that no stream outlives the connection under it.
\<close>

subsection \<open>The store\<close>

type_synonym heap = "(nat, nat \<times> php_object) fmap" \<comment> \<open>reference count and struct\<close>

text \<open>The references embedded in an object, as its \<open>get_gc\<close> handler reports them.\<close>

fun refs_of :: "php_object \<Rightarrow> nat list" where
  "refs_of (OConnection c) = quic_connection_get_gc c"
| "refs_of (OStream s) = quic_stream_get_gc s"
| "refs_of (OListener l) = []"
| "refs_of OForeign = []"

fun res_object :: "php_object \<Rightarrow> res multiset" where
  "res_object (OConnection c) = res_connection c"
| "res_object (OStream s) = res_stream s"
| "res_object (OListener l) = res_listener l"
| "res_object OForeign = {#}"

text \<open>
  The \<open>free_obj\<close> handlers, with the reference each gives to \<open>zval_ptr_dtor\<close>; \<open>free_object\<close> and
  \<open>refs_of\<close> are what the handler tables hold.
\<close>

fun free_object :: "'w env \<Rightarrow> php_object \<Rightarrow> ('w, nat option) quic" where
  "free_object E (OConnection c) = do { (_, d) \<leftarrow> quic_connection_free E c; ret d }"
| "free_object E (OStream s) = do { (_, d) \<leftarrow> quic_stream_free E s; ret d }"
| "free_object E (OListener l) = do { (_, d) \<leftarrow> quic_listener_free E l; ret d }"
| "free_object E OForeign = ret None"

lemma handlers_dispatch:
  "h_free (snd (php_quic_connection_init_handlers std)) E (OConnection c) = free_object E (OConnection c)"
  "h_free (snd (php_quic_listener_init_handlers std)) E (OListener l) = free_object E (OListener l)"
  "h_free (snd (php_quic_stream_init_handlers std)) E (OStream s) = free_object E (OStream s)"
  "h_get_gc (snd (php_quic_connection_init_handlers std)) (OConnection c) = refs_of (OConnection c)"
  "h_get_gc (snd (php_quic_stream_init_handlers std)) (OStream s) = refs_of (OStream s)"
  by (simp_all add: php_quic_connection_init_handlers_def php_quic_listener_init_handlers_def
      php_quic_stream_init_handlers_def)

lemma owns_free_object: "owns (res_object ob) (free_object E ob) (\<lambda>_. {#})"
  by (cases ob) (auto intro!: owns_ret owns_prod owns_bind [OF connections.free_gives_back]
      owns_bind [OF streams.free_gives_back] owns_bind [OF listeners.free_gives_back])

text \<open>The handlers drop exactly the references \<open>get_gc\<close> reports.\<close>

lemma free_object_drops: "yields (\<lambda>d. opt_list d = refs_of ob) (free_object E ob)"
  by (cases ob) (auto intro!: yields_ret yields_prod yields_call [OF connections.free_drops]
      yields_call [OF streams.free_drops] yields_call [OF listeners.free_drops])

definition addref :: "nat \<Rightarrow> heap \<Rightarrow> heap" where
  "addref p h = (case fmlookup h p of None \<Rightarrow> h | Some (n, ob) \<Rightarrow> fmupd p (n + 1, ob) h)"

text \<open>
  \<open>OBJ_RELEASE\<close> and \<open>zval_ptr_dtor\<close>: the last reference runs the handler, and the reference the
  handler drops, if it drops one, is released in turn.  The cell goes before that reference does;
  nothing refers to it any more.
\<close>

function release :: "'w env \<Rightarrow> nat \<Rightarrow> heap \<Rightarrow> 'w world \<Rightarrow> heap \<times> 'w world" where
  "release E p h w =
     (case fmlookup h p of
        None \<Rightarrow> (h, w)
      | Some (n, ob) \<Rightarrow>
          if n > 1 then (fmupd p (n - 1, ob) h, w)
          else case run_state (free_object E ob) w of
              (None, w) \<Rightarrow> (fmdrop p h, w)
            | (Some q, w) \<Rightarrow> release E q (fmdrop p h) w)"
  by auto

termination
  by (relation "measure (\<lambda>(E, p, h, w). card (fmdom' h))")
    (auto intro!: card_Diff1_less intro: fmdom'I)

declare release.simps [simp del]

subsection \<open>Sums over a heap\<close>

definition heap_sum :: "('a \<Rightarrow> 'b::comm_monoid_add) \<Rightarrow> (nat, 'a) fmap \<Rightarrow> 'b" where
  "heap_sum f h = (\<Sum>p\<in>fmdom' h. f (the (fmlookup h p)))"

lemma heap_sum_empty [simp]: "heap_sum f fmempty = 0"
  by (simp add: heap_sum_def)

lemma heap_sum_drop:
  assumes "fmlookup h p = Some c"
  shows "heap_sum f h = f c + heap_sum f (fmdrop p h)"
proof -
  have "p \<in> fmdom' h" using assms by (rule fmdom'I)
  then have "heap_sum f h = f c + (\<Sum>q\<in>fmdom' h - {p}. f (the (fmlookup h q)))"
    using assms by (simp add: heap_sum_def sum.remove [of _ p])
  also have "(\<Sum>q\<in>fmdom' h - {p}. f (the (fmlookup h q))) = heap_sum f (fmdrop p h)"
    unfolding heap_sum_def by (intro sum.cong) auto
  finally show ?thesis .
qed

lemma heap_sum_new:
  assumes "fmlookup h p = None"
  shows "heap_sum f (fmupd p c h) = f c + heap_sum f h"
proof -
  have "fmdrop p (fmupd p c h) = h"
    using assms by (intro fmap_ext) auto
  then show ?thesis using heap_sum_drop [of "fmupd p c h" p c f] by simp
qed

lemma heap_sum_upd:
  assumes "fmlookup h p = Some c"
  shows "heap_sum f (fmupd p c' h) = f c' + heap_sum f (fmdrop p h)"
proof -
  have "fmdrop p (fmupd p c' h) = fmdrop p h" by (intro fmap_ext) auto
  then show ?thesis using heap_sum_drop [of "fmupd p c' h" p c' f] by simp
qed

subsection \<open>The invariant\<close>

definition obj_refs :: "heap \<Rightarrow> nat multiset" where
  "obj_refs h = heap_sum (\<lambda>(n, ob). mset (refs_of ob)) h"

definition held :: "heap \<Rightarrow> res multiset" where
  "held h = heap_sum (\<lambda>(n, ob). res_object ob) h"

definition refcount :: "heap \<Rightarrow> nat \<Rightarrow> nat" where
  "refcount h p = (case fmlookup h p of None \<Rightarrow> 0 | Some (n, ob) \<Rightarrow> n)"

lemma refcount_simps [simp]:
  "refcount (fmupd p (n, ob) h) q = (if q = p then n else refcount h q)"
  "refcount (fmdrop p h) q = (if q = p then 0 else refcount h q)"
  "refcount fmempty q = 0"
  by (simp_all add: refcount_def)

lemma refcount_Some: "fmlookup h p = Some (n, ob) \<Longrightarrow> refcount h p = n"
  by (simp add: refcount_def)

text \<open>
  Every count is positive and is the number of references there are, those from outside being
  \<open>R\<close>.  An address that is not in the store counts 0, so no reference dangles.
\<close>

definition counted :: "heap \<Rightarrow> nat multiset \<Rightarrow> bool" where
  "counted h R \<longleftrightarrow> (\<forall>p. count R p + count (obj_refs h) p = refcount h p) \<and>
     (\<forall>p n ob. fmlookup h p = Some (n, ob) \<longrightarrow> 0 < n)"

lemma countedD:
  "counted h R \<Longrightarrow> count R p + count (obj_refs h) p = refcount h p"
  "counted h R \<Longrightarrow> fmlookup h p = Some (n, ob) \<Longrightarrow> 0 < n"
  unfolding counted_def by blast+

lemma refcount_live: "0 < refcount h p \<Longrightarrow> \<exists>n ob. fmlookup h p = Some (n, ob)"
  by (auto simp: refcount_def split: option.splits)

lemma counted_live:
  assumes "counted h R" and "p \<in># R \<or> p \<in># obj_refs h"
  shows "\<exists>n ob. fmlookup h p = Some (n, ob)"
proof (rule refcount_live)
  have "0 < count R p + count (obj_refs h) p"
    using assms(2) by (metis add_gr_0 count_greater_zero_iff)
  then show "0 < refcount h p" using countedD(1) [OF assms(1)] by simp
qed

text \<open>
  References lead to the right class, the structs are well formed, and a stream object has a
  connection, which is open, exactly when it has a stream.  Only objects of the three classes
  are in the store.
\<close>

fun ok_object :: "heap \<Rightarrow> php_object \<Rightarrow> bool" where
  "ok_object h (OStream s) =
     (case str_connection s of
        None \<Rightarrow> str_ssl s = None
      | Some c \<Rightarrow> str_ssl s \<noteq> None \<and> (case fmlookup h c of
          Some (_, OConnection k) \<Rightarrow> conn_ssl k \<noteq> None
        | _ \<Rightarrow> False))"
| "ok_object h (OConnection k) =
     (connection_wf k \<and> (case conn_listener k of
        None \<Rightarrow> True
      | Some l \<Rightarrow> (case fmlookup h l of Some (_, OListener _) \<Rightarrow> True | _ \<Rightarrow> False)))"
| "ok_object h (OListener l) = listener_wf l"
| "ok_object h OForeign = False"

definition typed :: "heap \<Rightarrow> bool" where
  "typed h \<longleftrightarrow> (\<forall>p n ob. fmlookup h p = Some (n, ob) \<longrightarrow> ok_object h ob)"

lemma typedD: "typed h \<Longrightarrow> fmlookup h p = Some (n, ob) \<Longrightarrow> ok_object h ob"
  by (simp add: typed_def)

lemma embedded_counted:
  assumes "fmlookup h q = Some (n, ob)" and "c \<in> set (refs_of ob)"
  shows "c \<in># obj_refs h"
  using assms heap_sum_drop [of h q "(n, ob)" "\<lambda>(n, ob). mset (refs_of ob)"]
  by (simp add: obj_refs_def)

text \<open>Checking an object only looks at the struct of the object it refers to.\<close>

definition same_struct :: "heap \<Rightarrow> heap \<Rightarrow> nat \<Rightarrow> bool" where
  "same_struct h h' p \<longleftrightarrow> map_option snd (fmlookup h' p) = map_option snd (fmlookup h p)"

lemma ok_object_cong:
  assumes "\<And>c. c \<in> set (refs_of ob) \<Longrightarrow> same_struct h h' c"
  shows "ok_object h' ob = ok_object h ob"
proof (cases ob)
  case (OStream s)
  with assms show ?thesis
    by (cases "str_connection s")
      (auto simp: quic_stream_get_gc_def same_struct_def map_option_case split: option.splits)
next
  case (OConnection k)
  with assms show ?thesis
    by (cases "conn_listener k")
      (auto simp: quic_connection_get_gc_def same_struct_def map_option_case split: option.splits)
qed auto

subsection \<open>Releasing a reference\<close>

lemma counted_pred:
  assumes "counted h (add_mset p R)" and l: "fmlookup h p = Some (n, ob)" and "n > 1"
  shows "counted (fmupd p (n - 1, ob) h) R"
proof -
  have refs: "obj_refs (fmupd p (n - 1, ob) h) = obj_refs h"
    by (simp add: obj_refs_def heap_sum_upd [OF l] heap_sum_drop [OF l])
  have "count R q + count (obj_refs h) q = (if q = p then n - 1 else refcount h q)" for q
    using countedD(1) [OF assms(1), of q] refcount_Some [OF l] by (cases "q = p") simp_all
  then show ?thesis
    using assms(3) countedD(2) [OF assms(1)] unfolding counted_def refs by simp blast
qed

lemma counted_drop:
  assumes "counted h (add_mset p R)" and l: "fmlookup h p = Some (n, ob)" and "\<not> n > 1"
  shows "counted (fmdrop p h) (mset (refs_of ob) + R)" and "p \<notin># obj_refs h"
proof -
  have refs: "obj_refs h = mset (refs_of ob) + obj_refs (fmdrop p h)"
    using heap_sum_drop [OF l, of "\<lambda>(n, ob). mset (refs_of ob)"] by (simp add: obj_refs_def)
  have zero: "count R p + count (obj_refs h) p = 0"
    using countedD(1) [OF assms(1), of p] refcount_Some [OF l] assms(3) by simp
  then show "p \<notin># obj_refs h" by (metis add_is_0 not_in_iff)
  have "count (mset (refs_of ob) + R) q + count (obj_refs (fmdrop p h)) q =
      (if q = p then 0 else refcount h q)" for q
    using countedD(1) [OF assms(1), of q] zero unfolding refs by (cases "q = p") simp_all
  then show "counted (fmdrop p h) (mset (refs_of ob) + R)"
    using countedD(2) [OF assms(1)] by (simp add: counted_def) blast
qed

lemma typed_pred:
  assumes "typed h" and "fmlookup h p = Some (n, ob)"
  shows "typed (fmupd p (m, ob) h)"
  unfolding typed_def
proof (intro allI impI)
  fix q k ob' assume "fmlookup (fmupd p (m, ob) h) q = Some (k, ob')"
  then have "ok_object h ob'" using assms by (auto simp: typed_def split: if_splits)
  moreover have "same_struct h (fmupd p (m, ob) h) c" for c
    using assms(2) by (auto simp: same_struct_def)
  ultimately show "ok_object (fmupd p (m, ob) h) ob'" using ok_object_cong by blast
qed

lemma typed_drop:
  assumes "typed h" and "p \<notin># obj_refs h"
  shows "typed (fmdrop p h)"
  unfolding typed_def
proof (intro allI impI)
  fix q k ob' assume "fmlookup (fmdrop p h) q = Some (k, ob')"
  then have l: "fmlookup h q = Some (k, ob')" by (auto split: if_splits)
  have "same_struct h (fmdrop p h) c" if "c \<in> set (refs_of ob')" for c
    using embedded_counted [OF l that] assms(2) by (auto simp: same_struct_def)
  then show "ok_object (fmdrop p h) ob'"
    using ok_object_cong typedD [OF assms(1) l] by blast
qed

lemma release_ok:
  assumes "counted h (add_mset p R)" and "typed h"
    and "ledger (trace w) = Some (held h)" and "release E p h w = (h', w')"
  shows "counted h' R \<and> typed h' \<and> ledger (trace w') = Some (held h') \<and>
    (\<forall>q m ob. fmlookup h' q = Some (m, ob) \<longrightarrow> (\<exists>n. fmlookup h q = Some (n, ob)))"
  using assms
proof (induction E p h w arbitrary: h' w' rule: release.induct)
  case (1 E p h w)
  obtain n ob where l: "fmlookup h p = Some (n, ob)"
    using counted_live [OF "1.prems"(1), of p] by auto
  show ?case
  proof (cases "n > 1")
    case True
    have "held (fmupd p (n - 1, ob) h) = held h"
      by (simp add: held_def heap_sum_upd [OF l] heap_sum_drop [OF l])
    moreover have "h' = fmupd p (n - 1, ob) h" "w' = w"
      using "1.prems"(4) l True by (simp_all add: release.simps [of E p h w])
    ultimately show ?thesis
      using counted_pred [OF "1.prems"(1) l True] typed_pred [OF "1.prems"(2) l] "1.prems"(3) l
      by (auto split: if_splits)
  next
    case False
    obtain d v where f: "run_state (free_object E ob) w = (d, v)" by fastforce
    have d: "opt_list d = refs_of ob" by (rule yieldsD [OF free_object_drops f])
    have "held h = res_object ob + held (fmdrop p h)"
      using heap_sum_drop [OF l, of "\<lambda>(n, ob). res_object ob"] by (simp add: held_def)
    then have led: "ledger (trace v) = Some (held (fmdrop p h))"
      using ownsD [OF owns_free_object _ f, of "held (fmdrop p h)"] "1.prems"(3)
      by (simp add: add.commute)
    note c = counted_drop [OF "1.prems"(1) l False]
    note t = typed_drop [OF "1.prems"(2) c(2)]
    show ?thesis
    proof (cases d)
      case None
      then have "h' = fmdrop p h" "w' = v"
        using "1.prems"(4) l False f by (simp_all add: release.simps [of E p h w])
      with c(1) t led None d show ?thesis by (auto split: if_splits)
    next
      case (Some q)
      then have "counted (fmdrop p h) (add_mset q R)" using c(1) d by (metis add_mset_add_single
            mset.simps opt_list_simps(2) union_commute)
      moreover have "release E q (fmdrop p h) v = (h', w')"
        using "1.prems"(4) l False f Some by (simp add: release.simps [of E p h w])
      ultimately have "counted h' R \<and> typed h' \<and> ledger (trace w') = Some (held h') \<and>
          (\<forall>r m ob. fmlookup h' r = Some (m, ob) \<longrightarrow> (\<exists>n. fmlookup (fmdrop p h) r = Some (n, ob)))"
        using "1.IH" [OF l refl False f [symmetric] Some] t led by blast
      then show ?thesis by (auto split: if_splits) (metis option.distinct(1))
    qed
  qed
qed

subsection \<open>Good stores\<close>

definition good :: "heap \<Rightarrow> nat multiset \<Rightarrow> 'w world \<Rightarrow> bool" where
  "good h R w \<longleftrightarrow> counted h R \<and> typed h \<and> ledger (trace w) = Some (held h)"

lemma goodD:
  "good h R w \<Longrightarrow> counted h R" "good h R w \<Longrightarrow> typed h" "good h R w \<Longrightarrow> ledger (trace w) = Some (held h)"
  by (simp_all add: good_def)

lemma good_release:
  assumes "good h (add_mset p R) w" and "release E p h w = (h', w')"
  shows "good h' R w'"
    and "fmlookup h' q = Some (m, ob) \<Longrightarrow> \<exists>n. fmlookup h q = Some (n, ob)"
  using release_ok [OF goodD(1) goodD(2) goodD(3)] assms unfolding good_def by blast+

lemma held_split: "fmlookup h p = Some (n, ob) \<Longrightarrow> held h = held (fmdrop p h) + res_object ob"
  using heap_sum_drop [of h p "(n, ob)" "\<lambda>(n, ob). res_object ob"] by (simp add: held_def add.commute)

lemma good_run:
  assumes "good h R w" and "fmlookup h p = Some (n, ob)" and "owns (res_object ob) m Q"
    and "run_state m w = (x, w')"
  shows "ledger (trace w') = Some (held (fmdrop p h) + Q x)"
  using ownsD [OF assms(3) _ assms(4)] goodD(3) [OF assms(1)] held_split [OF assms(2)] by simp

lemma good_keeps:
  assumes "good h R w" and "fmlookup h p = Some (n, ob)" and "keeps (res_object ob) m"
    and "run_state m w = (x, w')"
  shows "good h R w'"
  using good_run [OF assms] assms(1) held_split [OF assms(2)] by (simp add: good_def)

text \<open>Another reference.\<close>

lemma good_addref:
  assumes "good h R w" and l: "fmlookup h c = Some (n, ob)"
  shows "good (addref c h) (add_mset c R) w"
proof -
  have eq: "addref c h = fmupd c (n + 1, ob) h" using l by (simp add: addref_def)
  have refs: "obj_refs (addref c h) = obj_refs h" and "held (addref c h) = held h"
    by (simp_all add: eq obj_refs_def held_def heap_sum_upd [OF l] heap_sum_drop [OF l])
  moreover have "count (add_mset c R) q + count (obj_refs h) q = refcount (addref c h) q" for q
    using countedD(1) [OF goodD(1) [OF assms(1)], of q] refcount_Some [OF l] by (cases "q = c") (simp_all add: eq)
  moreover have "typed (addref c h)"
    unfolding eq by (rule typed_pred [OF goodD(2) [OF assms(1)] l])
  ultimately show ?thesis
    using assms(1) countedD(2) [OF goodD(1) [OF assms(1)]] by (auto simp: good_def counted_def eq)
qed

text \<open>
  A new struct in place of an old one of the same class; an open connection or stream stays open.
\<close>

definition put :: "nat \<Rightarrow> php_object \<Rightarrow> heap \<Rightarrow> heap" where
  "put p ob h = (case fmlookup h p of None \<Rightarrow> h | Some (n, _) \<Rightarrow> fmupd p (n, ob) h)"

fun same_kind :: "php_object \<Rightarrow> php_object \<Rightarrow> bool" where
  "same_kind (OConnection c) (OConnection c') \<longleftrightarrow> (conn_ssl c \<noteq> None \<longrightarrow> conn_ssl c' \<noteq> None)"
| "same_kind (OListener _) (OListener _) \<longleftrightarrow> True"
| "same_kind (OStream s) (OStream s') \<longleftrightarrow> (str_ssl s \<noteq> None \<longrightarrow> str_ssl s' \<noteq> None)"
| "same_kind _ _ \<longleftrightarrow> False"

lemma ok_object_put:
  assumes "fmlookup h p = Some (n, ob)" and "same_kind ob ob'" and "ok_object h x"
  shows "ok_object (put p ob' h) x"
  using assms by (cases x; cases ob; cases ob') (auto simp: put_def split: option.splits php_object.splits)

lemma good_put:
  assumes g: "good h R w" and l: "fmlookup h p = Some (n, ob)" and k: "same_kind ob ob'"
    and ok: "ok_object h ob'" and bal: "mset (refs_of ob') + R' = mset (refs_of ob) + R"
    and led: "ledger (trace w') = Some (held (fmdrop p h) + res_object ob')"
  shows "good (put p ob' h) R' w'"
proof -
  have eq: "put p ob' h = fmupd p (n, ob') h" using l by (simp add: put_def)
  have "typed (put p ob' h)"
    unfolding typed_def
  proof (intro allI impI)
    fix q m x assume "fmlookup (put p ob' h) q = Some (m, x)"
    then have "ok_object h x" using ok typedD [OF goodD(2) [OF g]] by (auto simp: eq split: if_splits)
    then show "ok_object (put p ob' h) x" by (rule ok_object_put [OF l k])
  qed
  moreover have "held (put p ob' h) = held (fmdrop p h) + res_object ob'"
    using held_split [of "put p ob' h" p n ob'] fmdrop_fmupd_same [of p "(n, ob')" h] by (simp add: eq)
  moreover have "count R' q + count (obj_refs (put p ob' h)) q = refcount (put p ob' h) q" for q
  proof -
    have "obj_refs (put p ob' h) = mset (refs_of ob') + obj_refs (fmdrop p h)"
      and "obj_refs h = mset (refs_of ob) + obj_refs (fmdrop p h)"
      unfolding eq obj_refs_def by (simp_all add: heap_sum_upd [OF l] heap_sum_drop [OF l])
    then have "R' + obj_refs (put p ob' h) = R + obj_refs h"
      using bal by (metis add.assoc add.commute)
    then show ?thesis
      using countedD(1) [OF goodD(1) [OF g], of q] refcount_Some [OF l] by (metis eq count_union refcount_simps(1))
  qed
  ultimately show ?thesis
    using led countedD(2) [OF goodD(1) [OF g]] l by (auto simp: good_def counted_def eq split: if_splits)
qed

text \<open>A new object, which takes over the references its struct holds.\<close>

lemma ok_object_new:
  "fmlookup h q = None \<Longrightarrow> ok_object h x \<Longrightarrow> ok_object (fmupd q cell h) x"
  by (cases x) (auto split: option.splits)

lemma good_new:
  assumes g: "good h (mset (refs_of ob) + R) w" and n: "fmlookup h q = None" and ok: "ok_object h ob"
    and led: "ledger (trace w') = Some (held h + res_object ob)"
  shows "good (fmupd q (1, ob) h) (add_mset q R) w'"
proof -
  have zero: "count (mset (refs_of ob) + R) q + count (obj_refs h) q = 0"
    using countedD(1) [OF goodD(1) [OF g], of q] n by (simp add: refcount_def)
  have refs: "obj_refs (fmupd q (1, ob) h) = mset (refs_of ob) + obj_refs h"
    and "held (fmupd q (1, ob) h) = held h + res_object ob"
    by (simp_all add: obj_refs_def held_def heap_sum_new [OF n] add.commute)
  moreover have "count (add_mset q R) r + count (mset (refs_of ob) + obj_refs h) r =
      refcount (fmupd q (1, ob) h) r" for r
    using countedD(1) [OF goodD(1) [OF g], of r] zero by auto
  moreover have "typed (fmupd q (1, ob) h)"
    unfolding typed_def
    using ok_object_new [OF n] ok typedD [OF goodD(2) [OF g]] by (auto split: if_splits)
  ultimately show ?thesis
    using led countedD(2) [OF goodD(1) [OF g]] by (auto simp: good_def counted_def split: if_splits)
qed

subsection \<open>The methods that leave the struct as it is\<close>

datatype event_op = Set_blocking bool | Wants_read | Wants_write | Get_timeout | Handle_events

datatype info_op = Get_close_info | Get_crypto_info | Get_negotiated_alpn | Get_peer_certificate
  | Get_peer_certificate_chain | Get_verify_result | Get_verify_result_string

datatype stream_op = Write string bool | End | Reset "64 word" | Read "64 word" | Get_reset_code
  | Get_id | Is_bidirectional

definition discard :: "('w, 'a) quic \<Rightarrow> ('w, unit) quic" where
  "discard m = do { _ \<leftarrow> m; ret () }"

lemma keeps_discard: "keeps P m \<Longrightarrow> keeps P (discard m)"
  unfolding discard_def by (erule owns_bind) (rule owns_ret, rule refl)

fun connection_event :: "'w env \<Rightarrow> php_quic_connection \<Rightarrow> event_op \<Rightarrow> ('w, unit) quic" where
  "connection_event E c (Set_blocking b) = discard (Quic_Connection_setBlocking E c b)"
| "connection_event E c Wants_read = discard (Quic_Connection_wantsRead E c)"
| "connection_event E c Wants_write = discard (Quic_Connection_wantsWrite E c)"
| "connection_event E c Get_timeout = discard (Quic_Connection_getTimeout E c)"
| "connection_event E c Handle_events = Quic_Connection_handleEvents E c"

fun listener_event :: "'w env \<Rightarrow> php_quic_listener \<Rightarrow> event_op \<Rightarrow> ('w, unit) quic" where
  "listener_event E l (Set_blocking b) = discard (Quic_Listener_setBlocking E l b)"
| "listener_event E l Wants_read = discard (Quic_Listener_wantsRead E l)"
| "listener_event E l Wants_write = discard (Quic_Listener_wantsWrite E l)"
| "listener_event E l Get_timeout = discard (Quic_Listener_getTimeout E l)"
| "listener_event E l Handle_events = Quic_Listener_handleEvents E l"

fun connection_info :: "'w env \<Rightarrow> php_quic_connection \<Rightarrow> info_op \<Rightarrow> ('w, unit) quic" where
  "connection_info E c Get_close_info = discard (Quic_Connection_getCloseInfo E c)"
| "connection_info E c Get_crypto_info = discard (Quic_Connection_getCryptoInfo E c)"
| "connection_info E c Get_negotiated_alpn = discard (Quic_Connection_getNegotiatedAlpn E c)"
| "connection_info E c Get_peer_certificate = discard (Quic_Connection_getPeerCertificate E c)"
| "connection_info E c Get_peer_certificate_chain = discard (Quic_Connection_getPeerCertificateChain E c)"
| "connection_info E c Get_verify_result = discard (Quic_Connection_getVerifyResult E c)"
| "connection_info E c Get_verify_result_string = discard (Quic_Connection_getVerifyResultString E c)"

fun stream_call_op :: "'w env \<Rightarrow> php_quic_stream \<Rightarrow> stream_op \<Rightarrow> ('w, unit) quic" where
  "stream_call_op E st (Write data fin) = discard (Quic_Stream_write E st data fin)"
| "stream_call_op E st End = discard (Quic_Stream_end E st)"
| "stream_call_op E st (Reset code) = discard (Quic_Stream_reset E st code)"
| "stream_call_op E st (Read len) = discard (Quic_Stream_read E st len)"
| "stream_call_op E st Get_reset_code = discard (Quic_Stream_getResetCode E st)"
| "stream_call_op E st Get_id = discard (Quic_Stream_getId E st)"
| "stream_call_op E st Is_bidirectional = discard (Quic_Stream_isBidirectional E st)"

lemma ssl_of_connection: "opt_res RSsl (conn_ssl c) \<subseteq># res_connection c"
  by (simp add: res_connection_def)

lemma ssl_of_listener: "opt_res RSsl (lis_ssl l) \<subseteq># res_listener l"
  by (simp add: res_listener_def)

lemma keeps_connection_event: "keeps (res_connection c) (connection_event E c ev)"
  by (rule keeps_more [OF _ ssl_of_connection], cases ev)
    (simp_all add: keeps_discard connection_events.keeps_set_blocking connection_events.keeps_wants
      connection_events.keeps_get_timeout connection_events.keeps_handle_events)

lemma keeps_listener_event: "keeps (res_listener l) (listener_event E l ev)"
  by (rule keeps_more [OF _ ssl_of_listener], cases ev)
    (simp_all add: keeps_discard listener_events.keeps_set_blocking listener_events.keeps_wants
      listener_events.keeps_get_timeout listener_events.keeps_handle_events)

lemma keeps_connection_info: "keeps (res_connection c) (connection_info E c q)"
  by (rule keeps_more [OF _ ssl_of_connection], cases q)
    (simp_all add: keeps_discard owns_connection_queries owns_peer_certificate)

lemma keeps_stream_op: "keeps (res_stream st) (stream_call_op E st op)"
  by (cases op) (simp_all add: keeps_discard owns_stream_write owns_stream_end owns_stream_reset
      owns_stream_read owns_stream_queries)

subsection \<open>The system\<close>

text \<open>
  \<open>vars\<close> are the references PHP variables hold, \<open>files\<close> the \<open>php_stream\<close>s \<open>asStream\<close> has made,
  \<open>outside\<close> the world.
\<close>

record 'w sys =
  objs :: heap
  vars :: "nat multiset"
  files :: "(nat, php_stream) fmap"
  outside :: "'w world"

definition file_refs :: "(nat, php_stream) fmap \<Rightarrow> nat multiset" where
  "file_refs fs = heap_sum (\<lambda>ps. case ps_abstract ps of None \<Rightarrow> {#} | Some p \<Rightarrow> {#p#}) fs"

abbreviation refs_in :: "'w sys \<Rightarrow> nat multiset" where
  "refs_in s \<equiv> vars s + file_refs (files s)"

definition stream_at :: "heap \<Rightarrow> nat \<Rightarrow> php_quic_stream" where
  "stream_at h p = (case fmlookup h p of Some (_, OStream st) \<Rightarrow> st | _ \<Rightarrow> quic_stream_create)"

definition object_at :: "heap \<Rightarrow> nat \<Rightarrow> php_object" where
  "object_at h p = (case fmlookup h p of Some (_, ob) \<Rightarrow> ob | None \<Rightarrow> OForeign)"

text \<open>A variable names the object: only such an object can be called.\<close>

definition names :: "'w sys \<Rightarrow> nat \<Rightarrow> php_object \<Rightarrow> bool" where
  "names s p ob \<longleftrightarrow> p \<in># vars s \<and> (\<exists>n. fmlookup (objs s) p = Some (n, ob))"

text \<open>What the three \<open>create_object\<close> hooks make.  There is no step for \<open>clone\<close>: the tables refuse it.\<close>

definition fresh_object :: "php_object \<Rightarrow> bool" where
  "fresh_object ob \<longleftrightarrow>
     ob \<in> {OConnection quic_connection_create, OListener quic_listener_create, OStream quic_stream_create}"

inductive step :: "'w env \<Rightarrow> 'w sys \<Rightarrow> 'w sys \<Rightarrow> bool" for E where
  create: "fmlookup (objs s) p = None \<Longrightarrow> fresh_object ob \<Longrightarrow>
    step E s (s\<lparr>objs := fmupd p (1, ob) (objs s), vars := add_mset p (vars s)\<rparr>)"
| copy: "p \<in># vars s \<Longrightarrow>
    step E s (s\<lparr>objs := addref p (objs s), vars := add_mset p (vars s)\<rparr>)"
| unset: "p \<in># vars s \<Longrightarrow> release E p (objs s) (outside s) = (h, w) \<Longrightarrow>
    step E s (s\<lparr>objs := h, vars := vars s - {#p#}, outside := w\<rparr>)"
| connect: "names s p (OConnection c) \<Longrightarrow>
    run_state (Quic_Connection_construct fuel E c host port options) (outside s) = (Inr (out, c'), w) \<Longrightarrow>
    step E s (s\<lparr>objs := put p (OConnection c') (objs s), outside := w\<rparr>)"
| open_stream: "names s p (OConnection c) \<Longrightarrow>
    run_state (Quic_Connection_openStream E p c bidi) (outside s) = (Inr st, w) \<Longrightarrow>
    fmlookup (objs s) q = None \<Longrightarrow>
    step E s (s\<lparr>objs := fmupd q (1, OStream st) (addref p (objs s)), vars := add_mset q (vars s), outside := w\<rparr>)"
| open_stream_throws: "names s p (OConnection c) \<Longrightarrow>
    run_state (Quic_Connection_openStream E p c bidi) (outside s) = (Inl e, w) \<Longrightarrow>
    step E s (s\<lparr>outside := w\<rparr>)"
| accept_stream: "names s p (OConnection c) \<Longrightarrow>
    run_state (Quic_Connection_acceptStream E p c) (outside s) = (Some st, w) \<Longrightarrow>
    fmlookup (objs s) q = None \<Longrightarrow>
    step E s (s\<lparr>objs := fmupd q (1, OStream st) (addref p (objs s)), vars := add_mset q (vars s), outside := w\<rparr>)"
| accept_stream_null: "names s p (OConnection c) \<Longrightarrow>
    run_state (Quic_Connection_acceptStream E p c) (outside s) = (None, w) \<Longrightarrow>
    step E s (s\<lparr>outside := w\<rparr>)"
| close_connection: "names s p (OConnection c) \<Longrightarrow>
    run_state (Quic_Connection_close E c code reason) (outside s) = (c', w) \<Longrightarrow>
    step E s (s\<lparr>objs := put p (OConnection c') (objs s), outside := w\<rparr>)"
| connection_event: "names s p (OConnection c) \<Longrightarrow>
    run_state (connection_event E c ev) (outside s) = (u, w) \<Longrightarrow>
    step E s (s\<lparr>outside := w\<rparr>)"
| connection_info: "names s p (OConnection c) \<Longrightarrow>
    run_state (connection_info E c info) (outside s) = (u, w) \<Longrightarrow>
    step E s (s\<lparr>outside := w\<rparr>)"
| listen: "names s p (OListener l) \<Longrightarrow>
    run_state (Quic_Listener_construct E l host port ht) (outside s) = ((out, l'), w) \<Longrightarrow>
    step E s (s\<lparr>objs := put p (OListener l') (objs s), outside := w\<rparr>)"
| accept: "names s p (OListener l) \<Longrightarrow>
    run_state (Quic_Listener_accept E p l) (outside s) = (Some c, w) \<Longrightarrow>
    fmlookup (objs s) q = None \<Longrightarrow>
    step E s (s\<lparr>objs := fmupd q (1, OConnection c) (addref p (objs s)), vars := add_mset q (vars s), outside := w\<rparr>)"
| accept_null: "names s p (OListener l) \<Longrightarrow>
    run_state (Quic_Listener_accept E p l) (outside s) = (None, w) \<Longrightarrow>
    step E s (s\<lparr>outside := w\<rparr>)"
| close_listener: "names s p (OListener l) \<Longrightarrow>
    run_state (Quic_Listener_close E l) (outside s) = (l', w) \<Longrightarrow>
    step E s (s\<lparr>objs := put p (OListener l') (objs s), outside := w\<rparr>)"
| listener_event: "names s p (OListener l) \<Longrightarrow>
    run_state (listener_event E l ev) (outside s) = (u, w) \<Longrightarrow>
    step E s (s\<lparr>outside := w\<rparr>)"
| construct_stream: "names s p (OStream st) \<Longrightarrow> names s k (OConnection c) \<Longrightarrow>
    run_state (Quic_Stream_construct E st k c bidi) (outside s) = ((Inr u, st'), w) \<Longrightarrow>
    step E s (s\<lparr>objs := put p (OStream st') (addref k (objs s)), outside := w\<rparr>)"
| construct_stream_throws: "names s p (OStream st) \<Longrightarrow> names s k (OConnection c) \<Longrightarrow>
    run_state (Quic_Stream_construct E st k c bidi) (outside s) = ((Inl e, st'), w) \<Longrightarrow>
    step E s (s\<lparr>objs := put p (OStream st') (objs s), outside := w\<rparr>)"
| stream_op: "names s p (OStream st) \<Longrightarrow>
    run_state (stream_call_op E st sop) (outside s) = (u, w) \<Longrightarrow>
    step E s (s\<lparr>outside := w\<rparr>)"
| get_connection: "names s p (OStream st) \<Longrightarrow> Quic_Stream_getConnection st = Inr k \<Longrightarrow>
    step E s (s\<lparr>objs := addref k (objs s), vars := add_mset k (vars s)\<rparr>)"
| as_stream: "names s p (OStream st) \<Longrightarrow>
    run_state (Quic_Stream_asStream E p st) (outside s) = (Inr ps, w) \<Longrightarrow> fmlookup (files s) f = None \<Longrightarrow>
    step E s (s\<lparr>objs := addref p (objs s), files := fmupd f ps (files s), outside := w\<rparr>)"
| as_stream_throws: "names s p (OStream st) \<Longrightarrow>
    run_state (Quic_Stream_asStream E p st) (outside s) = (Inl e, w) \<Longrightarrow>
    step E s (s\<lparr>outside := w\<rparr>)"
| file_write: "fmlookup (files s) f = Some ps \<Longrightarrow>
    run_state (quic_stream_op_write E (stream_at (objs s)) ps buf) (outside s) = (r, w) \<Longrightarrow>
    step E s (s\<lparr>outside := w\<rparr>)"
| file_read: "fmlookup (files s) f = Some ps \<Longrightarrow>
    run_state (quic_stream_op_read E (stream_at (objs s)) ps n) (outside s) = ((r, buf, ps'), w) \<Longrightarrow>
    step E s (s\<lparr>files := fmupd f ps' (files s), outside := w\<rparr>)"
| file_close: "fmlookup (files s) f = Some ps \<Longrightarrow> quic_stream_op_close ps = (r, Some p, ps') \<Longrightarrow>
    release E p (objs s) (outside s) = (h, w) \<Longrightarrow>
    step E s (s\<lparr>objs := h, files := fmdrop f (files s), outside := w\<rparr>)"
| poll: "run_state (Quic_poll E (object_at (objs s)) items timeout) (outside s) = (Some res, w) \<Longrightarrow>
    step E s (s\<lparr>outside := w\<rparr>)"

inductive reachable :: "'w env \<Rightarrow> 'w sys \<Rightarrow> bool" for E where
  start: "reachable E \<lparr>objs = fmempty, vars = {#}, files = fmempty, outside = \<lparr>engine = u, trace = []\<rparr>\<rparr>"
| more: "reachable E s \<Longrightarrow> step E s s' \<Longrightarrow> reachable E s'"

subsection \<open>The invariant of the system\<close>

definition files_ok :: "heap \<Rightarrow> (nat, php_stream) fmap \<Rightarrow> bool" where
  "files_ok h fs \<longleftrightarrow> (\<forall>f ps p. fmlookup fs f = Some ps \<longrightarrow> ps_abstract ps = Some p \<longrightarrow>
     (\<exists>n st. fmlookup h p = Some (n, OStream st) \<and> str_ssl st \<noteq> None))"

definition sound :: "'w sys \<Rightarrow> bool" where
  "sound s \<longleftrightarrow> good (objs s) (refs_in s) (outside s) \<and> files_ok (objs s) (files s)"

lemma soundD:
  "sound s \<Longrightarrow> good (objs s) (refs_in s) (outside s)" "sound s \<Longrightarrow> files_ok (objs s) (files s)"
  by (simp_all add: sound_def)

lemma files_ok_mono:
  assumes "files_ok h fs"
    and "\<And>p n st. fmlookup h p = Some (n, OStream st) \<Longrightarrow> str_ssl st \<noteq> None \<Longrightarrow>
      \<exists>n st. fmlookup h' p = Some (n, OStream st) \<and> str_ssl st \<noteq> None"
  shows "files_ok h' fs"
  using assms unfolding files_ok_def by meson

lemma files_ok_put:
  assumes "files_ok h fs" and l: "fmlookup h p = Some (n, ob)" and "same_kind ob ob'"
  shows "files_ok (put p ob' h) fs"
  by (rule files_ok_mono [OF assms(1)])
    (use assms(3) l in \<open>cases ob; cases ob'; auto simp: put_def\<close>)

lemma files_ok_addref: "files_ok h fs \<Longrightarrow> files_ok (addref p h) fs"
  by (erule files_ok_mono) (auto simp: addref_def split: option.splits)

lemma files_ok_new: "files_ok h fs \<Longrightarrow> fmlookup h q = None \<Longrightarrow> files_ok (fmupd q cell h) fs"
  by (erule files_ok_mono) auto

lemma file_refs_mem: "fmlookup fs f = Some ps \<Longrightarrow> ps_abstract ps = Some p \<Longrightarrow> p \<in># file_refs fs"
  using heap_sum_drop [of fs f ps "\<lambda>ps. case ps_abstract ps of None \<Rightarrow> {#} | Some p \<Rightarrow> {#p#}"]
  by (simp add: file_refs_def)

text \<open>The four ways a step changes the system.\<close>

lemma sound_world:
  assumes "sound s" and "names s p ob" and "keeps (res_object ob) m"
    and "run_state m (outside s) = (x, w)"
  shows "sound (s\<lparr>outside := w\<rparr>)"
  using assms good_keeps unfolding sound_def names_def by fastforce

lemma sound_put:
  assumes s: "sound s" and n: "names s p ob" and m: "owns (res_object ob) m Q"
    and r: "run_state m (outside s) = (x, w)" and q: "Q x = res_object ob'" and k: "same_kind ob ob'"
    and ok: "ok_object (objs s) ob'" and refs: "refs_of ob' = refs_of ob"
  shows "sound (s\<lparr>objs := put p ob' (objs s), outside := w\<rparr>)"
proof -
  obtain n where l: "fmlookup (objs s) p = Some (n, ob)" using n by (auto simp: names_def)
  have "good (put p ob' (objs s)) (refs_in s) w"
    by (rule good_put [OF soundD(1) [OF s] l k ok])
      (simp_all add: refs good_run [OF soundD(1) [OF s] l m r] q)
  then show ?thesis
    using files_ok_put [OF soundD(2) [OF s] l k] by (simp add: sound_def)
qed

lemma sound_new:
  assumes s: "sound s" and n: "names s p ob"
    and m: "owns (res_object ob) m (\<lambda>x. res_object ob + R x)" and r: "run_state m (outside s) = (x, w)"
    and q: "fmlookup (objs s) q = None" and new: "R x = res_object ob'"
    and ok: "ok_object (addref p (objs s)) ob'" and refs: "refs_of ob' = [p]"
  shows "sound (s\<lparr>objs := fmupd q (1, ob') (addref p (objs s)), vars := add_mset q (vars s), outside := w\<rparr>)"
proof -
  obtain n where l: "fmlookup (objs s) p = Some (n, ob)" using n by (auto simp: names_def)
  have g: "good (addref p (objs s)) (mset (refs_of ob') + refs_in s) (outside s)"
    using good_addref [OF soundD(1) [OF s] l] refs by simp
  have h: "held (addref p (objs s)) = held (objs s)"
    using goodD(3) [OF g] goodD(3) [OF soundD(1) [OF s]] by simp
  have free: "fmlookup (addref p (objs s)) q = None" using q l by (auto simp: addref_def)
  have "ledger (trace w) = Some (held (addref p (objs s)) + res_object ob')"
    using good_run [OF soundD(1) [OF s] l m r] held_split [OF l] new h by (simp add: add.assoc)
  from good_new [OF g free ok this] show ?thesis
    using files_ok_new [OF files_ok_addref [OF soundD(2) [OF s]] free] by (simp add: sound_def)
qed

lemma sound_release:
  assumes s: "sound s" and b: "refs_in s = add_mset p (V + file_refs fs)"
    and fs: "\<And>f ps. fmlookup fs f = Some ps \<Longrightarrow> fmlookup (files s) f = Some ps"
    and r: "release E p (objs s) (outside s) = (h, w)"
  shows "sound (s\<lparr>objs := h, vars := V, files := fs, outside := w\<rparr>)"
proof -
  have g: "good (objs s) (add_mset p (V + file_refs fs)) (outside s)"
    using soundD(1) [OF s] b by simp
  note rel = good_release [OF g r]
  have "files_ok h fs"
    unfolding files_ok_def
  proof (intro allI impI)
    fix f ps p' assume f: "fmlookup fs f = Some ps" "ps_abstract ps = Some p'"
    obtain n ob where l: "fmlookup h p' = Some (n, ob)"
      using counted_live [OF goodD(1) [OF rel(1)], of p'] file_refs_mem [OF f] by auto
    then show "\<exists>n st. fmlookup h p' = Some (n, OStream st) \<and> str_ssl st \<noteq> None"
      using rel(2) [OF l] soundD(2) [OF s] fs [OF f(1)] f(2) unfolding files_ok_def by fastforce
  qed
  with rel(1) show ?thesis by (simp add: sound_def)
qed

subsection \<open>What the methods return\<close>

lemma res_in_held: "fmlookup h p = Some (n, ob) \<Longrightarrow> res_object ob \<subseteq># held h"
  by (simp add: held_split)

lemma sound_keeps:
  assumes "sound s" and "P \<subseteq># held (objs s)" and "keeps P m" and "run_state m (outside s) = (x, w)"
  shows "sound (s\<lparr>outside := w\<rparr>)"
proof -
  have "ledger (trace w) = Some (held (objs s))"
    using ownsD [OF keeps_more [OF assms(3,2)] _ assms(4), of "{#}"]
      goodD(3) [OF soundD(1) [OF assms(1)]] by simp
  then show ?thesis using assms(1) by (simp add: sound_def good_def)
qed

lemma named:
  assumes "sound s" and "names s p ob"
  shows "ok_object (objs s) ob" and "p \<in># vars s"
  using assms typedD [OF goodD(2) [OF soundD(1) [OF assms(1)]]] by (auto simp: names_def)

lemma construct_connection_kind:
  assumes "run_state (Quic_Connection_construct fuel E c host port options) w = (Inr (out, c'), w')"
    and "ok_object h (OConnection c)"
  shows "same_kind (OConnection c) (OConnection c') \<and> ok_object h (OConnection c') \<and>
    refs_of (OConnection c') = refs_of (OConnection c)"
  using yieldsD [OF yields_connection_construct assms(1)] assms(2)
  by (cases out) (auto simp: newly_connected_def connection_wf_def quic_connection_get_gc_def)

lemma close_connection_kind:
  assumes "run_state (Quic_Connection_close E c code reason) w = (c', w')"
    and "ok_object h (OConnection c)"
  shows "same_kind (OConnection c) (OConnection c') \<and> ok_object h (OConnection c') \<and>
    refs_of (OConnection c') = refs_of (OConnection c)"
proof -
  have "yields (\<lambda>c'. c' = c \<or> c' = c\<lparr>conn_closed := True\<rparr>) (Quic_Connection_close E c code reason)"
    unfolding Quic_Connection_close_def by (intro yields_rules) auto
  from yieldsD [OF this assms(1)] show ?thesis
    using assms(2) by (auto simp: connection_wf_def quic_connection_get_gc_def)
qed

lemma listen_kind:
  assumes "run_state (Quic_Listener_construct E l host port ht) w = ((out, l'), w')"
    and "listener_wf l"
  shows "listener_wf l'"
  using yieldsD [OF yields_listener_construct assms(1)] assms(2)
  by (cases out) (auto simp: newly_listening_def listener_wf_def)

lemma close_listener_kind:
  "run_state (Quic_Listener_close E l) w = (l', w') \<Longrightarrow> l' = quic_listener_create"
  unfolding Quic_Listener_close_def by (rule yieldsD [OF released_owns_nothing])

lemma opened_stream:
  assumes "run_state (Quic_Connection_openStream E p c bidi) w = (Inr st, w')"
  shows "\<exists>s. st = php_quic_stream_init_object s p \<and> conn_ssl c \<noteq> None"
proof -
  have "yields (\<lambda>x. \<forall>st. x = Inr st \<longrightarrow> (\<exists>s. st = php_quic_stream_init_object s p \<and> conn_ssl c \<noteq> None))
      (Quic_Connection_openStream E p c bidi)"
    unfolding Quic_Connection_openStream_def by (intro yields_rules) auto
  from yieldsD [OF this assms] show ?thesis by simp
qed

lemma accepted_stream:
  assumes "run_state (Quic_Connection_acceptStream E p c) w = (Some st, w')"
  shows "\<exists>s. st = php_quic_stream_init_object s p \<and> conn_ssl c \<noteq> None"
proof -
  have "yields (\<lambda>x. \<forall>st. x = Some st \<longrightarrow> (\<exists>s. st = php_quic_stream_init_object s p \<and> conn_ssl c \<noteq> None))
      (Quic_Connection_acceptStream E p c)"
    unfolding Quic_Connection_acceptStream_def by (intro yields_rules) auto
  from yieldsD [OF this assms] show ?thesis by simp
qed

lemma accepted_connection:
  assumes "run_state (Quic_Listener_accept E p l) w = (Some c, w')"
  shows "\<exists>s fd. c = php_quic_connection_init_object s fd False (Some p)"
proof -
  have "yields (\<lambda>x. \<forall>c. x = Some c \<longrightarrow> (\<exists>s fd. c = php_quic_connection_init_object s fd False (Some p)))
      (Quic_Listener_accept E p l)"
    unfolding Quic_Listener_accept_def by (intro yields_rules) auto
  from yieldsD [OF this assms] show ?thesis by simp
qed

lemma exported_stream:
  assumes "run_state (Quic_Stream_asStream E p st) w = (Inr ps, w')"
  shows "ps_abstract ps = Some p \<and> str_ssl st \<noteq> None"
proof -
  have "yields (\<lambda>x. \<forall>ps. x = Inr ps \<longrightarrow> ps_abstract ps = Some p \<and> str_ssl st \<noteq> None) (Quic_Stream_asStream E p st)"
    unfolding Quic_Stream_asStream_def by (intro yields_rules) auto
  from yieldsD [OF this assms] show ?thesis by simp
qed

lemma op_read_abstract:
  assumes "run_state (quic_stream_op_read E deref ps n) w = ((r, buf, ps'), w')"
  shows "ps_abstract ps' = ps_abstract ps"
proof -
  have "yields (\<lambda>(r, buf, ps'). ps_abstract ps' = ps_abstract ps) (quic_stream_op_read E deref ps n)"
    unfolding quic_stream_op_read_def by (intro yields_rules) auto
  from yieldsD [OF this assms] show ?thesis by simp
qed

lemma abstract_in_held: "opt_res RSsl (abstract_ssl (stream_at h) ps) \<subseteq># held h"
proof (cases "abstract_ssl (stream_at h) ps")
  case (Some s)
  then obtain p where s: "str_ssl (stream_at h p) = Some s"
    by (auto simp: abstract_ssl_def bind_eq_Some_conv)
  obtain n st where "fmlookup h p = Some (n, OStream st)" and "str_ssl st = Some s"
  proof (cases "fmlookup h p")
    case (Some a)
    then show ?thesis
      using s that by (cases a; cases "snd a") (auto simp: stream_at_def quic_stream_create_def)
  qed (use s in \<open>simp add: stream_at_def quic_stream_create_def\<close>)
  then show ?thesis using res_in_held [of h p n "OStream st"] Some by (simp add: res_stream_def)
qed simp

lemma poll_in_held:
  assumes "php_quic_obj_ssl (object_at h) (ZObject p) = Some s"
  shows "RSsl s \<in># held h"
proof -
  obtain n ob where l: "fmlookup h p = Some (n, ob)" and "RSsl s \<in># res_object ob"
    using assms by (auto simp: php_quic_obj_ssl_def object_at_def res_connection_def res_listener_def
        res_stream_def split: option.splits php_object.splits)
  then show ?thesis using mset_subset_eqD [OF res_in_held [OF l]] by blast
qed

subsection \<open>Every step keeps the system sound\<close>

lemma sound_as_stream:
  assumes s: "sound s" and n: "names s p (OStream st)" and f: "fmlookup (files s) f = None"
    and r: "run_state (Quic_Stream_asStream E p st) (outside s) = (Inr ps, w)"
  shows "sound (s\<lparr>objs := addref p (objs s), files := fmupd f ps (files s), outside := w\<rparr>)"
proof -
  obtain n where l: "fmlookup (objs s) p = Some (n, OStream st)" using n by (auto simp: names_def)
  note ps = exported_stream [OF r]
  have "good (objs s) (refs_in s) w"
    using good_keeps [OF soundD(1) [OF s] l _ r] by (simp add: owns_stream_queries)
  note g = good_addref [OF this l]
  have "file_refs (fmupd f ps (files s)) = add_mset p (file_refs (files s))"
    by (simp add: file_refs_def heap_sum_new [OF f] ps)
  moreover have "files_ok (addref p (objs s)) (fmupd f ps (files s))"
    using files_ok_addref [OF soundD(2) [OF s], of p] l ps
    by (auto simp: files_ok_def addref_def)
  ultimately show ?thesis using g by (simp add: sound_def)
qed

lemma sound_construct_stream:
  assumes s: "sound s" and n: "names s p (OStream st)" "names s k (OConnection c)"
    and r: "run_state (Quic_Stream_construct E st k c bidi) (outside s) = ((out, st'), w)"
  shows "sound (s\<lparr>objs := put p (OStream st') (case out of Inl _ \<Rightarrow> objs s | Inr _ \<Rightarrow> addref k (objs s)),
    outside := w\<rparr>)"
proof -
  obtain a b where l: "fmlookup (objs s) p = Some (a, OStream st)"
    and k: "fmlookup (objs s) k = Some (b, OConnection c)"
    using n by (auto simp: names_def)
  have "fmlookup (fmdrop p (objs s)) k = Some (b, OConnection c)" using k l by auto
  then have "opt_res RSsl (conn_ssl c) \<subseteq># held (fmdrop p (objs s))"
    using subset_mset.trans [OF ssl_of_connection res_in_held [of "fmdrop p (objs s)" k b "OConnection c",
      unfolded res_object.simps]] by blast
  then obtain F where F: "held (fmdrop p (objs s)) = F + opt_res RSsl (conn_ssl c)"
    by (metis subset_mset.diff_add)
  have led: "ledger (trace w) = Some (held (fmdrop p (objs s)) + res_stream st')"
    using ownsD [OF owns_stream_construct _ r, of F] goodD(3) [OF soundD(1) [OF s]]
      held_split [OF l] F by (simp add: ac_simps)
  from yieldsD [OF stream_construct_result r]
  consider (throws) "st' = st" "isl out"
    | (opens) s' where "str_ssl st = None" "conn_ssl c \<noteq> None" "out = Inr ()"
      "st' = st\<lparr>str_ssl := Some s', str_connection := Some k\<rparr>"
    by auto
  then show ?thesis
  proof cases
    case throws
    have "good (put p (OStream st') (objs s)) (refs_in s) w"
      by (rule good_put [OF soundD(1) [OF s] l]) (use throws led named(1) [OF s n(1)] in simp_all)
    then show ?thesis
      using files_ok_put [OF soundD(2) [OF s] l, of "OStream st'"] throws
      by (cases out) (simp_all add: sound_def)
  next
    case opens
    let ?h = "addref k (objs s)"
    have l': "fmlookup ?h p = Some (a, OStream st)" using l k by (auto simp: addref_def)
    have none: "str_connection st = None"
      using named(1) [OF s n(1)] opens(1) by (auto split: option.splits)
    have g: "good ?h (add_mset k (refs_in s)) (outside s)"
      by (rule good_addref [OF soundD(1) [OF s] k])
    have "held ?h = held (objs s)"
      using goodD(3) [OF g] goodD(3) [OF soundD(1) [OF s]] by simp
    then have "held (fmdrop p ?h) = held (fmdrop p (objs s))"
      using held_split [OF l] held_split [OF l'] by simp
    then have "good (put p (OStream st') ?h) (refs_in s) w"
      by (intro good_put [OF g l'])
        (use k none opens(2,4) led in \<open>simp_all add: addref_def quic_stream_get_gc_def\<close>)
    then show ?thesis
      using files_ok_put [OF files_ok_addref [OF soundD(2) [OF s]] l', of "OStream st'"] opens(1,3)
      by (simp add: sound_def)
  qed
qed

lemma new_stream_ok:
  assumes "names s p (OConnection c)" and "conn_ssl c \<noteq> None"
  shows "ok_object (addref p (objs s)) (OStream (php_quic_stream_init_object sid p))"
    and "refs_of (OStream (php_quic_stream_init_object sid p)) = [p]"
  using assms by (auto simp: names_def addref_def php_quic_stream_init_object_def quic_stream_get_gc_def)

lemma new_connection_ok:
  assumes "names s p (OListener l)"
  shows "ok_object (addref p (objs s)) (OConnection (php_quic_connection_init_object sid fd False (Some p)))"
    and "refs_of (OConnection (php_quic_connection_init_object sid fd False (Some p))) = [p]"
  using assms by (auto simp: names_def addref_def php_quic_connection_init_object_def
      quic_connection_get_gc_def connection_wf_def)

lemma fresh_object_ok:
  assumes "fresh_object ob"
  shows "ok_object h ob" and "res_object ob = {#}" and "refs_of ob = []"
  using assms by (auto simp: fresh_object_def connection_wf_def listener_wf_def
      quic_connection_create_def quic_listener_create_def quic_stream_create_def
      quic_connection_get_gc_def quic_stream_get_gc_def res_connection_def res_listener_def res_stream_def)

lemma sound_addref:
  assumes "sound s" and "fmlookup (objs s) p = Some (n, ob)"
  shows "sound (s\<lparr>objs := addref p (objs s), vars := add_mset p (vars s)\<rparr>)"
  using good_addref [OF soundD(1) [OF assms(1)] assms(2)] files_ok_addref [OF soundD(2) [OF assms(1)]]
  by (simp add: sound_def)

lemma sound_create:
  assumes "sound s" and "fmlookup (objs s) p = None" and "fresh_object ob"
  shows "sound (s\<lparr>objs := fmupd p (1, ob) (objs s), vars := add_mset p (vars s)\<rparr>)"
  using good_new [of "objs s" ob "refs_in s" "outside s" p "outside s"] fresh_object_ok [OF assms(3)] assms(2)
    files_ok_new [OF soundD(2) [OF assms(1)] assms(2)] soundD(1) [OF assms(1)] goodD(3) [OF soundD(1) [OF assms(1)]]
  by (simp add: sound_def)

lemma sound_same:
  assumes "sound s" and "names s p ob" and "owns (res_object ob) m Q"
    and "run_state m (outside s) = (x, w)" and "Q x = res_object ob"
  shows "sound (s\<lparr>outside := w\<rparr>)"
proof -
  obtain n where l: "fmlookup (objs s) p = Some (n, ob)" using assms(2) by (auto simp: names_def)
  show ?thesis
    using good_run [OF soundD(1) [OF assms(1)] l assms(3,4)] assms(1,5) held_split [OF l]
    by (simp add: sound_def good_def)
qed

lemma step_sound: "step E s s' \<Longrightarrow> sound s \<Longrightarrow> sound s'"
proof (induction rule: step.induct)
  case (create s p ob)
  then show ?case by (intro sound_create)
next
  case (copy p s)
  then obtain n ob where "fmlookup (objs s) p = Some (n, ob)"
    using counted_live [OF goodD(1) [OF soundD(1)], of s p] by auto
  with copy.prems show ?case by (rule sound_addref)
next
  case (unset p s h w)
  have "sound (s\<lparr>objs := h, vars := vars s - {#p#}, files := files s, outside := w\<rparr>)"
    by (rule sound_release [OF unset.prems _ _ unset.hyps(2)]) (use unset.hyps(1) in simp_all)
  then show ?case by simp
next
  case (connect s p c fuel host port options out c' w)
  note ok = named(1) [OF connect.prems connect.hyps(1)]
  note k = construct_connection_kind [OF connect.hyps(2) ok]
  have "connection_wf c" using ok by simp
  with k show ?case
    by (intro sound_put [OF connect.prems connect.hyps(1) owns_connection_construct
          [folded res_object.simps(1)] connect.hyps(2)]) simp_all
next
  case (open_stream s p c bidi st w q)
  then obtain sid where "st = php_quic_stream_init_object sid p" "conn_ssl c \<noteq> None"
    using opened_stream by blast
  with new_stream_ok [OF open_stream.hyps(1), of sid] show ?case
    by (intro sound_new [OF open_stream.prems open_stream.hyps(1) owns_open_stream
          [folded res_object.simps(1)] open_stream.hyps(2,3)]) simp_all
next
  case (open_stream_throws s p c bidi e w)
  show ?case
    by (rule sound_same [OF open_stream_throws.prems open_stream_throws.hyps(1) owns_open_stream [folded res_object.simps(1)]
          open_stream_throws.hyps(2)]) simp
next
  case (accept_stream s p c st w q)
  then obtain sid where "st = php_quic_stream_init_object sid p" "conn_ssl c \<noteq> None"
    using accepted_stream by blast
  with new_stream_ok [OF accept_stream.hyps(1), of sid] show ?case
    by (intro sound_new [OF accept_stream.prems accept_stream.hyps(1) owns_accept_stream
          [folded res_object.simps(1)] accept_stream.hyps(2,3)]) simp_all
next
  case (accept_stream_null s p c w)
  show ?case
    by (rule sound_same [OF accept_stream_null.prems accept_stream_null.hyps(1) owns_accept_stream [folded res_object.simps(1)]
          accept_stream_null.hyps(2)]) simp
next
  case (close_connection s p c code reason c' w)
  note k = close_connection_kind [OF close_connection.hyps(2) named(1) [OF close_connection.prems close_connection.hyps(1)]]
  then show ?case
    by (intro sound_put [OF close_connection.prems close_connection.hyps(1) owns_connection_close
          [folded res_object.simps(1)] close_connection.hyps(2)]) simp_all
next
  case (connection_event s p c ev u w)
  show ?case by (rule sound_world [OF connection_event.prems connection_event.hyps(1) _ connection_event.hyps(2)]) (simp add: keeps_connection_event)
next
  case (connection_info s p c info u w)
  show ?case by (rule sound_world [OF connection_info.prems connection_info.hyps(1) _ connection_info.hyps(2)]) (simp add: keeps_connection_info)
next
  case (listen s p l host port ht out l' w)
  have wf: "listener_wf l" using named(1) [OF listen.prems listen.hyps(1)] by simp
  with listen_kind [OF listen.hyps(2) wf] show ?case
    by (intro sound_put [OF listen.prems listen.hyps(1) owns_listener_construct
          [folded res_object.simps(3)] listen.hyps(2)]) simp_all
next
  case (accept s p l c w q)
  then obtain sid fd where "c = php_quic_connection_init_object sid fd False (Some p)"
    using accepted_connection by blast
  with new_connection_ok [OF accept.hyps(1), of sid fd] show ?case
    by (intro sound_new [OF accept.prems accept.hyps(1) owns_accept [folded res_object.simps(3)]
          accept.hyps(2,3)]) simp_all
next
  case (accept_null s p l w)
  show ?case
    by (rule sound_same [OF accept_null.prems accept_null.hyps(1) owns_accept [folded res_object.simps(3)]
          accept_null.hyps(2)]) simp
next
  case (close_listener s p l l' w)
  note l' = close_listener_kind [OF close_listener.hyps(2)]
  then show ?case
    by (intro sound_put [OF close_listener.prems close_listener.hyps(1) owns_listener_close
          [folded res_object.simps(3)] close_listener.hyps(2)])
      (simp_all add: listeners.create_owns_nothing listener_wf_def)
next
  case (listener_event s p l ev u w)
  show ?case by (rule sound_world [OF listener_event.prems listener_event.hyps(1) _ listener_event.hyps(2)]) (simp add: keeps_listener_event)
next
  case (construct_stream s p st k c bidi u st' w)
  from sound_construct_stream [OF construct_stream.prems construct_stream.hyps] show ?case by simp
next
  case (construct_stream_throws s p st k c bidi e st' w)
  from sound_construct_stream [OF construct_stream_throws.prems construct_stream_throws.hyps] show ?case by simp
next
  case (stream_op s p st sop u w)
  show ?case by (rule sound_world [OF stream_op.prems stream_op.hyps(1) _ stream_op.hyps(2)]) (simp add: keeps_stream_op)
next
  case (get_connection s p st k)
  then have "str_connection st = Some k"
    by (auto simp: Quic_Stream_getConnection_def split: option.splits)
  with named(1) [OF get_connection.prems get_connection.hyps(1)] obtain n ob where "fmlookup (objs s) k = Some (n, ob)" by (auto split: option.splits)
  with get_connection.prems show ?case by (rule sound_addref)
next
  case (as_stream s p st ps w f)
  then show ?case by (intro sound_as_stream)
next
  case (as_stream_throws s p st e w)
  show ?case by (rule sound_world [OF as_stream_throws.prems as_stream_throws.hyps(1) _ as_stream_throws.hyps(2)]) (simp add: owns_stream_queries)
next
  case (file_write s f ps buf r w)
  show ?case by (rule sound_keeps [OF file_write.prems abstract_in_held owns_op_write file_write.hyps(2)])
next
  case (file_read s f ps n r buf ps' w)
  have "sound (s\<lparr>outside := w\<rparr>)"
    by (rule sound_keeps [OF file_read.prems abstract_in_held owns_op_read file_read.hyps(2)])
  moreover have "file_refs (fmupd f ps' (files s)) = file_refs (files s)"
    using op_read_abstract [OF file_read.hyps(2)]
    by (simp add: file_refs_def heap_sum_upd [OF file_read.hyps(1)] heap_sum_drop [OF file_read.hyps(1)])
  ultimately show ?case
    using op_read_abstract [OF file_read.hyps(2)] file_read.hyps(1)
    by (auto simp: sound_def files_ok_def)
next
  case (file_close s f ps r p ps' h w)
  have "ps_abstract ps = Some p"
    using file_close.hyps(2) by (auto simp: quic_stream_op_close_def split: option.splits)
  then have "file_refs (files s) = add_mset p (file_refs (fmdrop f (files s)))"
    by (simp add: file_refs_def heap_sum_drop [OF file_close.hyps(1)])
  then have "sound (s\<lparr>objs := h, vars := vars s, files := fmdrop f (files s), outside := w\<rparr>)"
    by (intro sound_release [OF file_close.prems _ _ file_close.hyps(3)]) (auto split: if_splits)
  then show ?case by simp
next
  case (poll s items timeout res w)
  show ?case
    by (rule sound_keeps [OF poll.prems subset_mset.order_refl owns_poll [OF poll_in_held] poll.hyps])
qed

lemma reachable_sound: "reachable E s \<Longrightarrow> sound s"
proof (induction rule: reachable.induct)
  case (start u)
  show ?case
    by (simp add: sound_def good_def counted_def typed_def files_ok_def obj_refs_def held_def
        file_refs_def)
qed (rule step_sound)

subsection \<open>Giving up every reference\<close>

text \<open>References lead down from streams to connections to listeners, so nothing keeps itself alive.\<close>

lemma heap_sum_mem:
  assumes "x \<in># heap_sum f h"
  shows "\<exists>p c. fmlookup h p = Some c \<and> x \<in># f c"
proof -
  have "finite (fmdom' h)" by simp
  then have "x \<in> (\<Union>p\<in>fmdom' h. set_mset (f (the (fmlookup h p))))"
    using assms unfolding heap_sum_def by (simp only: set_mset_sum)
  then obtain p c where "fmlookup h p = Some c" and "x \<in># f c"
    by (auto simp: fmlookup_dom'_iff)
  then show ?thesis by blast
qed

fun level :: "php_object \<Rightarrow> nat" where
  "level (OStream _) = 2"
| "level (OConnection _) = 1"
| "level _ = 0"

lemma referenced_level:
  assumes "ok_object h ob" and "p \<in> set (refs_of ob)" and "fmlookup h p = Some (n, ob')"
  shows "level ob' < level ob"
  using assms by (cases ob; cases ob')
    (auto simp: quic_stream_get_gc_def quic_connection_get_gc_def split: option.splits)

text \<open>
  The abstract view of the store: objects without their counts, and which of them can be reached
  from the references outside.  \<open>collect\<close> is what a tracing collector would keep.
\<close>

definition graph :: "heap \<Rightarrow> nat \<Rightarrow> php_object option" where
  "graph h p = map_option snd (fmlookup h p)"

inductive live :: "(nat \<Rightarrow> php_object option) \<Rightarrow> nat multiset \<Rightarrow> nat \<Rightarrow> bool" for g R where
  root: "p \<in># R \<Longrightarrow> live g R p"
| refd: "live g R p \<Longrightarrow> g p = Some ob \<Longrightarrow> q \<in> set (refs_of ob) \<Longrightarrow> live g R q"

definition collect :: "nat multiset \<Rightarrow> (nat \<Rightarrow> php_object option) \<Rightarrow> nat \<Rightarrow> php_object option" where
  "collect R g = (\<lambda>p. if live g R p then g p else None)"

lemma graph_Some: "graph h p = Some ob \<longleftrightarrow> (\<exists>n. fmlookup h p = Some (n, ob))"
  by (auto simp: graph_def)

lemma stored_live:
  assumes "good h R w" and "graph h p = Some ob"
  shows "live (graph h) R p"
  using assms(2)
proof (induction "2 - level ob" arbitrary: p ob rule: less_induct)
  case less
  then obtain n where l: "fmlookup h p = Some (n, ob)" by (auto simp: graph_Some)
  have "0 < count R p + count (obj_refs h) p"
    using countedD [OF goodD(1) [OF assms(1)], of p] refcount_Some [OF l] l by simp
  then consider "p \<in># R" | "p \<in># obj_refs h" by (auto simp flip: count_greater_zero_iff)
  then show ?case
  proof cases
    case 2
    then obtain q m ob' where q: "fmlookup h q = Some (m, ob')" "p \<in> set (refs_of ob')"
      using heap_sum_mem unfolding obj_refs_def by fastforce
    have "level ob < level ob'"
      by (rule referenced_level [OF typedD [OF goodD(2) [OF assms(1)] q(1)] q(2) l])
    moreover have "level ob' \<le> 2" by (cases ob') simp_all
    ultimately have "live (graph h) R q"
      using less.hyps [of ob' q] q(1) by (simp add: graph_Some)
    moreover have "graph h q = Some ob'" using q(1) by (simp add: graph_Some)
    ultimately show ?thesis using q(2) by (rule live.refd)
  qed (rule live.root)
qed

lemma no_roots: "\<not> live g {#} p"
proof
  assume "live g {#} p"
  then show False by (induction rule: live.induct) simp_all
qed

lemma unreferenced_empty:
  assumes "good h {#} w"
  shows "h = fmempty"
proof (rule fmap_ext)
  fix p show "fmlookup h p = fmlookup fmempty p"
    using stored_live [OF assms, of p] no_roots by (cases "fmlookup h p") (auto simp: graph_Some)
qed

text \<open>PHP drops the references in any order: variables go out of scope, streams are closed.\<close>

definition release_all :: "'w env \<Rightarrow> nat list \<Rightarrow> heap \<Rightarrow> 'w world \<Rightarrow> heap \<times> 'w world" where
  "release_all E ps h w = fold (\<lambda>p (h, w). release E p h w) ps (h, w)"

lemma good_release_all:
  "good h (mset ps) w \<Longrightarrow> release_all E ps h w = (h', w') \<Longrightarrow> good h' {#} w'"
proof (induction ps arbitrary: h w)
  case (Cons p ps)
  obtain h1 w1 where r: "release E p h w = (h1, w1)" by fastforce
  have "good h1 (mset ps) w1"
    by (rule good_release(1) [OF _ r]) (use Cons.prems(1) in simp)
  then show ?case using Cons.IH Cons.prems(2) r by (simp add: release_all_def)
qed (simp add: release_all_def)

subsection \<open>What holds of every run\<close>

text \<open>
  C3. Memory safety of every run: whatever sequence of methods, handlers and stream operations a
  script performs and whatever OpenSSL answers, each object's reference count is the number of
  variables, \<open>php_stream\<close>s and objects that refer to it, and the calls made so far contain no use
  after free and no double free, what is still owned being exactly what the live objects hold.
\<close>

theorem every_run_balanced:
  assumes "reachable E s"
  shows "(\<forall>p. refcount (objs s) p =
      count (vars s) p + count (file_refs (files s)) p + count (obj_refs (objs s)) p) \<and>
    ledger (trace (outside s)) = Some (held (objs s))"
  using reachable_sound [OF assms] countedD(1) [of "objs s" "refs_in s"]
  by (auto simp: sound_def good_def)

text \<open>
  For the witnesses, a run in the world where everything succeeds: a connection is made, a stream
  opened on it and exported, and both variables go away.
\<close>

lemma example_run:
  obtains s where "reachable obliging s" and "vars s = {#}" and "file_refs (files s) = {#1#}"
    and "fmlookup (files s) 0 = Some \<lparr>ps_abstract = Some 1, ps_eof = False\<rparr>"
    and "fmlookup (objs s) 0 = Some (1, OConnection (php_quic_connection_init_object 3 1 True None))"
    and "fmlookup (objs s) 1 = Some (1, OStream (php_quic_stream_init_object 3 0))"
proof -
  let ?c = "php_quic_connection_init_object 3 1 True None" and ?st = "php_quic_stream_init_object 3 0"
  let ?s0 = "\<lparr>objs = fmempty, vars = {#}, files = fmempty, outside = \<lparr>engine = (), trace = []\<rparr>\<rparr>"
  obtain w1 where r1: "run_state (Quic_Connection_construct 1 obliging quic_connection_create ''h'' 443
      example_options) \<lparr>engine = (), trace = []\<rparr> = (Inr (Inr (), ?c), w1)"
    by (rule obliging_construct)
  obtain w2 where r2: "run_state (Quic_Connection_openStream obliging 0 ?c True) w1 = (Inr ?st, w2)"
    by (simp add: Quic_Connection_openStream_def php_quic_connection_init_object_def)
  obtain w3 where r3: "run_state (Quic_Stream_asStream obliging 1 ?st) w2 =
      (Inr \<lparr>ps_abstract = Some 1, ps_eof = False\<rparr>, w3)"
    by (simp add: Quic_Stream_asStream_def php_quic_stream_init_object_def)
  define s1 where "s1 = ?s0\<lparr>objs := fmupd 0 (1, OConnection quic_connection_create) (objs ?s0),
    vars := add_mset 0 (vars ?s0)\<rparr>"
  have 1: "reachable obliging s1"
    unfolding s1_def by (rule reachable.more [OF reachable.start step.create]) (simp_all add: fresh_object_def)
  define s2 where "s2 = s1\<lparr>objs := put 0 (OConnection ?c) (objs s1), outside := w1\<rparr>"
  have 2: "reachable obliging s2"
    unfolding s2_def by (rule reachable.more [OF 1 step.connect]) (use r1 in \<open>auto simp: names_def s1_def\<close>)
  define s3 where "s3 = s2\<lparr>objs := fmupd 1 (1, OStream ?st) (addref 0 (objs s2)),
    vars := add_mset 1 (vars s2), outside := w2\<rparr>"
  have 3: "reachable obliging s3"
    unfolding s3_def by (rule reachable.more [OF 2 step.open_stream])
      (use r2 in \<open>auto simp: names_def s2_def s1_def put_def\<close>)
  define s4 where "s4 = s3\<lparr>objs := addref 1 (objs s3),
    files := fmupd 0 \<lparr>ps_abstract = Some 1, ps_eof = False\<rparr> (files s3), outside := w3\<rparr>"
  have 4: "reachable obliging s4"
    unfolding s4_def by (rule reachable.more [OF 3 step.as_stream])
      (use r3 in \<open>auto simp: names_def s3_def s2_def s1_def\<close>)
  note defs = s4_def s3_def s2_def s1_def put_def addref_def
  obtain h5 where r5: "release obliging 1 (objs s4) (outside s4) = (h5, w3)"
    and h5: "fmlookup h5 0 = Some (2, OConnection ?c)" "fmlookup h5 1 = Some (1, OStream ?st)"
    by (simp add: release.simps defs)
  define s5 where "s5 = s4\<lparr>objs := h5, vars := vars s4 - {#1#}, outside := w3\<rparr>"
  have 5: "reachable obliging s5"
    unfolding s5_def by (rule reachable.more [OF 4 step.unset]) (use r5 in \<open>auto simp: defs\<close>)
  obtain h6 where r6: "release obliging 0 (objs s5) (outside s5) = (h6, w3)"
    and h6: "fmlookup h6 0 = Some (1, OConnection ?c)" "fmlookup h6 1 = Some (1, OStream ?st)"
    using h5 by (simp add: release.simps s5_def)
  define s6 where "s6 = s5\<lparr>objs := h6, vars := vars s5 - {#0#}, outside := w3\<rparr>"
  have 6: "reachable obliging s6"
    unfolding s6_def by (rule reachable.more [OF 5 step.unset]) (use r6 in \<open>auto simp: defs s5_def\<close>)
  have "vars s6 = {#}" and "fmlookup (files s6) 0 = Some \<lparr>ps_abstract = Some 1, ps_eof = False\<rparr>"
    and "file_refs (files s6) = {#1#}"
    by (simp_all add: s6_def s5_def defs file_refs_def heap_sum_new)
  then show thesis using that [OF 6] h6 by (simp add: s6_def)
qed

lemma every_run_balanced_witness:
  "\<exists>s :: unit sys. vars s = {#} \<and> refcount (objs s) 0 = 1 \<and>
    ledger (trace (outside s)) = Some (held (objs s)) \<and> RSsl 3 \<in># held (objs s)"
proof (rule example_run)
  fix s :: "unit sys"
  assume "reachable obliging s" and "vars s = {#}"
    and "fmlookup (objs s) 0 = Some (1, OConnection (php_quic_connection_init_object 3 1 True None))"
  then show ?thesis
    using every_run_balanced [of obliging s] res_in_held [of "objs s" 0 1]
    by (intro exI [of _ s]) (auto simp: refcount_def res_connection_def php_quic_connection_init_object_def
        dest: mset_subset_eqD)
qed

text \<open>
  C4. Nothing leaks: from any state a script can reach, releasing the references it still has, in
  whatever order, frees every object and gives every resource back to OpenSSL and the system.
\<close>

theorem nothing_leaks:
  assumes "reachable E s" and "mset ps = vars s + file_refs (files s)"
  shows "\<exists>w. release_all E ps (objs s) (outside s) = (fmempty, w) \<and> ledger (trace w) = Some {#}"
proof -
  obtain h w where r: "release_all E ps (objs s) (outside s) = (h, w)" by fastforce
  have g: "good h {#} w"
    by (rule good_release_all [OF _ r]) (use soundD(1) [OF reachable_sound [OF assms(1)]] assms(2) in simp)
  with unreferenced_empty [OF g] goodD(3) [OF g] r show ?thesis by (simp add: held_def)
qed

lemma nothing_leaks_witness:
  "\<exists>(s :: unit sys) w. objs s \<noteq> fmempty \<and>
    release_all obliging [1] (objs s) (outside s) = (fmempty, w) \<and> ledger (trace w) = Some {#}"
proof (rule example_run)
  fix s :: "unit sys"
  assume "reachable obliging s" "vars s = {#}" "file_refs (files s) = {#1#}"
    and l: "fmlookup (objs s) 0 = Some (1, OConnection (php_quic_connection_init_object 3 1 True None))"
  then show ?thesis using nothing_leaks [of obliging s "[1]"] by (metis add_0 fmempty_lookup mset_single_iff_right
      option.distinct(1))
qed

text \<open>
  C6. What is below a live object is live: in every state a script can reach, an open stream refers
  to a live connection object that is open too, and OpenSSL still has both; and every connection
  accepted from a listener, whether or not a stream is open on it, refers to a live listener object.
\<close>

theorem open_stream_has_connection:
  assumes "reachable E s" and "fmlookup (objs s) p = Some (n, ob)"
  shows "case ob of
      OStream st \<Rightarrow> (\<forall>sid. str_ssl st = Some sid \<longrightarrow>
        (\<exists>c m k cid. str_connection st = Some c \<and> fmlookup (objs s) c = Some (m, OConnection k) \<and>
          conn_ssl k = Some cid \<and> {#RSsl sid, RSsl cid#} \<subseteq># the (ledger (trace (outside s)))))
    | OConnection k \<Rightarrow> (\<forall>l. conn_listener k = Some l \<longrightarrow>
        (\<exists>m x. fmlookup (objs s) l = Some (m, OListener x)))
    | _ \<Rightarrow> True"
proof -
  note g = soundD(1) [OF reachable_sound [OF assms(1)]]
  note ok = typedD [OF goodD(2) [OF g] assms(2)]
  have "\<exists>c m k cid. str_connection st = Some c \<and> fmlookup (objs s) c = Some (m, OConnection k) \<and>
      conn_ssl k = Some cid \<and> {#RSsl sid, RSsl cid#} \<subseteq># the (ledger (trace (outside s)))"
    if st: "ob = OStream st" "str_ssl st = Some sid" for st sid
  proof -
    obtain c m k cid where c: "str_connection st = Some c" "fmlookup (objs s) c = Some (m, OConnection k)"
        "conn_ssl k = Some cid"
      using ok st by (auto split: option.splits php_object.splits)
    have "fmlookup (fmdrop p (objs s)) c = Some (m, OConnection k)" using c(2) assms(2) st(1) by auto
    then have "held (objs s) = held (fmdrop c (fmdrop p (objs s))) + res_connection k + {#RSsl sid#}"
      using held_split [OF assms(2)] held_split [of "fmdrop p (objs s)" c] st by (simp add: res_stream_def)
    then have "{#RSsl sid, RSsl cid#} \<subseteq># the (ledger (trace (outside s)))"
      using goodD(3) [OF g] c(3) by (simp add: res_connection_def)
    with c show ?thesis by blast
  qed
  moreover have "\<exists>m x. fmlookup (objs s) l = Some (m, OListener x)"
    if "ob = OConnection k" "conn_listener k = Some l" for k l
    using ok that by (auto split: option.splits php_object.splits)
  ultimately show ?thesis by (auto split: php_object.split)
qed

lemma open_stream_has_connection_witness:
  "\<exists>s :: unit sys. reachable obliging s \<and> vars s = {#} \<and>
    fmlookup (objs s) 1 = Some (1, OStream (php_quic_stream_init_object 3 0)) \<and>
    (\<exists>m k. fmlookup (objs s) 0 = Some (m, OConnection k) \<and> conn_ssl k \<noteq> None) \<and>
    RSsl 3 \<in># the (ledger (trace (outside s)))"
proof (rule example_run)
  fix s :: "unit sys"
  assume r: "reachable obliging s" "vars s = {#}"
    and l: "fmlookup (objs s) 1 = Some (1, OStream (php_quic_stream_init_object 3 0))"
  have "str_ssl (php_quic_stream_init_object 3 0) = Some 3"
    and "str_connection (php_quic_stream_init_object 3 0) = Some 0"
    by (simp_all add: php_quic_stream_init_object_def)
  then show ?thesis
    using open_stream_has_connection [OF r(1) l] r l
    by (intro exI [of _ s]) (auto dest: mset_subset_eqD)
qed

text \<open>
  C7. An exported \<open>php_stream\<close> keeps working: in every state a script can reach, each one that is
  not closed refers to a live stream object whose OpenSSL stream is open and still owned, whatever
  has become of the variables.
\<close>

theorem exported_stream_open:
  assumes "reachable E s" and "fmlookup (files s) f = Some ps" and "ps_abstract ps = Some p"
  shows "\<exists>n st sid. fmlookup (objs s) p = Some (n, OStream st) \<and> str_ssl st = Some sid \<and>
    abstract_ssl (stream_at (objs s)) ps = Some sid \<and> RSsl sid \<in># the (ledger (trace (outside s)))"
proof -
  note g = reachable_sound [OF assms(1)]
  obtain n st sid where st: "fmlookup (objs s) p = Some (n, OStream st)" "str_ssl st = Some sid"
    using soundD(2) [OF g] assms(2,3) unfolding files_ok_def by fastforce
  moreover have "RSsl sid \<in># held (objs s)"
    using mset_subset_eqD [OF res_in_held [OF st(1)]] st(2) by (simp add: res_stream_def)
  ultimately show ?thesis
    using goodD(3) [OF soundD(1) [OF g]] assms(3) by (simp add: abstract_ssl_def stream_at_def)
qed

lemma exported_stream_open_witness:
  "\<exists>s :: unit sys. vars s = {#} \<and> files s \<noteq> fmempty \<and> RSsl 3 \<in># the (ledger (trace (outside s)))"
proof (rule example_run)
  fix s :: "unit sys"
  assume "reachable obliging s" "vars s = {#}"
    and "fmlookup (files s) 0 = Some \<lparr>ps_abstract = Some 1, ps_eof = False\<rparr>"
    and "fmlookup (objs s) 1 = Some (1, OStream (php_quic_stream_init_object 3 0))"
  then show ?thesis
    using exported_stream_open [of obliging s 0 "\<lparr>ps_abstract = Some 1, ps_eof = False\<rparr>" 1]
    by (intro exI [of _ s]) (auto simp: php_quic_stream_init_object_def)
qed

subsection \<open>Counting references is collecting garbage\<close>

lemma live_stored:
  assumes "good h R w" and "live (graph h) R p"
  shows "\<exists>ob. graph h p = Some ob"
  using assms(2)
proof (induction rule: live.induct)
  case (root p)
  with counted_live [OF goodD(1) [OF assms(1)], of p] show ?case by (auto simp: graph_Some)
next
  case (refd p ob q)
  then have "q \<in># obj_refs h" using embedded_counted by (auto simp: graph_Some)
  with counted_live [OF goodD(1) [OF assms(1)], of q] show ?case by (auto simp: graph_Some)
qed

lemma live_subgraph:
  assumes "\<And>p ob. g p = Some ob \<Longrightarrow> g' p = Some ob" and "live g R p"
  shows "live g' R p"
  using assms(2) by (induction rule: live.induct) (auto intro: live.intros assms(1))

lemma good_collected:
  assumes "good h R w"
  shows "collect R (graph h) = graph h"
proof
  fix p show "collect R (graph h) p = graph h p"
    using stored_live [OF assms] by (cases "graph h p") (auto simp: collect_def)
qed

lemma release_live:
  assumes g: "good h R w" and sub: "\<And>p ob. graph h p = Some ob \<Longrightarrow> g' p = Some ob" and "live g' R p"
  shows "live (graph h) R p"
  using assms(3)
proof (induction rule: live.induct)
  case (refd p ob q)
  obtain ob' where "graph h p = Some ob'" using live_stored [OF g refd.IH] by blast
  with sub refd show ?case by (metis live.refd option.inject)
qed (rule live.root)

text \<open>
  C5. Reference counting refines garbage collection: in every state a script can reach the store
  holds exactly the objects that can be reached from variables and \<open>php_stream\<close>s, and dropping a
  reference leaves, with their structs unchanged, exactly the objects a collector tracing from the
  remaining references would keep.
\<close>

theorem release_collects:
  assumes "reachable E s" and "p \<in># vars s + file_refs (files s)"
    and "release E p (objs s) (outside s) = (h, w)"
  shows "graph h = collect (vars s + file_refs (files s) - {#p#}) (graph (objs s)) \<and>
    graph (objs s) = collect (vars s + file_refs (files s)) (graph (objs s))"
proof -
  let ?R = "refs_in s - {#p#}"
  note g = soundD(1) [OF reachable_sound [OF assms(1)]]
  have "good (objs s) (add_mset p ?R) (outside s)" using g assms(2) by simp
  note rel = good_release [OF this assms(3)]
  have sub: "graph (objs s) q = Some ob" if "graph h q = Some ob" for q ob
    using that rel(2) by (auto simp: graph_Some)
  have "graph h q = collect ?R (graph (objs s)) q" for q
  proof (cases "graph h q")
    case None
    then have "\<not> live (graph (objs s)) ?R q"
      using release_live [OF rel(1) sub] live_stored [OF rel(1)] by fastforce
    with None show ?thesis by (simp add: collect_def)
  next
    case (Some ob)
    then show ?thesis
      using live_subgraph [OF sub stored_live [OF rel(1) Some]] sub by (simp add: collect_def)
  qed
  with good_collected [OF g] show ?thesis by auto
qed

lemma release_collects_witness:
  "\<exists>s :: unit sys. graph (objs s) 0 \<noteq> None \<and> graph (objs s) 1 \<noteq> None \<and>
    graph (fst (release obliging 1 (objs s) (outside s))) = collect {#} (graph (objs s))"
proof (rule example_run)
  fix s :: "unit sys"
  assume "reachable obliging s" "vars s = {#}" "file_refs (files s) = {#1#}"
    and "fmlookup (objs s) 0 = Some (1, OConnection (php_quic_connection_init_object 3 1 True None))"
    and "fmlookup (objs s) 1 = Some (1, OStream (php_quic_stream_init_object 3 0))"
  then show ?thesis
    using release_collects [of obliging s 1, OF _ _ surjective_pairing]
    by (intro exI [of _ s]) (simp add: graph_def)
qed

subsection \<open>An open object stays what it is\<close>

text \<open>How the struct of an object may change while the object lives.\<close>

fun advances :: "php_object \<Rightarrow> php_object \<Rightarrow> bool" where
  "advances (OConnection c) (OConnection c') \<longleftrightarrow>
     conn_listener c' = conn_listener c \<and>
     (conn_ssl c \<noteq> None \<longrightarrow> c' = c \<or> c' = c\<lparr>conn_closed := True\<rparr>)"
| "advances (OStream s) (OStream s') \<longleftrightarrow> (str_ssl s \<noteq> None \<longrightarrow> s' = s)"
| "advances (OListener l) (OListener l') \<longleftrightarrow>
     (lis_ssl l \<noteq> None \<longrightarrow> l' = l \<or> l' = quic_listener_create)"
| "advances _ _ \<longleftrightarrow> False"

lemma advances_refl: "ok_object h ob \<Longrightarrow> advances ob ob"
  by (cases ob) auto

lemma put_advances:
  assumes "fmlookup (put p new h) q = Some (m, ob')" and "fmlookup h q = Some (n, ob)"
    and "fmlookup h p = Some (k, old)" and "advances old new" and "advances ob ob"
  shows "advances ob ob'"
  using assms by (auto simp: put_def split: if_splits)

lemma addref_struct: "fmlookup (addref k h) q = Some (m, ob') \<Longrightarrow> \<exists>n. fmlookup h q = Some (n, ob')"
  by (auto simp: addref_def split: option.splits if_splits)

lemma addref_put_struct:
  assumes "fmlookup (put p new (addref k h)) q = Some (m, ob')"
  shows "\<exists>m. fmlookup (put p new h) q = Some (m, ob')"
  using assms by (auto simp: put_def addref_def split: option.splits if_splits)

lemma construct_connection_advances:
  assumes "run_state (Quic_Connection_construct fuel E c host port options) w = (Inr (out, c'), w')"
  shows "advances (OConnection c) (OConnection c')"
  using yieldsD [OF yields_connection_construct assms]
  by (cases out) (auto simp: newly_connected_def)

lemma close_connection_advances:
  assumes "run_state (Quic_Connection_close E c code reason) w = (c', w')"
  shows "advances (OConnection c) (OConnection c')"
proof -
  have "yields (\<lambda>c'. c' = c \<or> c' = c\<lparr>conn_closed := True\<rparr>) (Quic_Connection_close E c code reason)"
    unfolding Quic_Connection_close_def by (intro yields_rules) auto
  from yieldsD [OF this assms] show ?thesis by auto
qed

lemma listen_advances:
  assumes "run_state (Quic_Listener_construct E l host port ht) w = ((out, l'), w')"
  shows "advances (OListener l) (OListener l')"
  using yieldsD [OF yields_listener_construct assms] by (cases out) (auto simp: newly_listening_def)

lemma close_listener_advances:
  "run_state (Quic_Listener_close E l) w = (l', w') \<Longrightarrow> advances (OListener l) (OListener l')"
  by (drule close_listener_kind) simp

lemma construct_stream_advances:
  assumes "run_state (Quic_Stream_construct E st k c bidi) w = ((out, st'), w')"
  shows "advances (OStream st) (OStream st')"
  using yieldsD [OF stream_construct_result assms] by auto

text \<open>
  C8. An object that is open stays the one it is: no step a script can make changes the OpenSSL
  handle, the socket or the owner of an open connection (only its closed flag may rise), or
  anything of an open stream; an open listener stays as it is until it is closed.
\<close>

theorem step_advances:
  assumes "reachable E s" and st: "step E s s'"
    and "fmlookup (objs s) q = Some (n, ob)" and "fmlookup (objs s') q = Some (m, ob')"
  shows "advances ob ob'"
proof -
  note g = reachable_sound [OF assms(1)]
  note refl = advances_refl [OF typedD [OF goodD(2) [OF soundD(1) [OF g]] assms(3)]]
  have same: ?thesis if "\<exists>n. fmlookup (objs s) q = Some (n, ob')"
    using that refl assms(3) by auto
  have new: ?thesis if "objs s' = fmupd p c (addref k (objs s))" "fmlookup (objs s) p = None" for p c k
    using that assms(3,4) by (intro same) (auto dest: addref_struct split: if_splits)
  have upd: ?thesis
    if "objs s' = put p new (objs s)" "names s p old" "advances old new" for p old new
    using that assms(3,4) put_advances [OF _ assms(3) _ _ refl] by (auto simp: names_def)
  have gone: ?thesis if "good (objs s) (add_mset p R) (outside s)"
      "release E p (objs s) (outside s) = (objs s', outside s')" for p R
    using good_release(2) [OF that assms(4)] by (rule same)
  from st show ?thesis
  proof cases
    case create
    then show ?thesis using assms(3,4) by (intro same) (auto split: if_splits)
  next
    case copy
    then show ?thesis using assms(4) by (intro same) (auto dest: addref_struct)
  next
    case (unset p h w)
    then have "good (objs s) (add_mset p (refs_in s - {#p#})) (outside s)" using soundD(1) [OF g] by simp
    then show ?thesis by (rule gone) (use unset in simp)
  next
    case connect
    then show ?thesis by (intro upd [OF _ _ construct_connection_advances]) auto
  next
    case open_stream
    then show ?thesis by (intro new) auto
  next
    case accept_stream
    then show ?thesis by (intro new) auto
  next
    case close_connection
    then show ?thesis by (intro upd [OF _ _ close_connection_advances]) auto
  next
    case listen
    then show ?thesis by (intro upd [OF _ _ listen_advances]) auto
  next
    case accept
    then show ?thesis by (intro new) auto
  next
    case close_listener
    then show ?thesis by (intro upd [OF _ _ close_listener_advances]) auto
  next
    case (construct_stream p st k c bidi u st' w)
    then have "fmlookup (put p (OStream st') (addref k (objs s))) q = Some (m, ob')"
      using assms(4) by simp
    then obtain m where "fmlookup (put p (OStream st') (objs s)) q = Some (m, ob')"
      using addref_put_struct by blast
    moreover obtain x where "fmlookup (objs s) p = Some (x, OStream st)"
      using construct_stream by (auto simp: names_def)
    ultimately show ?thesis
      using construct_stream_advances construct_stream refl by (blast intro: put_advances [OF _ assms(3)])
  next
    case construct_stream_throws
    then show ?thesis by (intro upd [OF _ _ construct_stream_advances]) auto
  next
    case get_connection
    then show ?thesis using assms(4) by (intro same) (auto dest: addref_struct)
  next
    case as_stream
    then show ?thesis using assms(4) by (intro same) (auto dest: addref_struct)
  next
    case (file_close f ps r p ps' h w)
    then have "ps_abstract ps = Some p"
      by (auto simp: quic_stream_op_close_def split: option.splits)
    with file_close(2) have "p \<in># refs_in s" using file_refs_mem by auto
    then have "good (objs s) (add_mset p (refs_in s - {#p#})) (outside s)"
      using soundD(1) [OF g] by simp
    then show ?thesis by (rule gone) (use file_close in simp)
  qed (use assms(4) in \<open>auto intro!: same\<close>)
qed

lemma step_advances_witness:
  "\<exists>s s'. reachable obliging s \<and> step obliging s s' \<and> (\<exists>m ob'. fmlookup (objs s') 0 = Some (m, ob') \<and>
    advances (OConnection (php_quic_connection_init_object 3 1 True None)) ob')"
proof (rule example_run)
  fix s :: "unit sys"
  assume s: "reachable obliging s" "fmlookup (files s) 0 = Some \<lparr>ps_abstract = Some 1, ps_eof = False\<rparr>"
    and l: "fmlookup (objs s) 0 = Some (1, OConnection (php_quic_connection_init_object 3 1 True None))"
  obtain r w where r: "run_state (quic_stream_op_write obliging (stream_at (objs s))
      \<lparr>ps_abstract = Some 1, ps_eof = False\<rparr> ''x'') (outside s) = (r, w)"
    by fastforce
  have st: "step obliging s (s\<lparr>outside := w\<rparr>)" by (rule step.file_write [OF s(2) r])
  from step_advances [OF s(1) st l] l s(1) st show ?thesis by fastforce
qed

end
