(* ===== verification/Quic_Params.thy ===== *)
theory Quic_Params
  imports Quic_Lifecycle
begin

text \<open>
  The \<open>ZEND_PARSE_PARAMETERS\<close> block each function opens with, what it makes of the arguments of a
  call, and its agreement with the argument tables of \<open>quic_arginfo.h\<close>.
\<close>

subsection \<open>Parsing parameters\<close>

text \<open>
  The \<open>Z_PARAM_*\<close> macros the sources use.  A value of the right type is taken as it is; \<open>weak\<close> gives
  Zend's conversions of any other one, which depend on \<open>strict_types\<close>.
\<close>

datatype param = P_string | P_long | P_bool | P_array | P_array_or_null | P_double_or_null | P_connection

record weak =
  weak_string :: "zval \<Rightarrow> string option"
  weak_long :: "zval \<Rightarrow> 64 word option"
  weak_bool :: "zval \<Rightarrow> bool option"
  weak_double :: "zval \<Rightarrow> double option"

definition parse_param :: "weak \<Rightarrow> heap \<Rightarrow> param \<Rightarrow> zval \<Rightarrow> zval option" where
  "parse_param W h p v =
     (case p of
        P_string \<Rightarrow> (case v of ZString _ \<Rightarrow> Some v | _ \<Rightarrow> map_option ZString (weak_string W v))
      | P_long \<Rightarrow> (case v of ZLong _ \<Rightarrow> Some v | _ \<Rightarrow> map_option ZLong (weak_long W v))
      | P_bool \<Rightarrow> (case v of ZBool _ \<Rightarrow> Some v | _ \<Rightarrow> map_option ZBool (weak_bool W v))
      | P_array \<Rightarrow> (case v of ZArray _ \<Rightarrow> Some v | _ \<Rightarrow> None)
      | P_array_or_null \<Rightarrow> (case v of ZArray _ \<Rightarrow> Some v | ZNull \<Rightarrow> Some v | _ \<Rightarrow> None)
      | P_double_or_null \<Rightarrow>
          (case v of ZDouble _ \<Rightarrow> Some v | ZNull \<Rightarrow> Some v | _ \<Rightarrow> map_option ZDouble (weak_double W v))
      | P_connection \<Rightarrow>
          (case v of ZObject k \<Rightarrow> (case object_at h k of OConnection _ \<Rightarrow> Some v | _ \<Rightarrow> None) | _ \<Rightarrow> None))"

datatype zpp_error = Wrong_parameters_count | Wrong_parameter nat

fun parse_params :: "weak \<Rightarrow> heap \<Rightarrow> nat \<Rightarrow> param list \<Rightarrow> zval list \<Rightarrow> zpp_error + zval list" where
  "parse_params W h i (p # ps) (v # vs) =
     (case parse_param W h p v of
        None \<Rightarrow> Inl (Wrong_parameter i)
      | Some x \<Rightarrow> (case parse_params W h (i + 1) ps vs of Inl e \<Rightarrow> Inl e | Inr xs \<Rightarrow> Inr (x # xs)))"
| "parse_params W h i _ _ = Inr []"

text \<open>
  A block: how many arguments it takes, their macros, and what the C variables of the optional ones
  are initialised to, which they keep when the argument is not given.
\<close>

record zpp =
  zpp_min :: nat
  zpp_max :: nat
  zpp_params :: "param list"
  zpp_init :: "zval list"

definition zend_parse_parameters :: "weak \<Rightarrow> heap \<Rightarrow> zpp \<Rightarrow> zval list \<Rightarrow> zpp_error + zval list" where
  "zend_parse_parameters W h z args =
     (if length args < zpp_min z \<or> zpp_max z < length args then Inl Wrong_parameters_count
      else map_sum id (\<lambda>xs. xs @ drop (length args - zpp_min z) (zpp_init z))
        (parse_params W h 1 (zpp_params z) args))"

text \<open>The blocks, by function.\<close>

definition ZEND_PARSE_PARAMETERS_NONE :: zpp where
  "ZEND_PARSE_PARAMETERS_NONE =
     \<lparr>zpp_min = 0, zpp_max = 0, zpp_params = [], zpp_init = []\<rparr>"

definition zpp_connection_construct :: zpp where
  "zpp_connection_construct =
     \<lparr>zpp_min = 2, zpp_max = 3, zpp_params = [P_string, P_long, P_array_or_null], zpp_init = [ZNull]\<rparr>"

definition zpp_connection_openStream :: zpp where
  "zpp_connection_openStream =
     \<lparr>zpp_min = 0, zpp_max = 1, zpp_params = [P_bool], zpp_init = [ZBool True]\<rparr>"

definition zpp_connection_close :: zpp where
  "zpp_connection_close =
     \<lparr>zpp_min = 0, zpp_max = 2, zpp_params = [P_long, P_string], zpp_init = [ZLong 0, ZString []]\<rparr>"

definition zpp_connection_setBlocking :: zpp where
  "zpp_connection_setBlocking =
     \<lparr>zpp_min = 1, zpp_max = 1, zpp_params = [P_bool], zpp_init = []\<rparr>"

definition zpp_listener_construct :: zpp where
  "zpp_listener_construct =
     \<lparr>zpp_min = 3, zpp_max = 3, zpp_params = [P_string, P_long, P_array], zpp_init = []\<rparr>"

definition zpp_listener_setBlocking :: zpp where
  "zpp_listener_setBlocking =
     \<lparr>zpp_min = 1, zpp_max = 1, zpp_params = [P_bool], zpp_init = []\<rparr>"

definition zpp_stream_construct :: zpp where
  "zpp_stream_construct =
     \<lparr>zpp_min = 1, zpp_max = 2, zpp_params = [P_connection, P_bool], zpp_init = [ZBool True]\<rparr>"

definition zpp_stream_write :: zpp where
  "zpp_stream_write =
     \<lparr>zpp_min = 1, zpp_max = 2, zpp_params = [P_string, P_bool], zpp_init = [ZBool False]\<rparr>"

definition zpp_stream_read :: zpp where
  "zpp_stream_read =
     \<lparr>zpp_min = 1, zpp_max = 1, zpp_params = [P_long], zpp_init = []\<rparr>"

definition zpp_stream_reset :: zpp where
  "zpp_stream_reset =
     \<lparr>zpp_min = 0, zpp_max = 1, zpp_params = [P_long], zpp_init = [ZLong 0]\<rparr>"

definition zpp_poll :: zpp where
  "zpp_poll =
     \<lparr>zpp_min = 1, zpp_max = 2, zpp_params = [P_array, P_double_or_null], zpp_init = [ZNull]\<rparr>"

fun zpp_of :: "handler \<Rightarrow> zpp" where
  "zpp_of (Of_connection Cm_construct) = zpp_connection_construct"
| "zpp_of (Of_connection Cm_openStream) = zpp_connection_openStream"
| "zpp_of (Of_connection Cm_close) = zpp_connection_close"
| "zpp_of (Of_connection Cm_setBlocking) = zpp_connection_setBlocking"
| "zpp_of (Of_listener Lm_construct) = zpp_listener_construct"
| "zpp_of (Of_listener Lm_setBlocking) = zpp_listener_setBlocking"
| "zpp_of (Of_stream Sm_construct) = zpp_stream_construct"
| "zpp_of (Of_stream Sm_write) = zpp_stream_write"
| "zpp_of (Of_stream Sm_read) = zpp_stream_read"
| "zpp_of (Of_stream Sm_reset) = zpp_stream_reset"
| "zpp_of Fn_poll = zpp_poll"
| "zpp_of _ = ZEND_PARSE_PARAMETERS_NONE"

text \<open>Reading the C variables.\<close>

definition arg_string :: "zval list \<Rightarrow> nat \<Rightarrow> string" where
  "arg_string vs i = (case vs ! i of ZString s \<Rightarrow> s | _ \<Rightarrow> [])"

definition arg_long :: "zval list \<Rightarrow> nat \<Rightarrow> 64 word" where
  "arg_long vs i = (case vs ! i of ZLong n \<Rightarrow> n | _ \<Rightarrow> 0)"

definition arg_bool :: "zval list \<Rightarrow> nat \<Rightarrow> bool" where
  "arg_bool vs i = (case vs ! i of ZBool b \<Rightarrow> b | _ \<Rightarrow> False)"

definition arg_array :: "zval list \<Rightarrow> nat \<Rightarrow> hashtable option" where
  "arg_array vs i = (case vs ! i of ZArray a \<Rightarrow> Some a | _ \<Rightarrow> None)"

definition arg_double :: "zval list \<Rightarrow> nat \<Rightarrow> double option" where
  "arg_double vs i = (case vs ! i of ZDouble d \<Rightarrow> Some d | _ \<Rightarrow> None)"

subsection \<open>What is parsed\<close>

lemma map_sum_Inr [simp]: "map_sum g f x = Inr v \<longleftrightarrow> (\<exists>a. x = Inr a \<and> v = f a)"
  by (cases x) auto

lemmas zpp_defs = ZEND_PARSE_PARAMETERS_NONE_def zpp_connection_construct_def
  zpp_connection_openStream_def zpp_connection_close_def zpp_connection_setBlocking_def
  zpp_listener_construct_def zpp_listener_setBlocking_def zpp_stream_construct_def
  zpp_stream_write_def zpp_stream_read_def zpp_stream_reset_def zpp_poll_def

lemma parse_params_objects:
  "parse_params W h i ps vs = Inr xs \<Longrightarrow> ZObject k \<in> set xs \<Longrightarrow> ZObject k \<in> set vs"
proof (induction W h i ps vs arbitrary: xs rule: parse_params.induct)
  case (1 W h i p ps v vs)
  obtain x ys where x: "parse_param W h p v = Some x" and ys: "parse_params W h (i + 1) ps vs = Inr ys"
    and xs: "xs = x # ys"
    using "1.prems"(1) by (auto split: option.splits sum.splits)
  have "x = ZObject k \<Longrightarrow> v = ZObject k"
    using x by (auto simp: parse_param_def split: param.splits zval.splits php_object.splits)
  with "1.IH" [OF x ys] "1.prems"(2) xs show ?case by auto
qed auto

lemma init_no_object: "ZObject k \<notin> set (zpp_init (zpp_of h))"
  by (cases h rule: zpp_of.cases) (simp_all add: zpp_defs)

lemma parsed_objects:
  assumes "zend_parse_parameters W h (zpp_of m) args = Inr vs" and "ZObject k \<in> set vs"
  shows "ZObject k \<in> set args"
proof -
  obtain xs where xs: "parse_params W h 1 (zpp_params (zpp_of m)) args = Inr xs"
    and vs: "vs = xs @ drop (length args - zpp_min (zpp_of m)) (zpp_init (zpp_of m))"
    using assms(1) by (auto simp: zend_parse_parameters_def split: if_splits)
  have "ZObject k \<in> set xs"
    using assms(2) init_no_object [of k m] unfolding vs by (auto dest: in_set_dropD)
  then show ?thesis by (rule parse_params_objects [OF xs])
qed

lemma parsed_connection:
  assumes "zend_parse_parameters W h zpp_stream_construct args = Inr vs"
  shows "\<exists>k us c. vs = ZObject k # us \<and> object_at h k = OConnection c"
  using assms
  by (cases args) (auto simp: zend_parse_parameters_def zpp_defs parse_param_def
      split: if_splits option.splits sum.splits zval.splits php_object.splits)

lemma parsed_timeout:
  assumes "zend_parse_parameters W h zpp_poll args = Inr vs"
    and "\<And>v. v \<in> set args \<Longrightarrow> parse_param W h P_double_or_null v \<noteq> Some (ZDouble NaN)"
  shows "arg_double vs 1 \<noteq> Some NaN"
proof -
  obtain xs where "parse_params W h 1 [P_array, P_double_or_null] args = Inr xs" "length args \<le> 2"
    and "args \<noteq> []" "vs = xs @ drop (length args - 1) [ZNull]"
    using assms(1) by (auto simp: zend_parse_parameters_def zpp_defs split: if_splits)
  then show ?thesis using assms(2)
    by (cases args; cases "tl args")
      (auto simp: arg_double_def split: option.splits sum.splits zval.splits)
qed

subsection \<open>Parsing agrees with the declarations\<close>

definition all_functions :: "zend_function_entry list" where
  "all_functions = ext_functions @ class_Quic_Connection_methods @ class_Quic_Listener_methods @
     class_Quic_Stream_methods"

lemmas arginfo_defs =
  arginfo_Quic_poll_def arginfo_class_Quic_Connection___construct_def arginfo_class_Quic_Connection_openStream_def
  arginfo_class_Quic_Connection_acceptStream_def arginfo_class_Quic_Connection_close_def
  arginfo_class_Quic_Connection_getCloseInfo_def arginfo_class_Quic_Connection_getFd_def
  arginfo_class_Quic_Connection_setBlocking_def arginfo_class_Quic_Connection_wantsRead_def
  arginfo_class_Quic_Connection_wantsWrite_def arginfo_class_Quic_Connection_getTimeout_def
  arginfo_class_Quic_Connection_handleEvents_def arginfo_class_Quic_Connection_getCryptoInfo_def
  arginfo_class_Quic_Connection_getNegotiatedAlpn_def
  arginfo_class_Quic_Connection_getPeerCertificate_def
  arginfo_class_Quic_Connection_getPeerCertificateChain_def
  arginfo_class_Quic_Connection_getVerifyResult_def
  arginfo_class_Quic_Connection_getVerifyResultString_def
  arginfo_class_Quic_Listener___construct_def arginfo_class_Quic_Listener_accept_def
  arginfo_class_Quic_Listener_close_def arginfo_class_Quic_Listener_getFd_def
  arginfo_class_Quic_Listener_setBlocking_def arginfo_class_Quic_Listener_wantsRead_def
  arginfo_class_Quic_Listener_wantsWrite_def arginfo_class_Quic_Listener_getTimeout_def
  arginfo_class_Quic_Listener_handleEvents_def arginfo_class_Quic_Stream___construct_def
  arginfo_class_Quic_Stream_write_def arginfo_class_Quic_Stream_read_def
  arginfo_class_Quic_Stream_end_def arginfo_class_Quic_Stream_reset_def
  arginfo_class_Quic_Stream_getResetCode_def arginfo_class_Quic_Stream_getId_def
  arginfo_class_Quic_Stream_isBidirectional_def arginfo_class_Quic_Stream_getConnection_def
  arginfo_class_Quic_Stream_asStream_def
  ZEND_ME_def ZEND_ARG_TYPE_INFO_def ZEND_ARG_TYPE_INFO_WITH_DEFAULT_VALUE_def ZEND_ARG_OBJ_INFO_def

lemmas table_defs = all_functions_def ext_functions_def class_Quic_Connection_methods_def
  class_Quic_Listener_methods_def class_Quic_Stream_methods_def

fun class_of :: "php_object \<Rightarrow> string option" where
  "class_of (OConnection _) = Some (quic_name ''Connection'')"
| "class_of (OListener _) = Some (quic_name ''Listener'')"
| "class_of (OStream _) = Some (quic_name ''Stream'')"
| "class_of OForeign = None"

fun has_code :: "type_code \<Rightarrow> zval \<Rightarrow> bool" where
  "has_code IS_BOOL (ZBool _) = True"
| "has_code IS_LONG (ZLong _) = True"
| "has_code IS_DOUBLE (ZDouble _) = True"
| "has_code IS_STRING (ZString _) = True"
| "has_code IS_ARRAY (ZArray _) = True"
| "has_code IS_VOID ZNull = True"
| "has_code _ _ = False"

fun conforms :: "heap \<Rightarrow> zend_type \<Rightarrow> zval \<Rightarrow> bool" where
  "conforms h No_type v = True"
| "conforms h (Simple t n) v = (n \<and> v = ZNull \<or> has_code t v)"
| "conforms h (Class_type c n) v = (n \<and> v = ZNull \<or>
     (case v of ZObject k \<Rightarrow> class_of (object_at h k) = Some c | _ \<Rightarrow> False))"

text \<open>An engine that converts nothing.\<close>

definition unconverted :: weak where
  "unconverted = \<lparr>weak_string = (\<lambda>_. None), weak_long = (\<lambda>_. None), weak_bool = (\<lambda>_. None),
     weak_double = (\<lambda>_. None)\<rparr>"

text \<open>
  The type a parameter macro accepts, the value of a declared default, and what it means that a
  function parses what it declares.
\<close>

fun accepts :: "param \<Rightarrow> zend_type" where
  "accepts P_string = Simple IS_STRING False"
| "accepts P_long = Simple IS_LONG False"
| "accepts P_bool = Simple IS_BOOL False"
| "accepts P_array = Simple IS_ARRAY False"
| "accepts P_array_or_null = Simple IS_ARRAY True"
| "accepts P_double_or_null = Simple IS_DOUBLE True"
| "accepts P_connection = Class_type (quic_name ''Connection'') False"

definition default_value :: "string \<Rightarrow> zval option" where
  "default_value e =
     (if e = ''true'' then Some (ZBool True) else if e = ''false'' then Some (ZBool False)
      else if e = ''null'' then Some ZNull else if e = ''0'' then Some (ZLong 0)
      else if e = ''[]'' then Some (ZArray []) else if e = [CHR 0x22, CHR 0x22] then Some (ZString [])
      else None)"

definition agrees :: "zpp \<Rightarrow> zend_function_info \<Rightarrow> bool" where
  "agrees z info \<longleftrightarrow> zpp_min z = fi_required info \<and> zpp_max z = length (fi_args info) \<and>
     map accepts (zpp_params z) = map ai_type (fi_args info) \<and>
     map (\<lambda>a. Option.bind (ai_default a) default_value) (fi_args info) =
       replicate (zpp_min z) None @ map Some (zpp_init z)"

text \<open>
  The declaration each function follows: its own, but for the constructor of \<open>Quic\Connection\<close>,
  whose options are declared as an array defaulting to an empty one and may be null.
\<close>

definition followed :: "zend_function_entry \<Rightarrow> zend_function_info" where
  "followed fe =
     (if fe_handler fe = Of_connection Cm_construct then
        (fe_info fe)\<lparr>fi_args := (fi_args (fe_info fe))
           [2 := ZEND_ARG_TYPE_INFO_WITH_DEFAULT_VALUE ''options'' IS_ARRAY True ''null'']\<rparr>
      else fe_info fe)"

lemma followed_agrees: "fe \<in> set all_functions \<Longrightarrow> agrees (zpp_of (fe_handler fe)) (followed fe)"
proof -
  have "list_all (\<lambda>fe. agrees (zpp_of (fe_handler fe)) (followed fe)) all_functions"
    by (simp add: table_defs arginfo_defs zpp_defs agrees_def followed_def default_value_def eval_nat_numeral)
  then show "fe \<in> set all_functions \<Longrightarrow> ?thesis" by (simp add: list_all_iff)
qed

text \<open>The position of the first argument that is not of the declared type.\<close>

fun first_bad :: "heap \<Rightarrow> nat \<Rightarrow> zend_arg_info list \<Rightarrow> zval list \<Rightarrow> nat option" where
  "first_bad h i (a # as) (v # vs) =
     (if conforms h (ai_type a) v then first_bad h (i + 1) as vs else Some i)"
| "first_bad h i _ _ = None"

text \<open>
  What a declaration says of a call: the wrong number of arguments, the first argument of the wrong
  type, or the values of all parameters, those left out by their default.
\<close>

definition declared_parse :: "heap \<Rightarrow> zend_function_info \<Rightarrow> zval list \<Rightarrow> zpp_error + zval list" where
  "declared_parse h info args =
     (if length args < fi_required info \<or> length (fi_args info) < length args
      then Inl Wrong_parameters_count
      else case first_bad h 1 (fi_args info) args of
        Some i \<Rightarrow> Inl (Wrong_parameter i)
      | None \<Rightarrow> Inr (args @ List.map_filter (\<lambda>a. Option.bind (ai_default a) default_value)
            (drop (length args) (fi_args info))))"

lemma class_of_connection:
  "class_of ob = Some (quic_name ''Connection'') \<longleftrightarrow> (\<exists>c. ob = OConnection c)"
  by (cases ob) (simp_all add: quic_name_def)

lemma parse_param_conforming: "conforms h (accepts p) v \<Longrightarrow> parse_param W h p v = Some v"
  by (cases p; cases v) (auto simp: parse_param_def class_of_connection)

lemma parse_param_bad: "\<not> conforms h (accepts p) v \<Longrightarrow> parse_param unconverted h p v = None"
  by (cases p; cases v)
    (auto simp: parse_param_def unconverted_def class_of_connection split: php_object.split)

lemma parse_param_type: "parse_param W h p v = Some x \<Longrightarrow> conforms h (accepts p) x"
  by (cases p; cases v) (auto simp: parse_param_def split: php_object.splits)

lemma parse_params_bad:
  "map accepts ps = map ai_type as \<Longrightarrow> first_bad h i as vs = Some j \<Longrightarrow>
     parse_params unconverted h i ps vs = Inl (Wrong_parameter j)"
  by (induction h i as vs arbitrary: ps rule: first_bad.induct)
    (auto simp: parse_param_bad parse_param_conforming split: if_splits)

lemma parse_params_conforming:
  "map accepts ps = map ai_type as \<Longrightarrow> length vs \<le> length as \<Longrightarrow> first_bad h i as vs = None \<Longrightarrow>
     parse_params W h i ps vs = Inr vs"
  by (induction h i as vs arbitrary: ps rule: first_bad.induct)
    (auto simp: parse_param_conforming split: if_splits)

lemma parse_params_type:
  "map accepts ps = map ai_type as \<Longrightarrow> length vs \<le> length as \<Longrightarrow> parse_params W h i ps vs = Inr xs \<Longrightarrow>
     list_all2 (\<lambda>a x. conforms h (ai_type a) x) (take (length vs) as) xs"
proof (induction vs arbitrary: ps as i xs)
  case (Cons v vs)
  then show ?case
    by (cases as; cases ps) (auto dest!: parse_param_type split: option.splits sum.splits)
qed simp

text \<open>The defaults of the parameters that are not given, when they are all optional.\<close>

lemma agrees_left_out:
  assumes "agrees z info" and "zpp_min z \<le> n"
  shows "map (\<lambda>a. Option.bind (ai_default a) default_value) (drop n (fi_args info)) =
    map Some (drop (n - zpp_min z) (zpp_init z))"
  using assms by (simp add: agrees_def drop_map flip: drop_map)

lemma map_filter_left_out: "map f as = map Some vs \<Longrightarrow> List.map_filter f as = vs"
  by (induction as arbitrary: vs) (auto simp: List.map_filter_simps Cons_eq_map_conv)

lemma defaults_conform:
  assumes "fe \<in> set all_functions"
  shows "list_all (\<lambda>a. case Option.bind (ai_default a) default_value of
    None \<Rightarrow> True | Some d \<Rightarrow> conforms h (ai_type a) d) (fi_args (followed fe))"
proof -
  have "list_all (\<lambda>fe. list_all (\<lambda>a. case Option.bind (ai_default a) default_value of
    None \<Rightarrow> True | Some d \<Rightarrow> conforms h (ai_type a) d) (fi_args (followed fe))) all_functions"
    by (simp add: table_defs arginfo_defs followed_def default_value_def)
  then show ?thesis using assms by (simp add: list_all_iff)
qed

lemma defaults_all2:
  "map d as = map Some vs \<Longrightarrow> list_all (\<lambda>a. case d a of None \<Rightarrow> True | Some x \<Rightarrow> P a x) as \<Longrightarrow> list_all2 P as vs"
  by (induction as arbitrary: vs) (auto simp: Cons_eq_map_conv)

lemma zend_parse_parameters_type:
  assumes "agrees z info" and "zend_parse_parameters W h z args = Inr vs"
    and "list_all (\<lambda>a. case Option.bind (ai_default a) default_value of
      None \<Rightarrow> True | Some d \<Rightarrow> conforms h (ai_type a) d) (fi_args info)"
  shows "list_all2 (\<lambda>a v. conforms h (ai_type a) v) (fi_args info) vs"
proof -
  let ?n = "length args" and ?P = "\<lambda>a v. conforms h (ai_type a) v"
  obtain xs where n: "zpp_min z \<le> ?n" "?n \<le> length (fi_args info)"
    and xs: "parse_params W h 1 (zpp_params z) args = Inr xs"
    and vs: "vs = xs @ drop (?n - zpp_min z) (zpp_init z)"
    using assms(1,2) by (auto simp: zend_parse_parameters_def agrees_def split: if_splits)
  have "list_all2 ?P (take ?n (fi_args info)) xs"
    using assms(1) n xs by (intro parse_params_type) (auto simp: agrees_def)
  moreover have "list_all2 ?P (drop ?n (fi_args info)) (drop (?n - zpp_min z) (zpp_init z))"
    using agrees_left_out [OF assms(1) n(1)] assms(3)
    by (intro defaults_all2) (auto simp: list_all_iff dest: in_set_dropD)
  ultimately show ?thesis by (metis vs append_take_drop_id list_all2_appendI)
qed

lemma zend_parse_parameters_declared:
  assumes "agrees z info"
  shows "zend_parse_parameters unconverted h z args = declared_parse h info args"
    and "isl (declared_parse h info args) \<longrightarrow> declared_parse h info args = Inl Wrong_parameters_count \<Longrightarrow>
      zend_parse_parameters W h z args = declared_parse h info args"
proof -
  have ps: "map accepts (zpp_params z) = map ai_type (fi_args info)" using assms by (simp add: agrees_def)
  have drops: "drop (length args - zpp_min z) (zpp_init z) =
      List.map_filter (\<lambda>a. Option.bind (ai_default a) default_value) (drop (length args) (fi_args info))"
    if "zpp_min z \<le> length args"
    using agrees_left_out [OF assms that] by (simp add: map_filter_left_out)
  show "zend_parse_parameters unconverted h z args = declared_parse h info args"
    using assms drops parse_params_bad [OF ps] parse_params_conforming [OF ps]
    by (auto simp: zend_parse_parameters_def declared_parse_def agrees_def split: option.split)
  show "zend_parse_parameters W h z args = declared_parse h info args"
    if "isl (declared_parse h info args) \<longrightarrow> declared_parse h info args = Inl Wrong_parameters_count"
    using that assms drops parse_params_conforming [OF ps]
    by (auto simp: zend_parse_parameters_def declared_parse_def agrees_def split: option.splits)
qed



end
