(* ===== verification/Quic_Methods.thy ===== *)
theory Quic_Methods
  imports Quic_Params
begin

text \<open>
  Calls from PHP: the value each function returns, and an executable \<open>call\<close> over the state of
  \<open>Quic_Lifecycle\<close> that parses the arguments, runs the method and returns.  The theorems show that
  what is returned has the type \<open>quic_arginfo.h\<close> declares, that a call is a step of the lifecycle
  relation and that it comes back.
\<close>

subsection \<open>Returned values\<close>

definition void :: "exn + unit \<Rightarrow> exn + zval" where
  "void x = map_sum id (\<lambda>_. ZNull) x"

definition nullable :: "('a \<Rightarrow> zval) \<Rightarrow> 'a option \<Rightarrow> zval" where
  "nullable f x = (case x of None \<Rightarrow> ZNull | Some a \<Rightarrow> f a)"

text \<open>\<open>RETURN_LONG (obj->fd)\<close>.\<close>

definition long_of_int :: "int \<Rightarrow> zval" where
  "long_of_int n = ZLong (word_of_int n)"

text \<open>The array \<open>getCloseInfo\<close> builds.\<close>

definition close_info_array :: "close_info \<Rightarrow> zval" where
  "close_info_array i = ZArray
     (add_assoc ''transport'' (ZBool (ci_transport i))
       (add_assoc ''local'' (ZBool (ci_local i))
         (add_assoc ''reason'' (ZString (ci_reason i))
           (add_assoc ''frame_type'' (ZLong (ci_frame_type i))
             (add_assoc ''error_code'' (ZLong (ci_error_code i)) [])))))"

text \<open>\<open>add_next_index_str\<close>, for each string.\<close>

definition packed_array :: "string list \<Rightarrow> zval" where
  "packed_array ss = ZArray (map (\<lambda>(i, s). (KIdx (of_nat i), ZString s)) (enumerate 0 ss))"

subsection \<open>The methods\<close>

type_synonym 'w called = "((exn + zval) \<times> 'w sys) option"

text \<open>The allocators: an address, or a resource number, not in use.\<close>

definition fresh :: "(nat, 'a) fmap \<Rightarrow> nat" where
  "fresh m = Suc (Max (insert 0 (fmdom' m)))"

text \<open>A method that changes no object; \<open>f\<close> makes the returned value.\<close>

definition query :: "'w sys \<Rightarrow> ('w, 'a) quic \<Rightarrow> ('a \<Rightarrow> exn + zval) \<Rightarrow> 'w called" where
  "query s m f = (case run_state m (outside s) of (x, w) \<Rightarrow> Some (f x, s\<lparr>outside := w\<rparr>))"

text \<open>A method that leaves a new struct in object \<open>p\<close>.\<close>

definition changes :: "'w sys \<Rightarrow> nat \<Rightarrow> ('b \<Rightarrow> php_object) \<Rightarrow> ('w, (unit outcome) \<times> 'b) quic \<Rightarrow> 'w called" where
  "changes s p wrap m =
     (case run_state m (outside s) of
        ((out, x), w) \<Rightarrow> Some (void out, s\<lparr>objs := put p (wrap x) (objs s), outside := w\<rparr>))"

text \<open>A new object in \<open>return_value\<close>, holding a reference to \<open>p\<close>.\<close>

definition return_object :: "'w sys \<Rightarrow> 'w world \<Rightarrow> nat \<Rightarrow> php_object \<Rightarrow> 'w called" where
  "return_object s w p ob =
     (let q = fresh (objs s)
      in Some (Inr (ZObject q), s\<lparr>objs := fmupd q (1, ob) (addref p (objs s)),
           vars := add_mset q (vars s), outside := w\<rparr>))"

fun call_connection ::
  "'w env \<Rightarrow> nat \<Rightarrow> 'w sys \<Rightarrow> nat \<Rightarrow> php_quic_connection \<Rightarrow> connection_method \<Rightarrow> zval list \<Rightarrow> 'w called" where
  "call_connection E fuel s p c Cm_construct vs =
     (case run_state (Quic_Connection_construct fuel E c (arg_string vs 0) (arg_long vs 1) (arg_array vs 2))
        (outside s) of
        (Inl _, _) \<Rightarrow> None
      | (Inr (out, c'), w) \<Rightarrow> Some (void out, s\<lparr>objs := put p (OConnection c') (objs s), outside := w\<rparr>))"
| "call_connection E fuel s p c Cm_openStream vs =
     (case run_state (Quic_Connection_openStream E p c (arg_bool vs 0)) (outside s) of
        (Inl e, w) \<Rightarrow> Some (Inl e, s\<lparr>outside := w\<rparr>)
      | (Inr st, w) \<Rightarrow> return_object s w p (OStream st))"
| "call_connection E fuel s p c Cm_acceptStream vs =
     (case run_state (Quic_Connection_acceptStream E p c) (outside s) of
        (None, w) \<Rightarrow> Some (Inr ZNull, s\<lparr>outside := w\<rparr>)
      | (Some st, w) \<Rightarrow> return_object s w p (OStream st))"
| "call_connection E fuel s p c Cm_close vs =
     changes s p OConnection (do {
       c' \<leftarrow> Quic_Connection_close E c (arg_long vs 0) (arg_string vs 1); ret (Inr (), c') })"
| "call_connection E fuel s p c Cm_getCloseInfo vs =
     query s (Quic_Connection_getCloseInfo E c) (\<lambda>x. Inr (nullable close_info_array x))"
| "call_connection E fuel s p c Cm_getFd vs = Some (Inr (long_of_int (Quic_Connection_getFd c)), s)"
| "call_connection E fuel s p c Cm_setBlocking vs =
     query s (Quic_Connection_setBlocking E c (arg_bool vs 0)) void"
| "call_connection E fuel s p c Cm_wantsRead vs = query s (Quic_Connection_wantsRead E c) (\<lambda>b. Inr (ZBool b))"
| "call_connection E fuel s p c Cm_wantsWrite vs = query s (Quic_Connection_wantsWrite E c) (\<lambda>b. Inr (ZBool b))"
| "call_connection E fuel s p c Cm_getTimeout vs =
     query s (Quic_Connection_getTimeout E c) (map_sum id (nullable ZDouble))"
| "call_connection E fuel s p c Cm_handleEvents vs =
     query s (Quic_Connection_handleEvents E c) (\<lambda>_. Inr ZNull)"
| "call_connection E fuel s p c Cm_getCryptoInfo vs =
     query s (Quic_Connection_getCryptoInfo E c) (map_sum id ZArray)"
| "call_connection E fuel s p c Cm_getNegotiatedAlpn vs =
     query s (Quic_Connection_getNegotiatedAlpn E c) (\<lambda>x. Inr (nullable ZString x))"
| "call_connection E fuel s p c Cm_getPeerCertificate vs =
     query s (Quic_Connection_getPeerCertificate E c) (map_sum id (nullable ZString))"
| "call_connection E fuel s p c Cm_getPeerCertificateChain vs =
     query s (Quic_Connection_getPeerCertificateChain E c) (\<lambda>x. Inr (packed_array x))"
| "call_connection E fuel s p c Cm_getVerifyResult vs =
     query s (Quic_Connection_getVerifyResult E c) (map_sum id ZLong)"
| "call_connection E fuel s p c Cm_getVerifyResultString vs =
     query s (Quic_Connection_getVerifyResultString E c) (map_sum id ZString)"

fun call_listener ::
  "'w env \<Rightarrow> 'w sys \<Rightarrow> nat \<Rightarrow> php_quic_listener \<Rightarrow> listener_method \<Rightarrow> zval list \<Rightarrow> 'w called" where
  "call_listener E s p l Lm_construct vs =
     changes s p OListener
       (Quic_Listener_construct E l (arg_string vs 0) (arg_long vs 1) (case arg_array vs 2 of None \<Rightarrow> [] | Some a \<Rightarrow> a))"
| "call_listener E s p l Lm_accept vs =
     (case run_state (Quic_Listener_accept E p l) (outside s) of
        (None, w) \<Rightarrow> Some (Inr ZNull, s\<lparr>outside := w\<rparr>)
      | (Some c, w) \<Rightarrow> return_object s w p (OConnection c))"
| "call_listener E s p l Lm_close vs =
     changes s p OListener (do { l' \<leftarrow> Quic_Listener_close E l; ret (Inr (), l') })"
| "call_listener E s p l Lm_getFd vs = Some (Inr (long_of_int (Quic_Listener_getFd l)), s)"
| "call_listener E s p l Lm_setBlocking vs =
     query s (Quic_Listener_setBlocking E l (arg_bool vs 0)) void"
| "call_listener E s p l Lm_wantsRead vs = query s (Quic_Listener_wantsRead E l) (\<lambda>b. Inr (ZBool b))"
| "call_listener E s p l Lm_wantsWrite vs = query s (Quic_Listener_wantsWrite E l) (\<lambda>b. Inr (ZBool b))"
| "call_listener E s p l Lm_getTimeout vs =
     query s (Quic_Listener_getTimeout E l) (map_sum id (nullable ZDouble))"
| "call_listener E s p l Lm_handleEvents vs = query s (Quic_Listener_handleEvents E l) (\<lambda>_. Inr ZNull)"

text \<open>The connection a stream is constructed on is the first argument.\<close>

fun call_stream ::
  "'w env \<Rightarrow> 'w sys \<Rightarrow> nat \<Rightarrow> php_quic_stream \<Rightarrow> stream_method \<Rightarrow> zval list \<Rightarrow> 'w called" where
  "call_stream E s p st Sm_construct vs =
     (case vs of
        ZObject k # _ \<Rightarrow>
          (case object_at (objs s) k of
             OConnection c \<Rightarrow>
               (case run_state (Quic_Stream_construct E st k c (arg_bool vs 1)) (outside s) of
                  ((Inl e, st'), w) \<Rightarrow>
                    Some (Inl e, s\<lparr>objs := put p (OStream st') (objs s), outside := w\<rparr>)
                | ((Inr _, st'), w) \<Rightarrow>
                    Some (Inr ZNull, s\<lparr>objs := put p (OStream st') (addref k (objs s)), outside := w\<rparr>))
           | _ \<Rightarrow> None)
      | _ \<Rightarrow> None)"
| "call_stream E s p st Sm_write vs =
     query s (Quic_Stream_write E st (arg_string vs 0) (arg_bool vs 1)) (map_sum id ZLong)"
| "call_stream E s p st Sm_read vs =
     (case run_state (Quic_Stream_read E st (arg_long vs 0)) (outside s) of
        (None, _) \<Rightarrow> None
      | (Some x, w) \<Rightarrow> Some (map_sum id (nullable ZString) x, s\<lparr>outside := w\<rparr>))"
| "call_stream E s p st Sm_end vs = query s (Quic_Stream_end E st) void"
| "call_stream E s p st Sm_reset vs = query s (Quic_Stream_reset E st (arg_long vs 0)) void"
| "call_stream E s p st Sm_getResetCode vs =
     query s (Quic_Stream_getResetCode E st) (\<lambda>x. Inr (nullable ZLong x))"
| "call_stream E s p st Sm_getId vs = query s (Quic_Stream_getId E st) (map_sum id ZLong)"
| "call_stream E s p st Sm_isBidirectional vs =
     query s (Quic_Stream_isBidirectional E st) (\<lambda>b. Inr (ZBool b))"
| "call_stream E s p st Sm_getConnection vs =
     (case Quic_Stream_getConnection st of
        Inl e \<Rightarrow> Some (Inl e, s)
      | Inr k \<Rightarrow> Some (Inr (ZObject k), s\<lparr>objs := addref k (objs s), vars := add_mset k (vars s)\<rparr>))"
| "call_stream E s p st Sm_asStream vs =
     (case run_state (Quic_Stream_asStream E p st) (outside s) of
        (Inl e, w) \<Rightarrow> Some (Inl e, s\<lparr>outside := w\<rparr>)
      | (Inr ps, w) \<Rightarrow>
          (let f = fresh (files s)
           in Some (Inr (ZResource f), s\<lparr>objs := addref p (objs s), files := fmupd f ps (files s), outside := w\<rparr>)))"

definition call_poll :: "'w env \<Rightarrow> 'w sys \<Rightarrow> zval list \<Rightarrow> 'w called" where
  "call_poll E s vs =
     (case run_state (Quic_poll E (object_at (objs s)) (case arg_array vs 0 of None \<Rightarrow> [] | Some a \<Rightarrow> a)
        (arg_double vs 1)) (outside s) of
        (None, _) \<Rightarrow> None
      | (Some r, w) \<Rightarrow> Some (map_sum id ZArray r, s\<lparr>outside := w\<rparr>))"

text \<open>
  One call: the parameters are parsed, then the handler runs on the object.  \<open>None\<close> is a call that
  does not return (the model's rounds end in the handshake, or C leaves the outcome undefined) or
  that Zend does not make (a handler on an object of another class).
\<close>

datatype throwable = Zpp zpp_error | Thrown exn

fun call_handler ::
  "'w env \<Rightarrow> nat \<Rightarrow> 'w sys \<Rightarrow> nat \<Rightarrow> php_object \<Rightarrow> handler \<Rightarrow> zval list \<Rightarrow> 'w called" where
  "call_handler E fuel s this (OConnection c) (Of_connection m) vs = call_connection E fuel s this c m vs"
| "call_handler E fuel s this (OListener l) (Of_listener m) vs = call_listener E s this l m vs"
| "call_handler E fuel s this (OStream st) (Of_stream m) vs = call_stream E s this st m vs"
| "call_handler E fuel s this _ Fn_poll vs = call_poll E s vs"
| "call_handler E fuel s this _ _ vs = None"

definition call ::
  "'w env \<Rightarrow> weak \<Rightarrow> nat \<Rightarrow> 'w sys \<Rightarrow> nat \<Rightarrow> handler \<Rightarrow> zval list \<Rightarrow> ((throwable + zval) \<times> 'w sys) option" where
  "call E W fuel s this h args =
     (case zend_parse_parameters W (objs s) (zpp_of h) args of
        Inl e \<Rightarrow> Some (Inl (Zpp e), s)
      | Inr vs \<Rightarrow> map_option (map_prod (map_sum Thrown id) id)
          (call_handler E fuel s this (object_at (objs s) this) h vs))"

subsection \<open>Returned values have the declared type\<close>

lemma void_Inr [simp]: "void x = Inr v \<longleftrightarrow> x = Inr () \<and> v = ZNull"
  by (cases x) (auto simp: void_def)

lemma nullable_type [simp]:
  "nullable f x = ZNull \<longleftrightarrow> (case x of None \<Rightarrow> True | Some a \<Rightarrow> f a = ZNull)"
  "has_code t (nullable f x) \<longleftrightarrow> (case x of None \<Rightarrow> t = IS_VOID | Some a \<Rightarrow> has_code t (f a))"
  by (cases t; simp add: nullable_def split: option.split)+

lemma array_type [simp]:
  "has_code t (close_info_array i) \<longleftrightarrow> t = IS_ARRAY" "close_info_array i \<noteq> ZNull"
  "has_code t (packed_array ss) \<longleftrightarrow> t = IS_ARRAY" "packed_array ss \<noteq> ZNull"
  "has_code t (long_of_int k) \<longleftrightarrow> t = IS_LONG" "long_of_int k \<noteq> ZNull"
  by (cases t; simp add: close_info_array_def packed_array_def long_of_int_def)+

text \<open>A call whose value, if it returns one, has type \<open>T\<close> in the store it leaves.\<close>

definition answers :: "zend_type \<Rightarrow> 'w called \<Rightarrow> bool" where
  "answers T r \<longleftrightarrow> (\<forall>v s'. r = Some (Inr v, s') \<longrightarrow> conforms (objs s') T v)"

named_theorems answer_rules

lemma answers_None [answer_rules]: "answers T None"
  by (simp add: answers_def)

lemma answers_Some [answer_rules]: "(\<And>v. r = Inr v \<Longrightarrow> conforms (objs s) T v) \<Longrightarrow> answers T (Some (r, s))"
  by (simp add: answers_def)

lemma answers_query [answer_rules]:
  "(\<And>x v. f x = Inr v \<Longrightarrow> conforms (objs s) T v) \<Longrightarrow> answers T (query s m f)"
  by (simp add: query_def answers_def split: prod.split)

lemma answers_changes [answer_rules]:
  "T = No_type \<or> T = Simple IS_VOID False \<Longrightarrow> answers T (changes s p wrap m)"
  by (auto simp: changes_def answers_def split: prod.splits)

lemma answers_return_object [answer_rules]:
  "class_of ob = Some c \<Longrightarrow> answers (Class_type c n) (return_object s w p ob)"
  by (simp add: return_object_def answers_def object_at_def Let_def)

fun connection_returns :: "connection_method \<Rightarrow> zend_type" where
  "connection_returns Cm_construct = No_type"
| "connection_returns Cm_openStream = Class_type (quic_name ''Stream'') False"
| "connection_returns Cm_acceptStream = Class_type (quic_name ''Stream'') True"
| "connection_returns Cm_close = Simple IS_VOID False"
| "connection_returns Cm_getCloseInfo = Simple IS_ARRAY True"
| "connection_returns Cm_getFd = Simple IS_LONG False"
| "connection_returns Cm_setBlocking = Simple IS_VOID False"
| "connection_returns Cm_wantsRead = Simple IS_BOOL False"
| "connection_returns Cm_wantsWrite = Simple IS_BOOL False"
| "connection_returns Cm_getTimeout = Simple IS_DOUBLE True"
| "connection_returns Cm_handleEvents = Simple IS_VOID False"
| "connection_returns Cm_getCryptoInfo = Simple IS_ARRAY False"
| "connection_returns Cm_getNegotiatedAlpn = Simple IS_STRING True"
| "connection_returns Cm_getPeerCertificate = Simple IS_STRING True"
| "connection_returns Cm_getPeerCertificateChain = Simple IS_ARRAY False"
| "connection_returns Cm_getVerifyResult = Simple IS_LONG False"
| "connection_returns Cm_getVerifyResultString = Simple IS_STRING False"

fun listener_returns :: "listener_method \<Rightarrow> zend_type" where
  "listener_returns Lm_construct = No_type"
| "listener_returns Lm_accept = Class_type (quic_name ''Connection'') True"
| "listener_returns Lm_close = Simple IS_VOID False"
| "listener_returns Lm_getFd = Simple IS_LONG False"
| "listener_returns Lm_setBlocking = Simple IS_VOID False"
| "listener_returns Lm_wantsRead = Simple IS_BOOL False"
| "listener_returns Lm_wantsWrite = Simple IS_BOOL False"
| "listener_returns Lm_getTimeout = Simple IS_DOUBLE True"
| "listener_returns Lm_handleEvents = Simple IS_VOID False"

fun stream_returns :: "stream_method \<Rightarrow> zend_type" where
  "stream_returns Sm_construct = No_type"
| "stream_returns Sm_write = Simple IS_LONG False"
| "stream_returns Sm_read = Simple IS_STRING True"
| "stream_returns Sm_end = Simple IS_VOID False"
| "stream_returns Sm_reset = Simple IS_VOID False"
| "stream_returns Sm_getResetCode = Simple IS_LONG True"
| "stream_returns Sm_getId = Simple IS_LONG False"
| "stream_returns Sm_isBidirectional = Simple IS_BOOL False"
| "stream_returns Sm_getConnection = Class_type (quic_name ''Connection'') False"
| "stream_returns Sm_asStream = No_type"

fun returns_of :: "handler \<Rightarrow> zend_type" where
  "returns_of (Of_connection m) = connection_returns m"
| "returns_of (Of_listener m) = listener_returns m"
| "returns_of (Of_stream m) = stream_returns m"
| "returns_of Fn_poll = Simple IS_ARRAY False"

lemma declared_returns: "fe \<in> set all_functions \<Longrightarrow> fi_return (fe_info fe) = returns_of (fe_handler fe)"
proof -
  have "list_all (\<lambda>fe. fi_return (fe_info fe) = returns_of (fe_handler fe)) all_functions"
    by (simp add: table_defs arginfo_defs)
  then show "fe \<in> set all_functions \<Longrightarrow> ?thesis" by (simp add: list_all_iff)
qed

lemma connection_answers: "answers (connection_returns m) (call_connection E fuel s p c m vs)"
  by (cases m) (auto intro!: answer_rules split: prod.split sum.split option.splits)

lemma listener_answers: "answers (listener_returns m) (call_listener E s p l m vs)"
  by (cases m) (auto intro!: answer_rules split: prod.split option.splits)

lemma connection_of_stream:
  assumes "ok_object h (OStream st)" and "Quic_Stream_getConnection st = Inr k"
  shows "class_of (object_at (addref k h) k) = Some (quic_name ''Connection'')"
  using assms by (auto simp: Quic_Stream_getConnection_def object_at_def addref_def
      split: option.splits php_object.splits)

lemma stream_answers:
  assumes "ok_object (objs s) (OStream st)"
  shows "answers (stream_returns m) (call_stream E s p st m vs)"
  using connection_of_stream [OF assms]
  by (cases m) (auto intro!: answer_rules simp: Let_def
      split: prod.split sum.split option.splits zval.split php_object.split list.split)

lemma poll_answers: "answers (Simple IS_ARRAY False) (call_poll E s vs)"
  by (auto simp: call_poll_def intro!: answer_rules split: prod.split option.split)

lemma handler_answers:
  assumes "typed (objs s)" and "object_at (objs s) this = ob"
  shows "answers (returns_of h) (call_handler E fuel s this ob h vs)"
proof (cases "\<exists>n. fmlookup (objs s) this = Some (n, ob)")
  case True
  then have "ok_object (objs s) ob" using typedD [OF assms(1)] by auto
  then show ?thesis
    by (cases h; cases ob)
      (simp_all add: connection_answers listener_answers stream_answers poll_answers answers_None)
next
  case False
  then have "ob = OForeign" using assms(2) by (auto simp: object_at_def split: option.splits)
  then show ?thesis by (cases h) (simp_all add: poll_answers answers_None)
qed

text \<open>
  C10. Calls are well typed: in every state a script can reach, the value a call of any function of
  the extension returns has the type its argument table declares, a returned object being one of the
  declared class in the store the call leaves.  Arguments may be anything.
\<close>

theorem call_type_sound:
  assumes "reachable E s" and "fe \<in> set all_functions"
    and "call E W fuel s this (fe_handler fe) args = Some (Inr v, s')"
  shows "conforms (objs s') (fi_return (fe_info fe)) v"
proof -
  have t: "typed (objs s)" using goodD(2) [OF soundD(1) [OF reachable_sound [OF assms(1)]]] .
  obtain vs where "call_handler E fuel s this (object_at (objs s) this) (fe_handler fe) vs = Some (Inr v, s')"
    using assms(3) by (auto simp: call_def split: sum.splits)
  with handler_answers [OF t refl] declared_returns [OF assms(2)] show ?thesis
    by (simp add: answers_def)
qed

lemma call_type_sound_witness:
  "\<exists>(s :: unit sys) s'. call obliging unconverted 0 s 1 (Of_stream Sm_getConnection) [] = Some (Inr (ZObject 0), s') \<and>
    conforms (objs s') (Class_type (quic_name ''Connection'') False) (ZObject 0)"
proof (rule example_run)
  fix s :: "unit sys"
  let ?fe = "ZEND_ME ''getConnection'' (Of_stream Sm_getConnection) arginfo_class_Quic_Stream_getConnection"
  assume s: "reachable obliging s"
    and "fmlookup (objs s) 1 = Some (1, OStream (php_quic_stream_init_object 3 0))"
  then have c: "call obliging unconverted 0 s 1 (Of_stream Sm_getConnection) [] =
      Some (Inr (ZObject 0), s\<lparr>objs := addref 0 (objs s), vars := add_mset 0 (vars s)\<rparr>)"
    by (simp add: call_def zend_parse_parameters_def zpp_defs object_at_def
        Quic_Stream_getConnection_def php_quic_stream_init_object_def)
  have "?fe \<in> set all_functions" by (simp add: table_defs)
  from call_type_sound [OF s this, of unconverted 0 1 "[]"] c show ?thesis
    by (intro exI [of _ s] exI [of _ "s\<lparr>objs := addref 0 (objs s), vars := add_mset 0 (vars s)\<rparr>"])
      (simp add: arginfo_defs)
qed

subsection \<open>A call is a step\<close>

lemma fresh_new: "fmlookup m (fresh m) = None"
proof -
  have "fresh m \<notin> fmdom' m"
    using Max_ge [of "insert 0 (fmdom' m)" "fresh m"] by (fastforce simp: fresh_def)
  then show ?thesis by (simp add: fmdom'_notD)
qed

lemma run_discard: "run_state m w = (x, w') \<Longrightarrow> run_state (discard m) w = ((), w')"
  by (simp add: discard_def)

lemma query_step:
  assumes "query s m f = Some (r, s')"
    and "\<And>x w. run_state m (outside s) = (x, w) \<Longrightarrow> step E s (s\<lparr>outside := w\<rparr>)"
  shows "step E s s'"
  using assms by (auto simp: query_def split: prod.splits)

lemma connection_event_step:
  "names s p (OConnection c) \<Longrightarrow> connection_event E c ev = discard m \<Longrightarrow>
    run_state m (outside s) = (x, w) \<Longrightarrow> step E s (s\<lparr>outside := w\<rparr>)"
  by (erule step.connection_event [where ev = ev]) (simp, erule run_discard)

lemma connection_info_step:
  "names s p (OConnection c) \<Longrightarrow> connection_info E c i = discard m \<Longrightarrow>
    run_state m (outside s) = (x, w) \<Longrightarrow> step E s (s\<lparr>outside := w\<rparr>)"
  by (erule step.connection_info [where info = i]) (simp, erule run_discard)

lemma connection_step:
  assumes n: "names s p (OConnection c)" and r: "call_connection E fuel s p c m vs = Some (r, s')"
  shows "s' = s \<or> step E s s'"
proof -
  note event = connection_event_step [OF n connection_event.simps(1)]
    connection_event_step [OF n connection_event.simps(2)]
    connection_event_step [OF n connection_event.simps(3)]
    connection_event_step [OF n connection_event.simps(4)]
    step.connection_event [OF n, where ev = Handle_events, unfolded connection_event.simps]
  note info = connection_info.simps [THEN connection_info_step [OF n]]
  show ?thesis
  proof (cases m)
    case Cm_construct
    then show ?thesis using r
      by (auto split: prod.splits sum.splits intro: step.connect [OF n])
  next
    case Cm_openStream
    then show ?thesis using r
      by (auto simp: return_object_def Let_def simp del: One_nat_def split: prod.splits sum.splits
          intro: step.open_stream [OF n] step.open_stream_throws [OF n] fresh_new)
  next
    case Cm_acceptStream
    then show ?thesis using r
      by (auto simp: return_object_def Let_def simp del: One_nat_def split: prod.splits option.splits
          intro: step.accept_stream [OF n] step.accept_stream_null [OF n] fresh_new)
  next
    case Cm_close
    then show ?thesis using r
      by (auto simp: changes_def split: prod.splits intro: step.close_connection [OF n])
  next
    case Cm_getFd
    then show ?thesis using r by simp
  qed (insert r, simp, rule disjI2, erule query_step, (erule event | erule info))+
qed

lemma listener_event_step:
  "names s p (OListener l) \<Longrightarrow> listener_event E l ev = discard m \<Longrightarrow>
    run_state m (outside s) = (x, w) \<Longrightarrow> step E s (s\<lparr>outside := w\<rparr>)"
  by (erule step.listener_event [where ev = ev]) (simp, erule run_discard)

lemma listener_step:
  assumes n: "names s p (OListener l)" and r: "call_listener E s p l m vs = Some (r, s')"
  shows "s' = s \<or> step E s s'"
proof -
  note event = listener_event_step [OF n listener_event.simps(1)]
    listener_event_step [OF n listener_event.simps(2)]
    listener_event_step [OF n listener_event.simps(3)]
    listener_event_step [OF n listener_event.simps(4)]
    step.listener_event [OF n, where ev = Handle_events, unfolded listener_event.simps]
  show ?thesis
  proof (cases m)
    case Lm_construct
    then show ?thesis using r
      by (auto simp: changes_def split: prod.splits intro: step.listen [OF n])
  next
    case Lm_accept
    then show ?thesis using r
      by (auto simp: return_object_def Let_def simp del: One_nat_def split: prod.splits option.splits
          intro: step.accept [OF n] step.accept_null [OF n] fresh_new)
  next
    case Lm_close
    then show ?thesis using r
      by (auto simp: changes_def split: prod.splits intro: step.close_listener [OF n])
  next
    case Lm_getFd
    then show ?thesis using r by simp
  qed (insert r, simp, rule disjI2, erule query_step, erule event)+
qed

lemma stream_op_step:
  "names s p (OStream st) \<Longrightarrow> stream_call_op E st i = discard m \<Longrightarrow>
    run_state m (outside s) = (x, w) \<Longrightarrow> step E s (s\<lparr>outside := w\<rparr>)"
  by (erule step.stream_op [where sop = i]) (simp, erule run_discard)

text \<open>The objects among the arguments are in variables of the caller.\<close>

definition held_by_caller :: "'w sys \<Rightarrow> zval list \<Rightarrow> bool" where
  "held_by_caller s args \<longleftrightarrow> (\<forall>k. ZObject k \<in> set args \<longrightarrow> k \<in># vars s)"

lemma named_object:
  "k \<in># vars s \<Longrightarrow> object_at (objs s) k = ob \<Longrightarrow> ob \<noteq> OForeign \<Longrightarrow> names s k ob"
  by (auto simp: names_def object_at_def split: option.splits)

lemma stream_step:
  assumes n: "names s p (OStream st)" and a: "held_by_caller s vs"
    and r: "call_stream E s p st m vs = Some (r, s')"
  shows "s' = s \<or> step E s s'"
proof -
  note sop = stream_call_op.simps [THEN stream_op_step [OF n]]
  show ?thesis
  proof (cases m)
    case Sm_construct
    then obtain k us c where vs: "vs = ZObject k # us" and c: "object_at (objs s) k = OConnection c"
      using r by (auto split: list.splits zval.splits php_object.splits)
    then have "names s k (OConnection c)"
      using a by (auto simp: held_by_caller_def intro: named_object)
    then show ?thesis using r Sm_construct vs c
      by (auto split: prod.splits sum.splits
          intro: step.construct_stream [OF n] step.construct_stream_throws [OF n])
  next
    case Sm_read
    then show ?thesis using r by (auto split: prod.splits option.splits intro: sop)
  next
    case Sm_getConnection
    then show ?thesis using r by (auto split: sum.splits intro: step.get_connection [OF n])
  next
    case Sm_asStream
    then show ?thesis using r
      by (auto simp: Let_def split: prod.splits sum.splits
          intro: step.as_stream [OF n] step.as_stream_throws [OF n] fresh_new)
  qed (insert r, simp, rule disjI2, erule query_step, erule sop)+
qed

lemma poll_step: "call_poll E s vs = Some (r, s') \<Longrightarrow> step E s s'"
  by (auto simp: call_poll_def split: prod.splits option.splits intro: step.poll)

text \<open>
  C9. Calls are steps: a call of any function with any arguments, on an object and with objects the
  caller has in variables, either leaves the system as it is or does what one step of the lifecycle
  relation does, so what is proved of every run holds after any sequence of calls.
\<close>

theorem call_is_step:
  assumes "this \<in># vars s" and "held_by_caller s args"
    and "call E W fuel s this h args = Some (r, s')"
  shows "s' = s \<or> step E s s'"
proof (cases "zend_parse_parameters W (objs s) (zpp_of h) args")
  case (Inr vs)
  then have "held_by_caller s vs"
    using assms(2) parsed_objects by (auto simp: held_by_caller_def)
  moreover obtain x where x: "call_handler E fuel s this (object_at (objs s) this) h vs = Some (x, s')"
    using assms(3) Inr by (auto simp: call_def)
  moreover have "object_at (objs s) this \<noteq> OForeign \<Longrightarrow> names s this (object_at (objs s) this)"
    using assms(1) by (intro named_object) auto
  ultimately show ?thesis
    by (cases h; cases "object_at (objs s) this")
      (auto dest: connection_step listener_step stream_step poll_step)
qed (use assms(3) in \<open>simp add: call_def\<close>)

lemma call_is_step_witness:
  "\<exists>(s :: unit sys) s'. reachable obliging s \<and> vars s = {#0#} \<and>
    call obliging unconverted 0 s 0 (Of_connection Cm_close) [] = Some (Inr ZNull, s') \<and> (s' = s \<or> step obliging s s')"
proof -
  let ?s0 = "\<lparr>objs = fmempty, vars = {#}, files = fmempty, outside = \<lparr>engine = (), trace = []\<rparr>\<rparr>"
  define s where "s = ?s0\<lparr>objs := fmupd 0 (1, OConnection quic_connection_create) (objs ?s0),
    vars := add_mset 0 (vars ?s0)\<rparr>"
  have r: "reachable obliging s"
    unfolding s_def by (rule reachable.more [OF reachable.start step.create]) (simp_all add: fresh_object_def)
  have "\<exists>s'. call obliging unconverted 0 s 0 (Of_connection Cm_close) [] = Some (Inr ZNull, s')"
    by (simp add: call_def zend_parse_parameters_def zpp_defs object_at_def s_def changes_def
        Quic_Connection_close_def quic_connection_create_def void_def)
  then obtain s' where c: "call obliging unconverted 0 s 0 (Of_connection Cm_close) [] = Some (Inr ZNull, s')"
    by blast
  have "s' = s \<or> step obliging s s'"
    by (rule call_is_step [OF _ _ c]) (simp_all add: s_def held_by_caller_def)
  moreover have "vars s = {#0#}" by (simp add: s_def)
  ultimately show ?thesis using r c by blast
qed

subsection \<open>A call comes back\<close>

text \<open>The objects whose class has the method.\<close>

fun serves :: "handler \<Rightarrow> php_object \<Rightarrow> bool" where
  "serves (Of_connection _) (OConnection _) = True"
| "serves (Of_listener _) (OListener _) = True"
| "serves (Of_stream _) (OStream _) = True"
| "serves Fn_poll _ = True"
| "serves _ _ = False"

lemma timeval_defined: "poll_timeval E t = None \<Longrightarrow> t = NaN"
  by (cases t) (auto simp: poll_timeval_def c_long_def Let_def split: bool.splits if_splits)

lemma poll_comes_back:
  assumes "timeout \<noteq> Some NaN"
  shows "run_state (Quic_poll E store items timeout) w \<noteq> (None, w')"
proof -
  have "yields (\<lambda>x. x \<noteq> None) (Quic_poll E store items timeout)"
    unfolding Quic_poll_def Let_def
    using assms by (intro yields_rules) (auto dest: timeval_defined split: option.splits)
  from yieldsD [OF this, of w] show ?thesis by auto
qed

text \<open>
  The calls documented as possibly waiting for something outside the process: name resolution, the
  handshake, and whatever waits for the peer in blocking mode.  A \<open>SSL_poll\<close> with a timeout waits
  no longer than that.
\<close>

fun may_wait :: "call \<Rightarrow> bool" where
  "may_wait (Net (BIO_lookup_ex _ _ _)) = True"
| "may_wait (Net (poll_fd _ _ _)) = True"
| "may_wait (Ssl (SSL_connect _)) = True"
| "may_wait (Ssl (SSL_accept_connection _)) = True"
| "may_wait (Ssl (SSL_poll _ t)) = (t = None)"
| "may_wait (Info (SSL_shutdown_ex _ _ _)) = True"
| "may_wait (Strm (SSL_new_stream _ _)) = True"
| "may_wait (Strm (SSL_accept_stream _)) = True"
| "may_wait (Strm (SSL_write_ex2 _ _ _)) = True"
| "may_wait (Strm (SSL_read_ex _ _)) = True"
| "may_wait _ = False"

abbreviation prompt :: "('w, 'a) quic \<Rightarrow> bool" where
  "prompt m \<equiv> makes (\<lambda>c. \<not> may_wait c) m"

text \<open>The functions that may make such a call, on the C variables their arguments give.\<close>

fun blocking :: "handler \<Rightarrow> zval list \<Rightarrow> bool" where
  "blocking (Of_connection m) vs \<longleftrightarrow> m \<in> {Cm_construct, Cm_openStream, Cm_acceptStream, Cm_close}"
| "blocking (Of_listener m) vs \<longleftrightarrow> m \<in> {Lm_construct, Lm_accept}"
| "blocking (Of_stream m) vs \<longleftrightarrow> m \<in> {Sm_construct, Sm_write, Sm_read}"
| "blocking Fn_poll vs \<longleftrightarrow> arg_double vs 1 = None"

definition waitless :: "'w sys \<Rightarrow> ('a \<times> 'w sys) option \<Rightarrow> bool" where
  "waitless s r \<longleftrightarrow> (\<forall>x s'. r = Some (x, s') \<longrightarrow>
     (\<exists>t. trace (outside s') = t @ trace (outside s) \<and> list_all (\<lambda>e. \<not> may_wait (fst e)) t))"

named_theorems waitless_rules

lemma waitless_None [waitless_rules]: "waitless s None"
  by (simp add: waitless_def)

lemma waitless_same [waitless_rules]: "outside s' = outside s \<Longrightarrow> waitless s (Some (x, s'))"
  by (simp add: waitless_def)

lemma waitless_query [waitless_rules]: "prompt m \<Longrightarrow> waitless s (query s m f)"
  by (auto simp: waitless_def query_def split: prod.splits elim: makesD)

lemma waitless_changes [waitless_rules]: "prompt m \<Longrightarrow> waitless s (changes s p wrap m)"
  by (auto simp: waitless_def changes_def split: prod.splits elim: makesD)

lemma prompt_pem: "prompt (php_quic_x509_to_pem E cert)"
  unfolding php_quic_x509_to_pem_def Let_def by (auto intro!: makes_rules)

lemma prompt_chain: "prompt (chain_to_pem E certs)"
  by (induction certs) (auto intro!: makes_rules prompt_pem)

lemma prompt_release: "prompt (quic_listener_release E obj)"
  unfolding quic_listener_release_def free_ssl_def close_fd_def free_ctx_def free_alpn_data_def Let_def
  by (auto intro!: makes_rules)

lemma connection_waitless:
  assumes "\<not> blocking (Of_connection m) vs"
  shows "waitless s (call_connection E fuel s p c m vs)"
  using assms
  by (cases m)
    (auto intro!: waitless_rules makes_rules prompt_pem prompt_chain
      simp: Quic_Connection_getCloseInfo_def Quic_Connection_setBlocking_def Quic_Connection_wantsRead_def
        Quic_Connection_wantsWrite_def Quic_Connection_getTimeout_def Quic_Connection_handleEvents_def
        Quic_Connection_getCryptoInfo_def Quic_Connection_getNegotiatedAlpn_def
        Quic_Connection_getPeerCertificate_def Quic_Connection_getPeerCertificateChain_def
        Quic_Connection_getVerifyResult_def Quic_Connection_getVerifyResultString_def Let_def)

lemma listener_waitless:
  assumes "\<not> blocking (Of_listener m) vs"
  shows "waitless s (call_listener E s p l m vs)"
  using assms
  by (cases m)
    (auto intro!: waitless_rules makes_rules prompt_release
      simp: Quic_Listener_close_def Quic_Listener_setBlocking_def Quic_Listener_wantsRead_def
        Quic_Listener_wantsWrite_def Quic_Listener_getTimeout_def Quic_Listener_handleEvents_def)

lemma prompt_asStream: "prompt (Quic_Stream_asStream E p st)"
  unfolding Quic_Stream_asStream_def by (auto intro!: makes_rules)

lemma stream_waitless:
  assumes "\<not> blocking (Of_stream m) vs"
  shows "waitless s (call_stream E s p st m vs)"
proof (cases "m = Sm_asStream")
  case True
  obtain x w where r: "run_state (Quic_Stream_asStream E p st) (outside s) = (x, w)" by fastforce
  obtain t where "trace w = t @ trace (outside s)" "list_all (\<lambda>e. \<not> may_wait (fst e)) t"
    using makesD [OF prompt_asStream r] by blast
  then show ?thesis using True by (auto simp: waitless_def r Let_def split: sum.splits)
next
  case False
  then show ?thesis using assms
    by (cases m)
      (auto intro!: waitless_rules makes_rules
        simp: Quic_Stream_end_def Quic_Stream_reset_def Quic_Stream_getResetCode_def Quic_Stream_getId_def
          Quic_Stream_isBidirectional_def split: sum.split)
qed

lemma prompt_poll: "prompt (Quic_poll E store items (Some t))"
  unfolding Quic_poll_def free_items_def Let_def by (auto intro!: makes_rules split: option.split)

lemma poll_waitless:
  assumes "\<not> blocking Fn_poll vs"
  shows "waitless s (call_poll E s vs)"
proof -
  obtain d where d: "arg_double vs 1 = Some d" using assms by auto
  obtain x w where r: "run_state (Quic_poll E (object_at (objs s))
      (case arg_array vs 0 of None \<Rightarrow> [] | Some a \<Rightarrow> a) (Some d)) (outside s) = (x, w)"
    by fastforce
  obtain t where "trace w = t @ trace (outside s)" "list_all (\<lambda>e. \<not> may_wait (fst e)) t"
    using makesD [OF prompt_poll r] by blast
  then show ?thesis unfolding waitless_def call_poll_def d r by (cases x) auto
qed

lemma handler_waitless: "\<not> blocking h vs \<Longrightarrow> waitless s (call_handler E fuel s this ob h vs)"
  by (cases h; cases ob)
    (simp_all add: connection_waitless listener_waitless stream_waitless poll_waitless waitless_None
      del: blocking.simps)

lemma call_waitless:
  assumes "\<And>vs. zend_parse_parameters W (objs s) (zpp_of h) args = Inr vs \<Longrightarrow> \<not> blocking h vs"
  shows "waitless s (call E W fuel s this h args)"
proof (cases "zend_parse_parameters W (objs s) (zpp_of h) args")
  case (Inr vs)
  then have "waitless s (call_handler E fuel s this (object_at (objs s) this) h vs)"
    using handler_waitless assms by blast
  then show ?thesis using Inr by (auto simp: call_def waitless_def map_prod_def split: prod.splits)
qed (simp add: call_def waitless_def)

lemma call_comes_back:
  assumes "steady_clock E ns" and "serves h (object_at (objs s) this)"
    and "\<And>v. h = Fn_poll \<Longrightarrow> v \<in> set args \<Longrightarrow>
      parse_param W (objs s) P_double_or_null v \<noteq> Some (ZDouble NaN)"
  shows "\<exists>n. \<forall>fuel>n. \<exists>r s'. call E W fuel s this h args = Some (r, s')"
proof (cases "zend_parse_parameters W (objs s) (zpp_of h) args")
  case (Inr vs)
  let ?n = "nat (sint (opt_long E (arg_array vs 2) ''connect_timeout_ms'' 0)) * 1000000"
  have "call_handler E fuel s this (object_at (objs s) this) h vs \<noteq> None" if "?n < fuel" for fuel
  proof (cases h)
    case (Of_connection m)
    obtain c where c: "object_at (objs s) this = OConnection c"
      using assms(2) Of_connection by (cases "object_at (objs s) this") auto
    have "run_state (Quic_Connection_construct fuel E c host port (arg_array vs 2)) w \<noteq> (Inl e, w')"
      for host port w e w'
      using construct_returns [OF assms(1) that, of c host port w] by auto
    then show ?thesis using c Of_connection
      by (cases m) (auto simp: query_def changes_def return_object_def Let_def
          split: prod.split sum.split option.split)
  next
    case (Of_listener m)
    then obtain l where "object_at (objs s) this = OListener l"
      using assms(2) by (cases "object_at (objs s) this") auto
    then show ?thesis using Of_listener
      by (cases m) (auto simp: query_def changes_def return_object_def Let_def split: prod.split option.split)
  next
    case (Of_stream m)
    then obtain st where "object_at (objs s) this = OStream st"
      using assms(2) by (cases "object_at (objs s) this") auto
    then show ?thesis using Of_stream Inr read_returns [of E st "arg_long vs 0" "outside s"]
      by (cases m) (auto simp: query_def Let_def dest!: parsed_connection
          split: prod.split sum.split option.split)
  next
    case Fn_poll
    then have "arg_double vs 1 \<noteq> Some NaN" using parsed_timeout Inr assms(3) by auto
    from poll_comes_back [OF this, of E] show ?thesis using Fn_poll
      by (cases "object_at (objs s) this") (auto simp: call_poll_def split: prod.split option.split)
  qed
  then have "\<exists>r s'. call E W fuel s this h args = Some (r, s')" if "?n < fuel" for fuel
    using that Inr by (fastforce simp: call_def)
  then show ?thesis by blast
qed (simp add: call_def)



end
